(* ===== verification/Py_Prelude.thy ===== *)
theory Py_Prelude
  imports Complex_Main "HOL-Library.AList" "HOL-Library.Sublist"
begin

text \<open>
  The Python values, exceptions and dictionaries the components share.

  A raw fact, a fingerprint or a request body is JSON-like data, so one datatype holds every
  value: \<open>None\<close>, booleans, unbounded integers, floats, strings, dates, lists and dicts with
  string keys. A dict is an association list in insertion order with distinct keys: reading is
  \<^const>\<open>map_of\<close>, \<open>d[k] = v\<close> is \<^const>\<open>AList.update\<close> (in place when the key exists, at the
  end otherwise, as Python does) and \<open>d.pop(k, None)\<close> is \<^const>\<open>AList.delete\<close>.

  Finite floats are exact rationals: rounding is not modelled, overflow to infinity, the
  infinities and NaN are.

  An operation that may raise returns a \<open>res\<close>: \<open>Raise\<close> with the exception class, or
  \<open>Return\<close> with the value.
\<close>

named_theorems res_simps \<open>equations that push a result through the bind\<close>
named_theorems dict_simps \<open>lookups after dictionary updates\<close>

section \<open>Values\<close>

datatype pyfloat = Fin rat | PosInf | NegInf | NaN

datatype pyval =
    PNone
  | PBool bool
  | PInt int
  | PFloat pyfloat
  | PStr string
  | PDate nat nat nat
  | PDateTime nat nat nat nat nat nat
  | PList "pyval list"
  | PDict "(string \<times> pyval) list"

type_synonym pydict = "(string \<times> pyval) list"

text \<open>Python's truth value of an object, as \<open>if x:\<close> and \<open>bool(x)\<close> take it.\<close>

fun truthy :: "pyval \<Rightarrow> bool" where
  "truthy PNone = False"
| "truthy (PBool b) = b"
| "truthy (PInt i) = (i \<noteq> 0)"
| "truthy (PFloat f) = (f \<noteq> Fin 0)"
| "truthy (PStr s) = (s \<noteq> [])"
| "truthy (PDate _ _ _) = True"
| "truthy (PDateTime _ _ _ _ _ _) = True"
| "truthy (PList xs) = (xs \<noteq> [])"
| "truthy (PDict d) = (d \<noteq> [])"

fun is_str :: "pyval \<Rightarrow> bool" where
  "is_str (PStr _) = True"
| "is_str _ = False"

fun is_list :: "pyval \<Rightarrow> bool" where
  "is_list (PList _) = True"
| "is_list _ = False"

fun is_dict :: "pyval \<Rightarrow> bool" where
  "is_dict (PDict _) = True"
| "is_dict _ = False"

text \<open>\<open>isinstance(v, int)\<close> is also true of booleans.\<close>

fun is_pyint :: "pyval \<Rightarrow> bool" where
  "is_pyint (PInt _) = True"
| "is_pyint (PBool _) = True"
| "is_pyint _ = False"

lemma is_str_conv: "is_str v \<longleftrightarrow> (\<exists>s. v = PStr s)"
  by (cases v) auto

lemma is_list_conv: "is_list v \<longleftrightarrow> (\<exists>xs. v = PList xs)"
  by (cases v) auto

lemma is_dict_conv: "is_dict v \<longleftrightarrow> (\<exists>d. v = PDict d)"
  by (cases v) auto

section \<open>Exceptions as values\<close>

datatype exn =
    KeyError | AttributeError | TypeError | ValueError | IndexError | OverflowError
  | AssertionError | NotImplementedError | ZeroDivisionError | RecursionError | UnboundLocalError
  | DoesNotExist | IntegrityError

datatype 'a res = Raise exn | Return 'a

fun bind_res :: "'a res \<Rightarrow> ('a \<Rightarrow> 'b res) \<Rightarrow> 'b res" where
  "bind_res (Raise e) f = Raise e"
| "bind_res (Return x) f = f x"

fun map_res :: "('a \<Rightarrow> 'b res) \<Rightarrow> 'a list \<Rightarrow> 'b list res" where
  "map_res f [] = Return []"
| "map_res f (x # xs) =
     bind_res (f x) (\<lambda>y. bind_res (map_res f xs) (\<lambda>ys. Return (y # ys)))"

text \<open>A loop over a list that carries a state and may raise.\<close>

fun fold_res :: "('a \<Rightarrow> 's \<Rightarrow> 's res) \<Rightarrow> 'a list \<Rightarrow> 's \<Rightarrow> 's res" where
  "fold_res f [] s = Return s"
| "fold_res f (x # xs) s = bind_res (f x s) (fold_res f xs)"

fun is_return :: "'a res \<Rightarrow> bool" where
  "is_return (Return _) = True"
| "is_return (Raise _) = False"

lemma bind_res_eq_Return [res_simps]:
  "bind_res m f = Return y \<longleftrightarrow> (\<exists>x. m = Return x \<and> f x = Return y)"
  by (cases m) auto

lemma bind_res_eq_Raise [res_simps]:
  "bind_res m f = Raise e \<longleftrightarrow> m = Raise e \<or> (\<exists>x. m = Return x \<and> f x = Raise e)"
  by (cases m) auto

lemma bind_res_cong [fundef_cong]:
  "m = m' \<Longrightarrow> (\<And>x. m' = Return x \<Longrightarrow> f x = g x) \<Longrightarrow> bind_res m f = bind_res m' g"
  by (cases m') auto

lemma is_return_conv: "is_return r \<longleftrightarrow> (\<exists>x. r = Return x)"
  by (cases r) auto

lemma map_res_Return_all:
  "(\<And>x. x \<in> set xs \<Longrightarrow> f x = Return (g x)) \<Longrightarrow> map_res f xs = Return (map g xs)"
  by (induction xs) auto

lemma map_res_set:
  "map_res f xs = Return ys \<Longrightarrow> y \<in> set ys \<Longrightarrow> \<exists>x \<in> set xs. f x = Return y"
  by (induction xs arbitrary: ys) (auto simp: res_simps)

lemma fold_res_append:
  "fold_res f (xs @ ys) s = bind_res (fold_res f xs s) (fold_res f ys)"
proof (induction xs arbitrary: s)
  case Nil
  then show ?case by simp
next
  case (Cons x xs)
  then show ?case by (cases "f x s") auto
qed

text \<open>An invariant every step of a loop keeps, and under which no step raises.\<close>

lemma fold_res_total:
  assumes "\<And>x s. x \<in> set xs \<Longrightarrow> I s \<Longrightarrow> \<exists>s'. f x s = Return s' \<and> I s'" and "I s"
  shows "\<exists>s'. fold_res f xs s = Return s' \<and> I s'"
  using assms
proof (induction xs arbitrary: s)
  case Nil
  then show ?case by simp
next
  case (Cons x xs)
  from Cons.prems obtain s1 where s1: "f x s = Return s1" "I s1"
    by (meson list.set_intros(1))
  have "\<exists>s'. fold_res f xs s1 = Return s' \<and> I s'"
  proof (rule Cons.IH)
    show "\<And>y s. y \<in> set xs \<Longrightarrow> I s \<Longrightarrow> \<exists>s'. f y s = Return s' \<and> I s'"
      using Cons.prems(1) by simp
  qed (rule s1(2))
  with s1(1) show ?case by simp
qed

text \<open>Partial correctness: what holds of the result if nothing is raised.\<close>

definition if_returns :: "('a \<Rightarrow> bool) \<Rightarrow> 'a res \<Rightarrow> bool" where
  "if_returns Q r \<longleftrightarrow> (case r of Return x \<Rightarrow> Q x | Raise _ \<Rightarrow> True)"

lemma if_returns_simps [simp]: "if_returns Q (Return x) = Q x" "if_returns Q (Raise e)"
  by (simp_all add: if_returns_def)

lemma if_returnsD: "if_returns Q r \<Longrightarrow> r = Return x \<Longrightarrow> Q x"
  by simp

lemma if_returns_bind [simp]: "if_returns Q (bind_res m f) \<longleftrightarrow> if_returns (\<lambda>x. if_returns Q (f x)) m"
  by (cases m) simp_all

lemma if_returns_mono: "if_returns Q m \<Longrightarrow> (\<And>x. Q x \<Longrightarrow> R x) \<Longrightarrow> if_returns R m"
  by (cases m) simp_all

lemma if_returns_TrueI: "(\<And>x. Q x) \<Longrightarrow> if_returns Q m"
  by (cases m) simp_all

lemma if_returns_fold:
  assumes "\<And>x s. x \<in> set xs \<Longrightarrow> I s \<Longrightarrow> if_returns I (f x s)" and "I s"
  shows "if_returns I (fold_res f xs s)"
  using assms
proof (induction xs arbitrary: s)
  case Nil
  then show ?case by simp
next
  case (Cons x xs)
  have "if_returns I (f x s)" using Cons.prems by simp
  then have "if_returns (\<lambda>s. if_returns I (fold_res f xs s)) (f x s)"
    by (rule if_returns_mono) (rule Cons.IH, use Cons.prems in simp_all)
  then show ?case by simp
qed

text \<open>Total correctness: a value is returned, and it holds of it.\<close>

fun returns :: "('a \<Rightarrow> bool) \<Rightarrow> 'a res \<Rightarrow> bool" where
  "returns Q (Return x) = Q x"
| "returns Q (Raise _) = False"

lemma returns_conv: "returns Q r \<longleftrightarrow> (\<exists>x. r = Return x \<and> Q x)"
  by (cases r) simp_all

section \<open>Dictionaries\<close>

definition wf_dict :: "('k \<times> 'v) list \<Rightarrow> bool" where
  "wf_dict d \<longleftrightarrow> distinct (map fst d)"

text \<open>\<open>d.get(k, default)\<close>\<close>

definition dget :: "('k \<times> 'v) list \<Rightarrow> 'k \<Rightarrow> 'v \<Rightarrow> 'v" where
  "dget d k v = (case map_of d k of None \<Rightarrow> v | Some x \<Rightarrow> x)"

text \<open>\<open>d.get(k)\<close> on a JSON dict: the value, or \<open>None\<close>.\<close>

abbreviation dgetn :: "pydict \<Rightarrow> string \<Rightarrow> pyval" where
  "dgetn d k \<equiv> dget d k PNone"

text \<open>\<open>d[k]\<close>\<close>

definition ditem :: "('k \<times> 'v) list \<Rightarrow> 'k \<Rightarrow> 'v res" where
  "ditem d k = (case map_of d k of None \<Rightarrow> Raise KeyError | Some x \<Rightarrow> Return x)"

definition has_key :: "('k \<times> 'v) list \<Rightarrow> 'k \<Rightarrow> bool" where
  "has_key d k \<longleftrightarrow> k \<in> set (map fst d)"

text \<open>\<open>v.get(k, default)\<close> and \<open>v[k]\<close> on a value that need not be a dict.\<close>

fun vget :: "pyval \<Rightarrow> string \<Rightarrow> pyval \<Rightarrow> pyval res" where
  "vget (PDict d) k dflt = Return (dget d k dflt)"
| "vget _ _ _ = Raise AttributeError"

fun vitem :: "pyval \<Rightarrow> string \<Rightarrow> pyval res" where
  "vitem (PDict d) k = ditem d k"
| "vitem _ _ = Raise TypeError"

text \<open>Iterating over \<open>v.values()\<close>.\<close>

fun vvalues :: "pyval \<Rightarrow> pyval list res" where
  "vvalues (PDict d) = Return (map snd d)"
| "vvalues _ = Raise AttributeError"

text \<open>The elements a \<open>for\<close> loop takes from a value.\<close>

fun py_iter :: "pyval \<Rightarrow> pyval list res" where
  "py_iter (PList xs) = Return xs"
| "py_iter (PDict d) = Return (map (\<lambda>(k, _). PStr k) d)"
| "py_iter (PStr s) = Return (map (\<lambda>c. PStr [c]) s)"
| "py_iter _ = Raise TypeError"

text \<open>A key of a Python dict: lists and dicts cannot be hashed.\<close>

definition as_key :: "pyval \<Rightarrow> pyval res" where
  "as_key v = (if is_list v \<or> is_dict v then Raise TypeError else Return v)"

lemma has_key_map_of: "has_key d k \<longleftrightarrow> map_of d k \<noteq> None"
  by (auto simp: has_key_def map_of_eq_None_iff)

lemma has_key_update [dict_simps]: "has_key (AList.update k v d) x \<longleftrightarrow> x = k \<or> has_key d x"
  by (auto simp: has_key_map_of update_conv')

lemma map_of_update [dict_simps]:
  "map_of (AList.update k v d) x = (if x = k then Some v else map_of d x)"
  by (simp add: update_conv')

lemma map_of_AList_delete [dict_simps]:
  "map_of (AList.delete k d) x = (if x = k then None else map_of d x)"
  by (simp add: delete_conv')

lemma dget_update [dict_simps]:
  "dget (AList.update k v d) x w = (if x = k then v else dget d x w)"
  by (simp add: dget_def dict_simps)

lemma dget_delete [dict_simps]:
  "dget (AList.delete k d) x w = (if x = k then w else dget d x w)"
  by (simp add: dget_def dict_simps)

lemma ditem_update [dict_simps]:
  "ditem (AList.update k v d) x = (if x = k then Return v else ditem d x)"
  by (simp add: ditem_def dict_simps)

lemma wf_dict_Nil [simp]: "wf_dict []"
  by (simp add: wf_dict_def)

lemma wf_dict_update [intro]: "wf_dict d \<Longrightarrow> wf_dict (AList.update k v d)"
  by (simp add: wf_dict_def distinct_update)

lemma wf_dict_delete [intro]: "wf_dict d \<Longrightarrow> wf_dict (AList.delete k d)"
  by (simp add: wf_dict_def distinct_delete)

lemma ditem_Return_iff: "ditem d k = Return v \<longleftrightarrow> map_of d k = Some v"
  by (auto simp: ditem_def split: option.splits)

lemma dget_Some [simp]: "map_of d k = Some v \<Longrightarrow> dget d k w = v"
  by (simp add: dget_def)

lemma dget_None [simp]: "map_of d k = None \<Longrightarrow> dget d k w = w"
  by (simp add: dget_def)

end
