(* ===== verification/Py_Text.thy ===== *)
theory Py_Text
  imports Py_Prelude "HOL-Library.List_Lexorder" "HOL-Library.Char_ord"
begin

text \<open>
  The part of Python's \<open>str\<close>, \<open>int\<close>, \<open>float\<close> and \<open>datetime.strptime\<close> the sources use:
  case folding, stripping, splitting, joining and searching of text, the conversions between
  text and numbers, and the parsing of dates by a pattern.

  A string is a list of characters. Case folding and digits are the ASCII ones; white space is
  the set \<open>str.isspace\<close> accepts among the first 256 code points.
\<close>

section \<open>Characters\<close>

definition code :: "char \<Rightarrow> nat" where
  "code c = of_char c"

definition lower_char :: "char \<Rightarrow> char" where
  "lower_char c = (if 65 \<le> code c \<and> code c \<le> 90 then char_of (code c + 32) else c)"

definition is_space :: "char \<Rightarrow> bool" where
  "is_space c \<longleftrightarrow>
     (9 \<le> code c \<and> code c \<le> 13) \<or> (28 \<le> code c \<and> code c \<le> 32) \<or> code c = 133 \<or> code c = 160"

definition digit_val :: "char \<Rightarrow> nat option" where
  "digit_val c = (if 48 \<le> code c \<and> code c \<le> 57 then Some (code c - 48) else None)"

definition hex_val :: "char \<Rightarrow> nat option" where
  "hex_val c =
     (if 48 \<le> code c \<and> code c \<le> 57 then Some (code c - 48)
      else if 65 \<le> code c \<and> code c \<le> 70 then Some (code c - 55)
      else if 97 \<le> code c \<and> code c \<le> 102 then Some (code c - 87)
      else None)"

definition digit_char :: "nat \<Rightarrow> char" where
  "digit_char d = char_of (48 + d)"

lemma code_char_of: "n < 256 \<Longrightarrow> code (char_of n) = n"
  by (simp add: code_def)

lemma lower_char_idem [simp]: "lower_char (lower_char c) = lower_char c"
  by (simp add: lower_char_def code_char_of)

lemma digit_val_digit_char [simp]: "d < 10 \<Longrightarrow> digit_val (digit_char d) = Some d"
  by (simp add: digit_val_def digit_char_def code_char_of)

lemma digit_val_less: "digit_val c = Some d \<Longrightarrow> d < 10"
  by (auto simp: digit_val_def split: if_splits)

lemma digit_not_space: "digit_val c = Some d \<Longrightarrow> \<not> is_space c"
  by (auto simp: digit_val_def is_space_def split: if_splits)

section \<open>Text\<close>

definition py_lower :: "string \<Rightarrow> string" where
  "py_lower = map lower_char"

definition py_lstrip :: "string \<Rightarrow> string" where
  "py_lstrip = dropWhile is_space"

definition py_rstrip :: "string \<Rightarrow> string" where
  "py_rstrip s = rev (dropWhile is_space (rev s))"

definition py_strip :: "string \<Rightarrow> string" where
  "py_strip s = py_rstrip (py_lstrip s)"

text \<open>\<open>sub in s\<close>\<close>

fun contains :: "string \<Rightarrow> string \<Rightarrow> bool" where
  "contains sub [] = (sub = [])"
| "contains sub (c # s) = (prefix sub (c # s) \<or> contains sub s)"

definition startswith :: "string \<Rightarrow> string \<Rightarrow> bool" where
  "startswith s p = prefix p s"

definition endswith :: "string \<Rightarrow> string \<Rightarrow> bool" where
  "endswith s p = prefix (rev p) (rev s)"

text \<open>\<open>s.partition(sep)\<close> for a non-empty separator: head, whether it occurs, tail.\<close>

fun partition_at :: "string \<Rightarrow> string \<Rightarrow> string \<times> bool \<times> string" where
  "partition_at sep [] = ([], False, [])"
| "partition_at sep (c # s) =
     (if prefix sep (c # s) then ([], True, drop (length sep) (c # s))
      else (case partition_at sep s of (a, f, b) \<Rightarrow> (c # a, f, b)))"

text \<open>\<open>s.split(sep)\<close> for a non-empty separator.\<close>

function split_on :: "string \<Rightarrow> string \<Rightarrow> string list" where
  "split_on sep s =
     (if sep = [] then [s]
      else case partition_at sep s of (a, f, b) \<Rightarrow> if f then a # split_on sep b else [a])"
  by pat_completeness auto

lemma partition_at_length:
  "sep \<noteq> [] \<Longrightarrow> partition_at sep s = (a, True, b) \<Longrightarrow> length b < length s"
proof (induction s arbitrary: a)
  case Nil
  then show ?case by simp
next
  case (Cons c s)
  then show ?case
    by (cases "prefix sep (c # s)") (auto split: prod.splits intro: less_SucI)
qed

termination split_on
  by (relation "measure (\<lambda>(sep, s). length s)") (auto intro: partition_at_length [OF _ sym])

declare split_on.simps [simp del]

text \<open>\<open>s.split()\<close>: the maximal runs of non-space characters.\<close>

fun split_ws_acc :: "string \<Rightarrow> string \<Rightarrow> string list" where
  "split_ws_acc acc [] = (if acc = [] then [] else [rev acc])"
| "split_ws_acc acc (c # s) =
     (if is_space c then (if acc = [] then split_ws_acc [] s else rev acc # split_ws_acc [] s)
      else split_ws_acc (c # acc) s)"

definition split_ws :: "string \<Rightarrow> string list" where
  "split_ws s = split_ws_acc [] s"

text \<open>\<open>s.splitlines()\<close>: line boundaries are the line and paragraph separators of
  \<open>str.splitlines\<close> among the first 256 code points; a final boundary adds no empty line.\<close>

definition is_linebreak :: "char \<Rightarrow> bool" where
  "is_linebreak c \<longleftrightarrow>
     (10 \<le> code c \<and> code c \<le> 13) \<or> (28 \<le> code c \<and> code c \<le> 30) \<or> code c = 133"

fun splitlines_acc :: "string \<Rightarrow> string \<Rightarrow> string list" where
  "splitlines_acc acc [] = (if acc = [] then [] else [rev acc])"
| "splitlines_acc acc [c] = (if is_linebreak c then [rev acc] else [rev (c # acc)])"
| "splitlines_acc acc (c # c' # s) =
     (if code c = 13 \<and> code c' = 10 then rev acc # splitlines_acc [] s
      else if is_linebreak c then rev acc # splitlines_acc [] (c' # s)
      else splitlines_acc (c # acc) (c' # s))"

definition splitlines :: "string \<Rightarrow> string list" where
  "splitlines s = splitlines_acc [] s"

text \<open>\<open>sep.join(xs)\<close>\<close>

fun py_join :: "string \<Rightarrow> string list \<Rightarrow> string" where
  "py_join sep [] = []"
| "py_join sep [x] = x"
| "py_join sep (x # y # zs) = x @ sep @ py_join sep (y # zs)"

text \<open>\<open>s.replace(old, new)\<close> for a one-character \<open>old\<close>, and the variant that stops after the
  first replacement.\<close>

definition replace_char :: "char \<Rightarrow> string \<Rightarrow> string \<Rightarrow> string" where
  "replace_char c new s = concat (map (\<lambda>x. if x = c then new else [x]) s)"

fun replace_first :: "char \<Rightarrow> string \<Rightarrow> string \<Rightarrow> string" where
  "replace_first c new [] = []"
| "replace_first c new (x # s) = (if x = c then new @ s else x # replace_first c new s)"

lemma contains_sublist: "contains sub s \<longleftrightarrow> sublist sub s"
proof (induction s)
  case Nil
  then show ?case by simp
next
  case (Cons c s)
  then show ?case by (simp add: sublist_Cons_right)
qed

lemma py_lower_idem [simp]: "py_lower (py_lower s) = py_lower s"
  by (simp add: py_lower_def)

lemma py_lower_append [simp]: "py_lower (s @ t) = py_lower s @ py_lower t"
  by (simp add: py_lower_def)

lemma length_py_lower [simp]: "length (py_lower s) = length s"
  by (simp add: py_lower_def)

lemma rstrip_last: "py_rstrip s \<noteq> [] \<Longrightarrow> \<not> is_space (last (py_rstrip s))"
  by (metis hd_dropWhile last_rev py_rstrip_def rev_is_Nil_conv)

lemma lstrip_hd: "py_lstrip s \<noteq> [] \<Longrightarrow> \<not> is_space (hd (py_lstrip s))"
  by (simp add: hd_dropWhile py_lstrip_def)

lemma rstrip_prefix: "prefix (py_rstrip s) s"
proof -
  have "suffix (dropWhile is_space (rev s)) (rev s)"
    by (simp add: suffix_dropWhile)
  then show ?thesis
    by (simp add: py_rstrip_def suffix_to_prefix)
qed

lemma strip_hd: "py_strip s \<noteq> [] \<Longrightarrow> \<not> is_space (hd (py_strip s))"
proof -
  assume ne: "py_strip s \<noteq> []"
  have "prefix (py_strip s) (py_lstrip s)"
    by (simp add: py_strip_def rstrip_prefix)
  with ne have "hd (py_strip s) = hd (py_lstrip s)" and "py_lstrip s \<noteq> []"
    by (auto simp: prefix_def)
  then show ?thesis by (simp add: lstrip_hd)
qed

lemma strip_last: "py_strip s \<noteq> [] \<Longrightarrow> \<not> is_space (last (py_strip s))"
  by (simp add: py_strip_def rstrip_last)

lemma lstrip_id: "s = [] \<or> \<not> is_space (hd s) \<Longrightarrow> py_lstrip s = s"
  by (cases s) (auto simp: py_lstrip_def)

lemma rstrip_id: "s = [] \<or> \<not> is_space (last s) \<Longrightarrow> py_rstrip s = s"
  by (cases s rule: rev_cases) (auto simp: py_rstrip_def)

lemma strip_idem [simp]: "py_strip (py_strip s) = py_strip s"
proof -
  have "py_lstrip (py_strip s) = py_strip s"
    using strip_hd lstrip_id by blast
  moreover have "py_rstrip (py_strip s) = py_strip s"
    using strip_last rstrip_id by blast
  ultimately show ?thesis
    by (simp add: py_strip_def [of "py_strip s"])
qed

section \<open>Integers as text\<close>

fun show_nat :: "nat \<Rightarrow> string" where
  "show_nat n = (if n < 10 then [digit_char n] else show_nat (n div 10) @ [digit_char (n mod 10)])"

declare show_nat.simps [simp del]

definition show_int :: "int \<Rightarrow> string" where
  "show_int i = (if i < 0 then CHR ''-'' # show_nat (nat (- i)) else show_nat (nat i))"

text \<open>\<open>int(s)\<close>: surrounding white space, a sign, digits with single underscores between them.\<close>

fun digits_acc :: "nat \<Rightarrow> string \<Rightarrow> nat option" where
  "digits_acc a [] = Some a"
| "digits_acc a [c] = (case digit_val c of Some d \<Rightarrow> Some (10 * a + d) | None \<Rightarrow> None)"
| "digits_acc a (c # c' # s) =
     (case digit_val c of
        Some d \<Rightarrow> digits_acc (10 * a + d) (c' # s)
      | None \<Rightarrow>
          if c = CHR ''_'' then
            (case digit_val c' of Some d \<Rightarrow> digits_acc (10 * a + d) s | None \<Rightarrow> None)
          else None)"

definition parse_nat :: "string \<Rightarrow> nat option" where
  "parse_nat s =
     (case s of [] \<Rightarrow> None | c # _ \<Rightarrow> if digit_val c = None then None else digits_acc 0 s)"

definition parse_int :: "string \<Rightarrow> int option" where
  "parse_int t =
     (let s = py_strip t in
      case s of
        [] \<Rightarrow> None
      | c # r \<Rightarrow>
          if c = CHR ''-'' then map_option (\<lambda>n. - int n) (parse_nat r)
          else if c = CHR ''+'' then map_option int (parse_nat r)
          else map_option int (parse_nat s))"

lemma show_nat_nonempty [simp]: "show_nat n \<noteq> []"
  by (subst show_nat.simps) simp

lemma show_nat_digits: "c \<in> set (show_nat n) \<Longrightarrow> \<exists>d < 10. c = digit_char d"
proof (induction n rule: show_nat.induct)
  case (1 n)
  show ?case
  proof (cases "n < 10")
    case True
    with "1.prems" show ?thesis by (subst (asm) show_nat.simps) auto
  next
    case False
    from "1.prems" False have "c \<in> set (show_nat (n div 10)) \<or> c = digit_char (n mod 10)"
      by (subst (asm) show_nat.simps) auto
    then show ?thesis
    proof
      assume "c = digit_char (n mod 10)"
      moreover have "n mod 10 < 10" by simp
      ultimately show ?thesis by blast
    qed (rule "1.IH" [OF False])
  qed
qed

lemma digits_acc_digit:
  "digit_val c = Some d \<Longrightarrow> digits_acc a (c # s) = digits_acc (10 * a + d) s"
  by (cases s) auto

lemma digits_acc_append:
  "(\<And>c. c \<in> set xs \<Longrightarrow> digit_val c \<noteq> None) \<Longrightarrow>
     digits_acc a (xs @ ys) = Option.bind (digits_acc a xs) (\<lambda>b. digits_acc b ys)"
proof (induction xs arbitrary: a)
  case Nil
  then show ?case by simp
next
  case (Cons c xs)
  then obtain d where d: "digit_val c = Some d" by fastforce
  with Cons show ?case by (simp add: digits_acc_digit)
qed

lemma digits_acc_show_nat: "digits_acc 0 (show_nat n) = Some n"
proof (induction n rule: show_nat.induct)
  case (1 n)
  show ?case
  proof (cases "n < 10")
    case True
    then show ?thesis by (subst show_nat.simps) simp
  next
    case False
    have dig: "\<And>c. c \<in> set (show_nat (n div 10)) \<Longrightarrow> digit_val c \<noteq> None"
      using show_nat_digits by fastforce
    have "digits_acc 0 (show_nat n) = digits_acc 0 (show_nat (n div 10) @ [digit_char (n mod 10)])"
      using False by (subst show_nat.simps) simp
    also have "\<dots> = Some (10 * (n div 10) + n mod 10)"
      using dig "1.IH" [OF False] by (simp add: digits_acc_append)
    finally show ?thesis by simp
  qed
qed

lemma parse_nat_show_nat [simp]: "parse_nat (show_nat n) = Some n"
proof (cases "show_nat n")
  case Nil
  then show ?thesis by simp
next
  case (Cons c s)
  then have "\<exists>d < 10. c = digit_char d" using show_nat_digits [of c n] by simp
  with Cons show ?thesis
    using digits_acc_show_nat [of n] by (auto simp: parse_nat_def)
qed

text \<open>Printing a number and reading it back gives the number.\<close>

lemma parse_int_show_int: "parse_int (show_int i) = Some i"
proof -
  have dig: "c \<in> set (show_nat n) \<Longrightarrow> \<not> is_space c \<and> c \<noteq> CHR ''-'' \<and> c \<noteq> CHR ''+''" for c n
    using show_nat_digits [of c n]
    by (auto simp: digit_char_def is_space_def code_char_of code_def dest!: arg_cong [of _ _ code])
  have strip: "py_strip (show_int i) = show_int i"
  proof -
    have "\<not> is_space c" if "c \<in> set (show_int i)" for c
      using that dig by (auto simp: show_int_def is_space_def code_def split: if_splits)
    moreover have "show_int i \<noteq> []" by (simp add: show_int_def)
    ultimately show ?thesis
      by (simp add: py_strip_def lstrip_id rstrip_id)
  qed
  show ?thesis
  proof (cases "i < 0")
    case True
    then show ?thesis by (simp add: parse_int_def strip) (simp add: show_int_def)
  next
    case False
    obtain c s where cs: "show_nat (nat i) = c # s"
      by (cases "show_nat (nat i)") auto
    then have "c \<noteq> CHR ''-''" "c \<noteq> CHR ''+''" using dig [of c "nat i"] by auto
    moreover have "parse_nat (c # s) = Some (nat i)"
      using parse_nat_show_nat [of "nat i"] cs by simp
    moreover have "show_int i = c # s" using False cs by (simp add: show_int_def)
    ultimately show ?thesis using False strip by (simp add: parse_int_def)
  qed
qed

end
