(* ===== verification/Py_Convert.thy ===== *)
theory Py_Convert
  imports Py_Text
begin

text \<open>
  The conversions between Python values: \<open>int(x)\<close>, \<open>float(x)\<close>, \<open>str(x)\<close>, \<open>repr(x)\<close> and
  \<open>datetime.strptime(s, pattern).date()\<close>, each on every kind of value, with the exception
  Python raises where the conversion fails.

  The text of a finite float is its decimal expansion (at most 17 digits after the point, no
  exponent notation).
\<close>

section \<open>Numbers\<close>

text \<open>\<open>int\<close> of a finite float drops the fraction.\<close>

definition trunc_rat :: "rat \<Rightarrow> int" where
  "trunc_rat r = (if r < 0 then - \<lfloor>- r\<rfloor> else \<lfloor>r\<rfloor>)"

text \<open>The least magnitude that rounds to infinity in double precision.\<close>

definition float_limit :: rat where
  "float_limit = 2 ^ 1024 - 2 ^ 970"

definition pow10 :: "int \<Rightarrow> rat" where
  "pow10 e = (if e < 0 then 1 / 10 ^ nat (- e) else 10 ^ nat e)"

definition parse_signed :: "string \<Rightarrow> int option" where
  "parse_signed s =
     (case s of
        [] \<Rightarrow> None
      | c # r \<Rightarrow>
          if c = CHR ''-'' then map_option (\<lambda>n. - int n) (parse_nat r)
          else if c = CHR ''+'' then map_option int (parse_nat r)
          else map_option int (parse_nat s))"

definition parse_mantissa :: "string \<Rightarrow> rat option" where
  "parse_mantissa m =
     (case partition_at ''.'' m of (ip, dot, fp) \<Rightarrow>
        if ip = [] \<and> fp = [] then None
        else
          (case (if ip = [] then Some 0 else parse_nat ip, if fp = [] then Some 0 else parse_nat fp) of
             (Some i, Some f) \<Rightarrow>
               Some (of_nat i + of_nat f / 10 ^ length (filter (\<lambda>c. digit_val c \<noteq> None) fp))
           | _ \<Rightarrow> None))"

definition parse_decimal :: "string \<Rightarrow> rat option" where
  "parse_decimal s =
     (case partition_at ''e'' s of (m, has_exp, ex) \<Rightarrow>
        (case (parse_mantissa m, if has_exp then parse_signed ex else Some 0) of
           (Some r, Some e) \<Rightarrow> Some (r * pow10 e)
         | _ \<Rightarrow> None))"

definition clip_float :: "rat \<Rightarrow> pyfloat" where
  "clip_float r = (if r \<ge> float_limit then PosInf else if - r \<ge> float_limit then NegInf else Fin r)"

definition parse_float :: "string \<Rightarrow> pyfloat option" where
  "parse_float t =
     (let s = py_lower (py_strip t);
          neg = (s \<noteq> [] \<and> hd s = CHR ''-'');
          r = (if s \<noteq> [] \<and> (hd s = CHR ''-'' \<or> hd s = CHR ''+'') then tl s else s)
      in if r = ''inf'' \<or> r = ''infinity'' then Some (if neg then NegInf else PosInf)
         else if r = ''nan'' then Some NaN
         else map_option (\<lambda>v. clip_float (if neg then - v else v)) (parse_decimal r))"

fun py_int :: "pyval \<Rightarrow> int res" where
  "py_int (PInt i) = Return i"
| "py_int (PBool b) = Return (if b then 1 else 0)"
| "py_int (PFloat (Fin r)) = Return (trunc_rat r)"
| "py_int (PFloat NaN) = Raise ValueError"
| "py_int (PFloat _) = Raise OverflowError"
| "py_int (PStr s) = (case parse_int s of Some i \<Rightarrow> Return i | None \<Rightarrow> Raise ValueError)"
| "py_int _ = Raise TypeError"

fun py_float :: "pyval \<Rightarrow> pyfloat res" where
  "py_float (PFloat f) = Return f"
| "py_float (PBool b) = Return (Fin (if b then 1 else 0))"
| "py_float (PInt i) =
     (if of_int \<bar>i\<bar> \<ge> float_limit then Raise OverflowError else Return (Fin (of_int i)))"
| "py_float (PStr s) = (case parse_float s of Some f \<Rightarrow> Return f | None \<Rightarrow> Raise ValueError)"
| "py_float _ = Raise TypeError"

section \<open>Text of a value\<close>

fun frac_digits :: "nat \<Rightarrow> rat \<Rightarrow> string" where
  "frac_digits 0 r = []"
| "frac_digits (Suc k) r =
     (if r = 0 then []
      else let d = \<lfloor>10 * r\<rfloor> in digit_char (nat d) # frac_digits k (10 * r - of_int d))"

fun float_repr :: "pyfloat \<Rightarrow> string" where
  "float_repr PosInf = ''inf''"
| "float_repr NegInf = ''-inf''"
| "float_repr NaN = ''nan''"
| "float_repr (Fin r) =
     (let a = \<bar>r\<bar>; i = \<lfloor>a\<rfloor>; f = frac_digits 17 (a - of_int i)
      in (if r < 0 then ''-'' else []) @ show_nat (nat i) @ ''.'' @ (if f = [] then ''0'' else f))"

definition hex_digit :: "nat \<Rightarrow> char" where
  "hex_digit d = (if d < 10 then digit_char d else char_of (87 + d))"

definition repr_char :: "char \<Rightarrow> char \<Rightarrow> string" where
  "repr_char q c =
     (if code c = 92 \<or> c = q then [char_of (92::nat), c]
      else if code c = 10 then [char_of (92::nat), CHR ''n'']
      else if code c = 13 then [char_of (92::nat), CHR ''r'']
      else if code c = 9 then [char_of (92::nat), CHR ''t'']
      else if code c < 32 \<or> (127 \<le> code c \<and> code c \<le> 160) \<or> code c = 173
        then [char_of (92::nat), CHR ''x'', hex_digit (code c div 16), hex_digit (code c mod 16)]
      else [c])"

definition repr_str :: "string \<Rightarrow> string" where
  "repr_str s =
     (let sq = char_of (39::nat); dq = char_of (34::nat);
          q = (if sq \<in> set s \<and> dq \<notin> set s then dq else sq)
      in [q] @ concat (map (repr_char q) s) @ [q])"

definition pad :: "nat \<Rightarrow> nat \<Rightarrow> string" where
  "pad w n = replicate (w - length (show_nat n)) (CHR ''0'') @ show_nat n"

definition iso_date :: "nat \<Rightarrow> nat \<Rightarrow> nat \<Rightarrow> string" where
  "iso_date y m d = pad 4 y @ ''-'' @ pad 2 m @ ''-'' @ pad 2 d"

fun py_repr :: "pyval \<Rightarrow> string" where
  "py_repr PNone = ''None''"
| "py_repr (PBool b) = (if b then ''True'' else ''False'')"
| "py_repr (PInt i) = show_int i"
| "py_repr (PFloat f) = float_repr f"
| "py_repr (PStr s) = repr_str s"
| "py_repr (PDate y m d) =
     ''datetime.date('' @ py_join '', '' [show_nat y, show_nat m, show_nat d] @ '')''"
| "py_repr (PDateTime y m d h mi s) =
     ''datetime.datetime('' @
     py_join '', '' ([show_nat y, show_nat m, show_nat d, show_nat h, show_nat mi]
       @ (if s = 0 then [] else [show_nat s])) @ '')''"
| "py_repr (PList xs) = ''['' @ py_join '', '' (map py_repr xs) @ '']''"
| "py_repr (PDict d) =
     ''{'' @ py_join '', '' (map (\<lambda>(k, v). repr_str k @ '': '' @ py_repr v) d) @ ''}''"

fun py_str :: "pyval \<Rightarrow> string" where
  "py_str (PStr s) = s"
| "py_str (PDate y m d) = iso_date y m d"
| "py_str (PDateTime y m d h mi s) =
     iso_date y m d @ '' '' @ pad 2 h @ '':'' @ pad 2 mi @ '':'' @ pad 2 s"
| "py_str v = py_repr v"

section \<open>Dates\<close>

definition is_leap :: "nat \<Rightarrow> bool" where
  "is_leap y \<longleftrightarrow> 4 dvd y \<and> (\<not> 100 dvd y \<or> 400 dvd y)"

definition days_in_month :: "nat \<Rightarrow> nat \<Rightarrow> nat" where
  "days_in_month y m =
     (if m = 2 then (if is_leap y then 29 else 28)
      else if m \<in> {4, 6, 9, 11} then 30 else 31)"

definition valid_date :: "nat \<Rightarrow> nat \<Rightarrow> nat \<Rightarrow> bool" where
  "valid_date y m d \<longleftrightarrow>
     1 \<le> y \<and> y \<le> 9999 \<and> 1 \<le> m \<and> m \<le> 12 \<and> 1 \<le> d \<and> d \<le> days_in_month y m"

text \<open>
  \<open>strptime\<close> turns the pattern into a regular expression: a directive into the alternatives
  below, a run of white space into one or more white space characters, any other character
  into itself with the case ignored. The first match in the order of the alternatives is
  taken and has to reach the end of the text. A character class is a list of code ranges, an
  alternative a list of classes.
\<close>

datatype tok = Dir char | Ws | Lit char

fun fmt_toks :: "string \<Rightarrow> tok list" where
  "fmt_toks [] = []"
| "fmt_toks [c] = (if is_space c then [Ws] else [Lit c])"
| "fmt_toks (c # c' # s) =
     (if c = CHR ''%'' then Dir c' # fmt_toks s
      else if is_space c then (if is_space c' then fmt_toks (c' # s) else Ws # fmt_toks (c' # s))
      else Lit c # fmt_toks (c' # s))"

type_synonym cls = "(nat \<times> nat) list"

definition in_cls :: "cls \<Rightarrow> char \<Rightarrow> bool" where
  "in_cls k c = list_ex (\<lambda>(a, b). a \<le> code c \<and> code c \<le> b) k"

abbreviation cls_digit :: cls where "cls_digit \<equiv> [(48, 57)]"
abbreviation cls_0_5 :: cls where "cls_0_5 \<equiv> [(48, 53)]"
abbreviation cls_1_9 :: cls where "cls_1_9 \<equiv> [(49, 57)]"
abbreviation cls_colon :: cls where "cls_colon \<equiv> [(58, 58)]"

definition zone_alts :: "cls list list" where
  "zone_alts =
     concat (map (\<lambda>c1.
       (let base = [[(43, 43), (45, 45)], cls_digit, cls_digit] @ c1 @ [cls_0_5, cls_digit]
        in concat (map (\<lambda>c2.
             map (\<lambda>n. base @ c2 @ [cls_0_5, cls_digit, [(46, 46)]] @ replicate n cls_digit)
               [6, 5, 4, 3, 2, 1]
             @ [base @ c2 @ [cls_0_5, cls_digit]]) [[cls_colon], []])
           @ [base])) [[cls_colon], []])
     @ [[[(90, 90)]]]"

definition dir_alts :: "char \<Rightarrow> cls list list" where
  "dir_alts c =
     (if c = CHR ''Y'' then [[cls_digit, cls_digit, cls_digit, cls_digit]]
      else if c = CHR ''m'' then [[[(49, 49)], [(48, 50)]], [[(48, 48)], cls_1_9], [cls_1_9]]
      else if c = CHR ''d'' then
        [[[(51, 51)], [(48, 49)]], [[(49, 50)], cls_digit], [[(48, 48)], cls_1_9], [cls_1_9],
         [[(32, 32)], cls_1_9]]
      else if c = CHR ''H'' then [[[(50, 50)], [(48, 51)]], [[(48, 49)], cls_digit], [cls_digit]]
      else if c = CHR ''M'' then [[cls_0_5, cls_digit], [cls_digit]]
      else if c = CHR ''S'' then [[[(54, 54)], [(48, 49)]], [cls_0_5, cls_digit], [cls_digit]]
      else if c = CHR ''z'' then zone_alts
      else [])"

definition match_alt :: "cls list \<Rightarrow> string \<Rightarrow> bool" where
  "match_alt ks s = (length ks \<le> length s \<and> list_all2 in_cls ks (take (length ks) s))"

text \<open>The ways a token can match at the start of a text, first choice first: the matched text
  and the rest.\<close>

fun tok_matches :: "tok \<Rightarrow> string \<Rightarrow> (string \<times> string) list" where
  "tok_matches (Dir c) s =
     map (\<lambda>ks. (take (length ks) s, drop (length ks) s)) (filter (\<lambda>ks. match_alt ks s) (dir_alts c))"
| "tok_matches Ws s =
     (let n = length (takeWhile is_space s) in map (\<lambda>k. (take k s, drop k s)) (rev [1..<Suc n]))"
| "tok_matches (Lit c) s =
     (case s of
        [] \<Rightarrow> []
      | x # r \<Rightarrow> if lower_char x = lower_char c then [([x], r)] else [])"

text \<open>The first match of a token list: the texts of its directives and the rest.\<close>

fun match_toks :: "tok list \<Rightarrow> string \<Rightarrow> ((char \<times> string) list \<times> string) option"
and match_first :: "tok \<Rightarrow> tok list \<Rightarrow> (string \<times> string) list \<Rightarrow> ((char \<times> string) list \<times> string) option"
where
  "match_toks [] s = Some ([], s)"
| "match_toks (t # ts) s = match_first t ts (tok_matches t s)"
| "match_first t ts [] = None"
| "match_first t ts ((m, r) # ms) =
     (case match_toks ts r of
        Some (ds, rest) \<Rightarrow> Some (case t of Dir c \<Rightarrow> (c, m) # ds | _ \<Rightarrow> ds, rest)
      | None \<Rightarrow> match_first t ts ms)"

definition dir_num :: "(char \<times> string) list \<Rightarrow> char \<Rightarrow> nat" where
  "dir_num ds c =
     (case map_of ds c of
        Some m \<Rightarrow> (case parse_nat (py_strip m) of Some n \<Rightarrow> n | None \<Rightarrow> 0)
      | None \<Rightarrow> 0)"

text \<open>\<open>datetime.strptime(s, pattern).date()\<close> for a pattern with year, month and day; \<open>None\<close>
  where it raises \<open>ValueError\<close>.\<close>

definition strptime_date :: "string \<Rightarrow> string \<Rightarrow> pyval option" where
  "strptime_date s pattern =
     (case match_toks (fmt_toks pattern) s of
        Some (ds, []) \<Rightarrow>
          (let y = dir_num ds CHR ''Y''; m = dir_num ds CHR ''m''; d = dir_num ds CHR ''d''
           in if valid_date y m d \<and> dir_num ds CHR ''S'' < 60 then Some (PDate y m d) else None)
      | _ \<Rightarrow> None)"

lemma strptime_date_valid:
  "strptime_date s p = Some v \<Longrightarrow> \<exists>y m d. v = PDate y m d \<and> valid_date y m d"
  by (auto simp: strptime_date_def Let_def split: option.splits prod.splits list.splits if_splits)

end
