(* ===== verification/Report_Rows.thy ===== *)
theory Report_Rows
  imports Py_Prelude
begin

text \<open>
  The rows of the tables a report is computed into: \<open>SystemFingerprint\<close>, \<open>Product\<close>, \<open>Entitlement\<close>
  and \<open>DeploymentsReport\<close> of \<open>api/deployments_report/model.py\<close> and \<open>AggregateReport\<close> of
  \<open>api/aggregate_report/model.py\<close>. A column that may be NULL is an option, a JSON column is a
  \<open>pyval\<close>, and a date is its ordinal. Rows that point to another row are held by it: the
  products and entitlements by their fingerprint, the fingerprints by their deployments report.
  The path of a cached file together with the file is the content, if both exist.
\<close>

section \<open>Fingerprints\<close>

record product =
  pr_name :: string
  pr_version :: pyval
  pr_presence :: string
  pr_metadata :: pyval

record entitlement =
  en_name :: "string option"
  en_entitlement_id :: "string option"
  en_metadata :: pyval

record system_fingerprint =
  sf_id :: nat
  sf_name :: "string option"
  sf_os_name :: "string option"
  sf_os_release :: "string option"
  sf_os_version :: "string option"
  sf_infrastructure_type :: string
  sf_cloud_provider :: "string option"
  sf_mac_addresses :: pyval
  sf_ip_addresses :: pyval
  sf_cpu_count :: "nat option"
  sf_architecture :: "string option"
  sf_system_memory_bytes :: "nat option"
  sf_bios_uuid :: "string option"
  sf_subscription_manager_id :: "string option"
  sf_cpu_socket_count :: "nat option"
  sf_cpu_core_count :: "pyfloat option"
  sf_cpu_core_per_socket :: "nat option"
  sf_cpu_hyperthreading :: "bool option"
  sf_installed_products :: pyval
  sf_system_creation_date :: "nat option"
  sf_system_last_checkin_date :: "nat option"
  sf_system_purpose :: "string option"
  sf_system_role :: "string option"
  sf_system_addons :: "string option"
  sf_system_service_level_agreement :: "string option"
  sf_system_usage_type :: "string option"
  sf_insights_client_id :: "string option"
  sf_virtualized_type :: "string option"
  sf_virtual_host_name :: "string option"
  sf_virtual_host_uuid :: "string option"
  sf_system_user_count :: "nat option"
  sf_vm_state :: "string option"
  sf_vm_uuid :: "string option"
  sf_vm_dns_name :: "string option"
  sf_vm_host_socket_count :: "nat option"
  sf_vm_host_core_count :: "nat option"
  sf_vm_cluster :: "string option"
  sf_vm_datacenter :: "string option"
  sf_is_redhat :: "bool option"
  sf_redhat_certs :: "string option"
  sf_redhat_package_count :: "nat option"
  sf_metadata :: pyval
  sf_sources :: pyval
  sf_etc_machine_id :: "string option"
  sf_products :: "product list"
  sf_entitlements :: "entitlement list"

section \<open>Reports\<close>

datatype deployment_status = STATUS_PENDING | STATUS_FAILED | STATUS_COMPLETE

record deployments_report =
  dr_id :: nat
  dr_status :: deployment_status
  dr_system_fingerprints :: "system_fingerprint list"
  dr_cached_fingerprints :: "pydict list option"
  dr_cached_csv :: "string option"

record aggregate_report =
  ar_id :: nat
  ar_report :: nat
  ansible_hosts_all :: nat
  ansible_hosts_in_database :: nat
  ansible_hosts_in_jobs :: nat
  inspect_result_status_failed :: nat
  inspect_result_status_success :: nat
  inspect_result_status_unknown :: nat
  inspect_result_status_unreachable :: nat
  instances_hypervisor :: nat
  instances_not_redhat :: nat
  instances_physical :: nat
  instances_unknown :: nat
  instances_virtual :: nat
  jboss_eap_cores_physical :: pyfloat
  jboss_eap_cores_virtual :: pyfloat
  jboss_eap_instances :: nat
  jboss_ws_cores_physical :: pyfloat
  jboss_ws_cores_virtual :: pyfloat
  jboss_ws_instances :: nat
  missing_cpu_core_count :: nat
  missing_cpu_socket_count :: nat
  missing_name :: nat
  missing_pem_files :: nat
  missing_system_creation_date :: nat
  missing_system_purpose :: nat
  openshift_cores :: nat
  openshift_operators_by_name :: "(pyval \<times> nat) list"
  openshift_operators_by_kind :: "(pyval \<times> nat) list"
  os_by_name_and_version :: "(string \<times> (string \<times> nat) list) list"
  socket_pairs :: nat
  system_creation_date_average :: "nat option"
  vmware_hosts :: nat
  vmware_vm_to_host_ratio :: rat
  vmware_vms :: nat
  openshift_cluster_instances :: nat
  openshift_node_instances :: nat

end
