(* ===== verification/Scan_Store.thy ===== *)
theory Scan_Store
  imports Py_Convert Report_Rows
begin

text \<open>
  The rows the scan life cycle reads and writes: scans, sources, scan jobs, scan tasks,
  connection results, inspect groups and results, reports and deployments reports
  (\<open>api/scan/model.py\<close>, \<open>api/source/model.py\<close>, \<open>api/scanjob/model.py\<close>,
  \<open>api/scantask/model.py\<close>, \<open>api/connresult/model.py\<close>, \<open>api/inspectresult/model.py\<close>,
  \<open>api/report/model.py\<close>, \<open>api/deployments_report/model.py\<close>).

  A table is a list of records in creation order; \<open>row_save\<close> is \<open>instance.save()\<close> (the whole
  row is written, inserted when its primary key is not there), \<open>row_get\<close> is
  \<open>objects.filter(id=..).first()\<close>. An instance in memory is a record value of its own: it keeps
  the columns it was loaded with until it is refreshed or saved. A foreign key is the primary
  key of the row it points to, a many-to-many relation a list of keys. Primary keys of all
  tables are drawn from one counter.
\<close>

section \<open>Tables\<close>

definition row_get :: "('r \<Rightarrow> nat) \<Rightarrow> nat \<Rightarrow> 'r list \<Rightarrow> 'r option" where
  "row_get key i rows = find (\<lambda>r. key r = i) rows"

definition row_save :: "('r \<Rightarrow> nat) \<Rightarrow> 'r \<Rightarrow> 'r list \<Rightarrow> 'r list" where
  "row_save key r rows =
     (if key r \<in> set (map key rows) then map (\<lambda>x. if key x = key r then r else x) rows
      else rows @ [r])"

definition rows_ok :: "('r \<Rightarrow> nat) \<Rightarrow> 'r list \<Rightarrow> bool" where
  "rows_ok key rows \<longleftrightarrow> distinct (map key rows)"

text \<open>The contract of a table towards the code that loads and saves instances.\<close>

locale table =
  fixes key :: "'r \<Rightarrow> nat"
    and get :: "nat \<Rightarrow> 't \<Rightarrow> 'r option"
    and save :: "'r \<Rightarrow> 't \<Rightarrow> 't"
    and ok :: "'t \<Rightarrow> bool"
  assumes get_save: "ok t \<Longrightarrow> get i (save r t) = (if i = key r then Some r else get i t)"
    and save_ok: "ok t \<Longrightarrow> ok (save r t)"
    and get_key: "get i t = Some r \<Longrightarrow> key r = i"
begin

text \<open>A later save of the same row hides an earlier one, and saves of different rows commute.\<close>

lemma save_overwrites:
  "ok t \<Longrightarrow> key r = key r' \<Longrightarrow> get i (save r' (save r t)) = get i (save r' t)"
  by (simp add: get_save save_ok)

lemma save_commutes:
  "ok t \<Longrightarrow> key r \<noteq> key r' \<Longrightarrow> get i (save r' (save r t)) = get i (save r (save r' t))"
  by (simp add: get_save save_ok)

lemma lost_update:
  "ok t \<Longrightarrow> get i t = Some stale \<Longrightarrow> key r = i \<Longrightarrow> get i (save stale (save r t)) = Some stale"
  by (simp add: get_save save_ok get_key)

end

lemma row_get_Some_iff:
  "rows_ok key rows \<Longrightarrow> row_get key i rows = Some r \<longleftrightarrow> r \<in> set rows \<and> key r = i"
proof (induction rows)
  case Nil
  then show ?case by (simp add: row_get_def)
next
  case (Cons x rows)
  then show ?case by (auto simp: row_get_def rows_ok_def)
qed

lemma keys_row_save:
  "map key (row_save key r rows) =
     (if key r \<in> set (map key rows) then map key rows else map key rows @ [key r])"
  by (auto simp: row_save_def)

lemma rows_ok_save [intro]: "rows_ok key rows \<Longrightarrow> rows_ok key (row_save key r rows)"
  unfolding rows_ok_def by (simp only: keys_row_save) auto

lemma row_get_save:
  "row_get key i (row_save key r rows) = (if i = key r then Some r else row_get key i rows)"
proof -
  have upd: "find (\<lambda>x. key x = i) (map (\<lambda>x. if key x = key r then r else x) rows) =
    (if i = key r then (if key r \<in> set (map key rows) then Some r else None)
     else find (\<lambda>x. key x = i) rows)"
    by (induction rows) auto
  have app: "find (\<lambda>x. key x = i) (rows @ [r]) =
    (if i = key r then Some r else find (\<lambda>x. key x = i) rows)" if "key r \<notin> set (map key rows)"
    using that by (induction rows) auto
  show ?thesis
  proof (cases "key r \<in> set (map key rows)")
    case True
    then show ?thesis by (simp only: row_get_def row_save_def upd if_True)
  next
    case False
    then show ?thesis
      using app [OF False] by (simp only: row_get_def row_save_def if_False)
  qed
qed

lemma row_get_key: "row_get key i rows = Some r \<Longrightarrow> key r = i"
  by (auto simp: row_get_def find_Some_iff)

lemma set_row_save:
  "rows_ok key rows \<Longrightarrow>
     set (row_save key r rows) = insert r {x \<in> set rows. key x \<noteq> key r}"
  by (cases "key r \<in> set (map key rows)") (auto simp: row_save_def image_iff Ball_def eq_commute)

lemma filter_row_save_same:
  "P r = P r0 \<Longrightarrow> row_get key (key r) rows = Some r0 \<Longrightarrow> rows_ok key rows \<Longrightarrow>
     map key (filter P (row_save key r rows)) = map key (filter P rows)"
proof -
  assume P: "P r = P r0" and g: "row_get key (key r) rows = Some r0" and ok: "rows_ok key rows"
  have mem: "key r \<in> set (map key rows)"
    using g ok by (metis image_eqI image_set row_get_Some_iff)
  have r0: "x = r0" if "x \<in> set rows" "key x = key r" for x
    using that g ok row_get_Some_iff [of key rows "key r" x] by simp
  have "map key (filter P (map (\<lambda>x. if key x = key r then r else x) ys)) = map key (filter P ys)"
    if "set ys \<subseteq> set rows" for ys
    using that by (induction ys) (auto simp: P dest: r0)
  with mem show ?thesis by (simp add: row_save_def)
qed

section \<open>Rows\<close>

datatype scan_type = SCAN_TYPE_INSPECT | SCAN_TYPE_FINGERPRINT

datatype status = CREATED | PENDING | RUNNING | PAUSED | CANCELED | COMPLETED | FAILED

text \<open>The statuses no transition of a job leaves.\<close>

definition terminal :: "status \<Rightarrow> bool" where
  "terminal s \<longleftrightarrow> s \<in> {CANCELED, COMPLETED, FAILED}"

lemma terminal_simps [simp]:
  "terminal CANCELED" "terminal COMPLETED" "terminal FAILED"
  "\<not> terminal CREATED" "\<not> terminal PENDING" "\<not> terminal RUNNING" "\<not> terminal PAUSED"
  by (simp_all add: terminal_def)

record scantask =
  st_id :: nat
  st_scan_type :: scan_type
  st_status :: status
  st_status_message :: "string option"
  st_prerequisites :: "nat list"
  st_job :: nat
  st_systems_count :: nat
  st_systems_scanned :: nat
  st_systems_failed :: nat
  st_systems_unreachable :: nat
  st_sequence_number :: nat
  st_start_time :: "nat option"
  st_end_time :: "nat option"
  st_source :: "nat option"
  st_connection_result :: "nat option"

record scanjob =
  sj_id :: nat
  sj_scan_type :: scan_type
  sj_status :: status
  sj_status_message :: "string option"
  sj_start_time :: "nat option"
  sj_end_time :: "nat option"
  sj_scan :: "nat option"
  sj_connection_results :: "nat option"
  sj_report :: "nat option"

record scan =
  sc_id :: nat
  sc_scan_type :: scan_type
  sc_sources :: "nat list"
  sc_most_recent_scanjob :: "nat option"

record source =
  so_id :: nat
  so_name :: string
  so_source_type :: string
  so_port :: "nat option"
  so_credentials :: "nat list"
  so_hosts :: "string list"
  so_exclude_hosts :: "string list"
  so_most_recent_connect_scan :: "nat option"

record task_connection_result =
  tcr_id :: nat
  tcr_job_connection_result :: nat

datatype conn_status = SUCCESS | CONN_FAILED | UNREACHABLE

record system_connection_result =
  scr_name :: string
  scr_credential :: "nat option"
  scr_source :: "nat option"
  scr_status :: conn_status
  scr_task_connection_result :: nat

record inspect_group =
  ig_id :: nat
  ig_source_type :: string
  ig_source_name :: string
  ig_server_id :: string
  ig_server_version :: string
  ig_tasks :: "nat list"

text \<open>The raw facts of a result are its rows of the table \<open>RawFact\<close>, in creation order.
  Imported results have no status.\<close>

record inspect_result =
  ir_id :: nat
  ir_name :: string
  ir_status :: "conn_status option"
  ir_inspect_group :: nat
  ir_facts :: "(string \<times> pyval) list"

datatype report_origin = LOCAL | UPLOADED | MERGED

record report =
  re_id :: nat
  re_origin :: report_origin
  re_inspect_groups :: "nat list"
  re_deployment_report :: "nat option"

record db =
  scans :: "scan list"
  sources :: "source list"
  scanjobs :: "scanjob list"
  job_sources :: "(nat \<times> nat) list"
  scantasks :: "scantask list"
  job_connection_results :: "nat list"
  task_connection_results :: "task_connection_result list"
  system_connection_results :: "system_connection_result list"
  inspect_groups :: "inspect_group list"
  inspect_results :: "inspect_result list"
  reports :: "report list"
  deployments_reports :: "deployments_report list"
  aggregate_reports :: "aggregate_report list"
  next_id :: nat

definition empty_db :: db where
  "empty_db = \<lparr>scans = [], sources = [], scanjobs = [], job_sources = [], scantasks = [],
     job_connection_results = [], task_connection_results = [],
     system_connection_results = [], inspect_groups = [],
     inspect_results = [], reports = [], deployments_reports = [], aggregate_reports = [], next_id = 1\<rparr>"

section \<open>Loading and saving\<close>

definition get_job :: "nat \<Rightarrow> db \<Rightarrow> scanjob option" where
  "get_job i d = row_get sj_id i (scanjobs d)"

definition save_job :: "scanjob \<Rightarrow> db \<Rightarrow> db" where
  "save_job j d = d\<lparr>scanjobs := row_save sj_id j (scanjobs d)\<rparr>"

definition get_task :: "nat \<Rightarrow> db \<Rightarrow> scantask option" where
  "get_task i d = row_get st_id i (scantasks d)"

definition save_task :: "scantask \<Rightarrow> db \<Rightarrow> db" where
  "save_task t d = d\<lparr>scantasks := row_save st_id t (scantasks d)\<rparr>"

text \<open>\<open>job.tasks.all()\<close> as a list in creation order.\<close>

definition job_tasks :: "nat \<Rightarrow> db \<Rightarrow> scantask list" where
  "job_tasks i d = filter (\<lambda>t. st_job t = i) (scantasks d)"

definition get_report :: "nat \<Rightarrow> db \<Rightarrow> report option" where
  "get_report i d = row_get re_id i (reports d)"

definition get_deployment :: "nat \<Rightarrow> db \<Rightarrow> deployments_report option" where
  "get_deployment i d = row_get dr_id i (deployments_reports d)"

text \<open>The deployments report of a job, through its report.\<close>

definition job_deployment :: "scanjob \<Rightarrow> db \<Rightarrow> deployments_report option" where
  "job_deployment j d =
     (case sj_report j of
        None \<Rightarrow> None
      | Some r \<Rightarrow>
          (case get_report r d of
             None \<Rightarrow> None
           | Some rep \<Rightarrow>
               (case re_deployment_report rep of None \<Rightarrow> None | Some i \<Rightarrow> get_deployment i d)))"

definition db_ok :: "db \<Rightarrow> bool" where
  "db_ok d \<longleftrightarrow> rows_ok sj_id (scanjobs d) \<and> rows_ok st_id (scantasks d) \<and>
     list_all (\<lambda>t. st_id t < next_id d) (scantasks d)"

text \<open>Saving a row whose key was handed out before.\<close>

definition job_rows_ok :: "db \<Rightarrow> bool" where
  "job_rows_ok d = rows_ok sj_id (scanjobs d)"

definition task_rows_ok :: "db \<Rightarrow> bool" where
  "task_rows_ok d = rows_ok st_id (scantasks d)"

interpretation jobs: table sj_id get_job save_job job_rows_ok
  by unfold_locales
    (auto simp: get_job_def save_job_def job_rows_ok_def row_get_save dest: row_get_key)

interpretation tasks: table st_id get_task save_task task_rows_ok
  by unfold_locales
    (auto simp: get_task_def save_task_def task_rows_ok_def row_get_save dest: row_get_key)

lemma get_job_save_job: "get_job i (save_job j d) = (if i = sj_id j then Some j else get_job i d)"
  by (simp add: get_job_def save_job_def row_get_save)

lemma get_task_save_task:
  "get_task i (save_task t d) = (if i = st_id t then Some t else get_task i d)"
  by (simp add: get_task_def save_task_def row_get_save)

lemma get_job_save_task [simp]: "get_job i (save_task t d) = get_job i d"
  by (simp add: get_job_def save_task_def)

lemma get_task_save_job [simp]: "get_task i (save_job j d) = get_task i d"
  by (simp add: get_task_def save_job_def)

lemma scantasks_save_job [simp]: "scantasks (save_job j d) = scantasks d"
  by (simp add: save_job_def)

lemma scanjobs_save_task [simp]: "scanjobs (save_task t d) = scanjobs d"
  by (simp add: save_task_def)

lemma job_tasks_save_job [simp]: "job_tasks i (save_job j d) = job_tasks i d"
  by (simp add: job_tasks_def)

lemmas store_simps =
  get_job_save_job get_task_save_task get_job_save_task get_task_save_job

end
