(* ===== verification/Scan_Task.thy ===== *)
theory Scan_Task
  imports Scan_Store
begin

text \<open>
  \<open>ScanTask\<close> of \<open>api/scantask/model.py\<close>: the status changes of a task, its counters and the
  raw facts collected by it. A method takes the database and the instance it runs on and
  returns both; \<open>now\<close> is the time \<open>datetime.now(UTC)\<close> returns. Writing to the log is left out.
\<close>

section \<open>Status changes\<close>

definition task_status_start :: "nat \<Rightarrow> scantask \<Rightarrow> db \<Rightarrow> db \<times> scantask" where
  "task_status_start now t d =
     (let t' = t\<lparr>st_start_time := Some now, st_status := RUNNING,
                 st_status_message := Some ''Task is running.''\<rparr>
      in (save_task t' d, t'))"

definition task_status_restart :: "scantask \<Rightarrow> db \<Rightarrow> db \<times> scantask" where
  "task_status_restart t d =
     (let t' = t\<lparr>st_status := PENDING, st_status_message := Some ''Task was restarted.''\<rparr>
      in (save_task t' d, t'))"

definition task_status_pause :: "scantask \<Rightarrow> db \<Rightarrow> db \<times> scantask" where
  "task_status_pause t d =
     (let t' = t\<lparr>st_status := PAUSED, st_status_message := Some ''Task is paused.''\<rparr>
      in (save_task t' d, t'))"

definition task_status_cancel :: "nat \<Rightarrow> scantask \<Rightarrow> db \<Rightarrow> db \<times> scantask" where
  "task_status_cancel now t d =
     (let t' = t\<lparr>st_end_time := Some now, st_status := CANCELED,
                 st_status_message := Some ''Task is canceled.''\<rparr>
      in (save_task t' d, t'))"

text \<open>Completing a task works on the row as it is in the database, not on the instance.\<close>

definition task_status_complete ::
  "nat \<Rightarrow> string option \<Rightarrow> scantask \<Rightarrow> db \<Rightarrow> (db \<times> scantask) res" where
  "task_status_complete now message t d =
     (case get_task (st_id t) d of
        None \<Rightarrow> Raise DoesNotExist
      | Some t0 \<Rightarrow>
          (let t' = t0\<lparr>st_end_time := Some now, st_status := COMPLETED,
                       st_status_message :=
                         (case message of
                            Some m \<Rightarrow> if m \<noteq> [] then Some m else Some ''Task is complete.''
                          | None \<Rightarrow> Some ''Task is complete.'')\<rparr>
           in Return (save_task t' d, t')))"

definition task_status_fail :: "nat \<Rightarrow> string option \<Rightarrow> scantask \<Rightarrow> db \<Rightarrow> db \<times> scantask" where
  "task_status_fail now message t d =
     (let t' = t\<lparr>st_end_time := Some now, st_status := FAILED, st_status_message := message\<rparr>
      in (save_task t' d, t'))"

section \<open>Counters\<close>

definition set_if_new :: "nat option \<Rightarrow> nat \<Rightarrow> nat" where
  "set_if_new new old = (case new of None \<Rightarrow> old | Some n \<Rightarrow> n)"

definition update_stats ::
  "nat option \<Rightarrow> nat option \<Rightarrow> nat option \<Rightarrow> nat option \<Rightarrow> scantask \<Rightarrow> db \<Rightarrow> (db \<times> scantask) res"
where
  "update_stats sys_count sys_scanned sys_failed sys_unreachable t d =
     (case get_task (st_id t) d of
        None \<Rightarrow> Raise DoesNotExist
      | Some t0 \<Rightarrow>
          (let t' = t0\<lparr>st_systems_count := set_if_new sys_count (st_systems_count t0),
                       st_systems_scanned := set_if_new sys_scanned (st_systems_scanned t0),
                       st_systems_failed := set_if_new sys_failed (st_systems_failed t0),
                       st_systems_unreachable :=
                         set_if_new sys_unreachable (st_systems_unreachable t0)\<rparr>;
               stats_changed = (t' \<noteq> t0)
           in Return (if stats_changed then save_task t' d else d, t')))"

definition bump :: "bool \<Rightarrow> nat \<Rightarrow> nat" where
  "bump b n = (if b then n + 1 else n)"

definition bump_row :: "bool \<Rightarrow> bool \<Rightarrow> bool \<Rightarrow> bool \<Rightarrow> scantask \<Rightarrow> scantask" where
  "bump_row c s f u t =
     t\<lparr>st_systems_count := bump c (st_systems_count t),
       st_systems_scanned := bump s (st_systems_scanned t),
       st_systems_failed := bump f (st_systems_failed t),
       st_systems_unreachable := bump u (st_systems_unreachable t)\<rparr>"

text \<open>The increments are computed in the database (\<open>F("systems_count") + 1\<close>) on the stored row;
  the instance is reloaded afterwards.\<close>

definition increment_stats ::
  "bool \<Rightarrow> bool \<Rightarrow> bool \<Rightarrow> bool \<Rightarrow> scantask \<Rightarrow> db \<Rightarrow> (db \<times> scantask) res"
where
  "increment_stats c s f u t d =
     (if c \<or> s \<or> f \<or> u then
        (let d' = d\<lparr>scantasks := map (\<lambda>x. if st_id x = st_id t then bump_row c s f u x else x)
                                  (scantasks d)\<rparr>
         in case get_task (st_id t) d' of
              None \<Rightarrow> Raise DoesNotExist
            | Some t' \<Rightarrow> Return (d', t'))
      else Return (d, t))"

section \<open>Raw facts of an inspection\<close>

text \<open>The keys of the inspect groups of a task, and the results in them.\<close>

definition task_groups :: "scantask \<Rightarrow> db \<Rightarrow> nat list" where
  "task_groups t d = map ig_id (filter (\<lambda>g. st_id t \<in> set (ig_tasks g)) (inspect_groups d))"

definition task_results :: "scantask \<Rightarrow> db \<Rightarrow> inspect_result list" where
  "task_results t d =
     filter (\<lambda>r. ir_inspect_group r \<in> set (task_groups t d)) (inspect_results d)"

definition facts_dict :: "(string \<times> pyval) list \<Rightarrow> pydict" where
  "facts_dict fs = fold (\<lambda>(k, v) dct. AList.update k v dct) fs []"

definition get_facts :: "scantask \<Rightarrow> db \<Rightarrow> pydict list" where
  "get_facts t d =
     (if st_scan_type t \<noteq> SCAN_TYPE_INSPECT then []
      else map (\<lambda>r. facts_dict (ir_facts r)) (task_results t d))"

definition valid_identity :: "string \<Rightarrow> inspect_result \<Rightarrow> bool" where
  "valid_identity identity_key r =
     list_ex (\<lambda>(k, v). k = identity_key \<and> v \<noteq> PNone \<and> v \<noteq> PStr [] \<and> v \<noteq> PDict []) (ir_facts r)"

definition cleanup_facts :: "string \<Rightarrow> scantask \<Rightarrow> db \<Rightarrow> db" where
  "cleanup_facts identity_key t d =
     (if st_scan_type t \<noteq> SCAN_TYPE_INSPECT then d
      else
        (let invalid = (\<lambda>r. ir_inspect_group r \<in> set (task_groups t d) \<and>
                            \<not> valid_identity identity_key r)
         in if list_ex invalid (inspect_results d)
            then d\<lparr>inspect_results := filter (\<lambda>r. \<not> invalid r) (inspect_results d)\<rparr>
            else d))"

datatype task_result = Inspect_results "inspect_result list" | Job_report "nat option"

definition get_result :: "scantask \<Rightarrow> db \<Rightarrow> task_result option" where
  "get_result t d =
     (case st_scan_type t of
        SCAN_TYPE_INSPECT \<Rightarrow> Some (Inspect_results (task_results t d))
      | SCAN_TYPE_FINGERPRINT \<Rightarrow>
          Some (Job_report (Option.bind (get_job (st_job t) d) sj_report)))"

section \<open>Lemmas\<close>

lemma task_status_frame:
  "get_job i (fst (task_status_start now t d)) = get_job i d"
  "get_job i (fst (task_status_cancel now t d)) = get_job i d"
  "get_job i (fst (task_status_pause t d)) = get_job i d"
  "get_job i (fst (task_status_restart t d)) = get_job i d"
  "get_job i (fst (task_status_fail now m t d)) = get_job i d"
  by (simp_all add: task_status_start_def task_status_cancel_def task_status_pause_def
      task_status_restart_def task_status_fail_def Let_def)

lemma get_task_map:
  assumes "\<And>x. st_id (f x) = st_id x"
  shows "get_task i (d\<lparr>scantasks := map f (scantasks d)\<rparr>) = map_option f (get_task i d)"
proof -
  have "find (\<lambda>t. st_id t = i) (map f ts) = map_option f (find (\<lambda>t. st_id t = i) ts)" for ts
    by (induction ts) (auto simp: assms)
  then show ?thesis by (simp add: get_task_def row_get_def)
qed

lemma st_id_bump_row [simp]: "st_id (bump_row c s f u t) = st_id t"
  by (simp add: bump_row_def)

lemma increment_stats_row:
  assumes "get_task (st_id t) d = Some t0" and "c \<or> s \<or> f \<or> u"
  shows "\<exists>d'. increment_stats c s f u t d = Return (d', bump_row c s f u t0)
    \<and> get_task i d' = (if i = st_id t then Some (bump_row c s f u t0) else get_task i d)"
proof -
  let ?g = "\<lambda>x. if st_id x = st_id t then bump_row c s f u x else x"
  let ?d = "d\<lparr>scantasks := map ?g (scantasks d)\<rparr>"
  have g: "get_task j ?d = map_option ?g (get_task j d)" for j
    by (rule get_task_map) simp
  have id0: "st_id t0 = st_id t"
    using assms(1) by (rule tasks.get_key)
  have same: "map_option ?g (get_task j d) = get_task j d" if "j \<noteq> st_id t" for j
    using that tasks.get_key [of j d] by (cases "get_task j d") auto
  show ?thesis
    using assms g [of "st_id t"] g [of i] same [of i] id0
    by (cases "i = st_id t") (auto simp: increment_stats_def Let_def)
qed

text \<open>
  A run of increments by workers, each holding its own instance of the same task.
\<close>

fun scan_each :: "scantask list \<Rightarrow> db \<Rightarrow> db res" where
  "scan_each [] d = Return d"
| "scan_each (t # ts) d =
     bind_res (increment_stats False True False False t d) (\<lambda>(d', _). scan_each ts d')"

lemma scan_each_counts:
  assumes "get_task i d = Some t0" and "\<forall>t \<in> set ts. st_id t = i"
  shows "\<exists>d' t'. scan_each ts d = Return d' \<and> get_task i d' = Some t'
    \<and> st_systems_scanned t' = st_systems_scanned t0 + length ts"
  using assms
proof (induction ts arbitrary: d t0)
  case Nil
  then show ?case by simp
next
  case (Cons t ts)
  let ?t1 = "bump_row False True False False t0"
  from Cons.prems have "get_task (st_id t) d = Some t0" by simp
  from increment_stats_row [OF this, of False True False False i] obtain d1 where
    d1: "increment_stats False True False False t d = Return (d1, ?t1)"
      "get_task i d1 = Some ?t1"
    using Cons.prems by auto
  from Cons.IH [OF d1(2)] Cons.prems obtain d' t' where
    "scan_each ts d1 = Return d'" "get_task i d' = Some t'"
    "st_systems_scanned t' = st_systems_scanned ?t1 + length ts"
    by auto
  with d1(1) show ?case by (auto simp: bump_row_def bump_def)
qed

lemma cleanup_facts_results:
  "inspect_results (cleanup_facts k t d) =
     (if st_scan_type t = SCAN_TYPE_INSPECT
      then filter (\<lambda>r. ir_inspect_group r \<notin> set (task_groups t d) \<or> valid_identity k r)
             (inspect_results d)
      else inspect_results d)"
proof -
  have "filter (\<lambda>r. ir_inspect_group r \<notin> set (task_groups t d) \<or> valid_identity k r) xs = xs"
    if "\<not> list_ex (\<lambda>r. ir_inspect_group r \<in> set (task_groups t d) \<and> \<not> valid_identity k r) xs"
    for xs
    using that by (induction xs) auto
  then show ?thesis by (simp add: cleanup_facts_def Let_def disj_not1)
qed

lemma cleanup_facts_groups: "task_groups t' (cleanup_facts k t d) = task_groups t' d"
  by (simp add: cleanup_facts_def task_groups_def Let_def)

section \<open>Properties\<close>


definition sample_task :: scantask where
  "sample_task = \<lparr>st_id = 7, st_scan_type = SCAN_TYPE_INSPECT, st_status = RUNNING,
     st_status_message = None, st_prerequisites = [], st_job = 1, st_systems_count = 5,
     st_systems_scanned = 2, st_systems_failed = 0, st_systems_unreachable = 0,
     st_sequence_number = 0, st_start_time = None, st_end_time = None, st_source = None,
     st_connection_result = None\<rparr>"


text \<open>
  C21. \<open>cleanup_facts\<close> of an inspection task deletes exactly the results of the task's own groups
  that have no usable identity fact: what is left of the task is identifiable, and every result
  that was identifiable, or belongs to another task's groups, is still there.
\<close>

theorem cleanup_facts_exact:
  assumes "st_scan_type t = SCAN_TYPE_INSPECT"
  shows "(\<forall>r \<in> set (task_results t (cleanup_facts k t d)). valid_identity k r)
    \<and> (\<forall>r \<in> set (inspect_results d).
         valid_identity k r \<or> ir_inspect_group r \<notin> set (task_groups t d)
         \<longrightarrow> r \<in> set (inspect_results (cleanup_facts k t d)))"
  using assms
  by (auto simp: task_results_def cleanup_facts_results cleanup_facts_groups)

definition sample_results :: db where
  "sample_results = empty_db\<lparr>scantasks := [sample_task],
     inspect_groups := [\<lparr>ig_id = 3, ig_source_type = ''network'', ig_source_name = ''lab'',
       ig_server_id = ''s'', ig_server_version = ''1.0'', ig_tasks = [7]\<rparr>],
     inspect_results :=
       [\<lparr>ir_id = 4, ir_name = ''a'', ir_status = Some SUCCESS, ir_inspect_group = 3,
         ir_facts = [(''name'', PStr ''host-a'')]\<rparr>,
        \<lparr>ir_id = 5, ir_name = ''b'', ir_status = Some SUCCESS, ir_inspect_group = 3,
         ir_facts = [(''name'', PStr [])]\<rparr>]\<rparr>"

theorem cleanup_facts_exact_witness:
  "list_all (valid_identity ''name'')
     (task_results sample_task (cleanup_facts ''name'' sample_task sample_results))
   \<and> map ir_id (inspect_results (cleanup_facts ''name'' sample_task sample_results)) = [4]"
proof -
  have "st_scan_type sample_task = SCAN_TYPE_INSPECT" by (simp add: sample_task_def)
  note exact = cleanup_facts_exact [OF this, of "''name''" sample_results]
  have "map ir_id (inspect_results (cleanup_facts ''name'' sample_task sample_results)) = [4]"
    by (simp add: cleanup_facts_results sample_task_def sample_results_def task_groups_def
        valid_identity_def)
  with exact show ?thesis by (simp add: list_all_iff)
qed

end
