(* ===== verification/Scan_Job.thy ===== *)
theory Scan_Job
  imports Scan_Task
begin

text \<open>
  \<open>ScanJob\<close> of \<open>api/scanjob/model.py\<close>: queueing a job (its tasks are created), the status
  changes with the check of the current status, the counts of a job, the import and the copy
  of raw facts. Methods take the instance and the database and return both; a status change
  also returns whether it was made.

  \<open>if self.tasks:\<close> in \<open>queue\<close> tests a related manager, which is always true, so the clean-up of
  earlier results is unconditional.
\<close>

section \<open>The check of the current status\<close>

text \<open>Returns \<open>True\<close> for an error: the job is not already in the wanted status and its status
  is not one the change may start from.\<close>

definition validate_status_change :: "status \<Rightarrow> status list \<Rightarrow> scanjob \<Rightarrow> bool" where
  "validate_status_change target_status valid_current_status j =
     (if target_status = sj_status j then False
      else if sj_status j \<notin> set valid_current_status then True
      else False)"

section \<open>Queueing\<close>

definition job_source_rows :: "nat \<Rightarrow> db \<Rightarrow> source list" where
  "job_source_rows i d = filter (\<lambda>s. (i, so_id s) \<in> set (job_sources d)) (sources d)"

definition copy_scan_details :: "scanjob \<Rightarrow> db \<Rightarrow> db \<times> scanjob" where
  "copy_scan_details j d =
     (case Option.bind (sj_scan j) (\<lambda>i. row_get sc_id i (scans d)) of
        None \<Rightarrow> (d, j)
      | Some sc \<Rightarrow>
          (let new = filter (\<lambda>p. p \<notin> set (job_sources d)) (map (\<lambda>s. (sj_id j, s)) (sc_sources sc));
               j' = j\<lparr>sj_scan_type := sc_scan_type sc\<rparr>
           in (save_job j' (d\<lparr>job_sources := job_sources d @ new\<rparr>), j')))"

text \<open>The inspect groups that are also part of the report of another job.\<close>

definition shared_with_other_job :: "nat \<Rightarrow> db \<Rightarrow> nat \<Rightarrow> bool" where
  "shared_with_other_job job d g =
     list_ex (\<lambda>j. sj_id j \<noteq> job \<and>
       (case Option.bind (sj_report j) (\<lambda>r. get_report r d) of
          None \<Rightarrow> False
        | Some rep \<Rightarrow> g \<in> set (re_inspect_groups rep))) (scanjobs d)"

definition group_of_job :: "nat \<Rightarrow> nat option \<Rightarrow> db \<Rightarrow> inspect_group \<Rightarrow> bool" where
  "group_of_job job scan_task_id d g =
     list_ex (\<lambda>t. st_job t = job \<and> st_id t \<in> set (ig_tasks g) \<and>
       (case scan_task_id of None \<Rightarrow> True | Some i \<Rightarrow> i = 0 \<or> st_id t = i)) (scantasks d)"

definition delete_inspect_results :: "nat option \<Rightarrow> scanjob \<Rightarrow> db \<Rightarrow> db" where
  "delete_inspect_results scan_task_id j d =
     (let doomed = (\<lambda>r. list_ex (\<lambda>g. ig_id g = ir_inspect_group r \<and>
                          group_of_job (sj_id j) scan_task_id d g) (inspect_groups d) \<and>
                        \<not> shared_with_other_job (sj_id j) d (ir_inspect_group r));
          results = filter (\<lambda>r. \<not> doomed r) (inspect_results d);
          groups =
            filter (\<lambda>g. list_ex (\<lambda>r. ir_inspect_group r = ig_id g) results) (inspect_groups d);
          kept = map ig_id groups
      in d\<lparr>inspect_results := results, inspect_groups := groups,
           reports :=
             map (\<lambda>r. r\<lparr>re_inspect_groups := filter (\<lambda>g. g \<in> set kept) (re_inspect_groups r)\<rparr>)
               (reports d)\<rparr>)"

text \<open>\<open>self.tasks.all().delete()\<close> also removes the rows that relate the tasks to inspect groups.\<close>

definition delete_tasks :: "nat \<Rightarrow> db \<Rightarrow> db" where
  "delete_tasks job d =
     (let gone = map st_id (job_tasks job d)
      in d\<lparr>scantasks := filter (\<lambda>t. st_job t \<noteq> job) (scantasks d),
           inspect_groups :=
             map (\<lambda>g. g\<lparr>ig_tasks := filter (\<lambda>t. t \<notin> set gone) (ig_tasks g)\<rparr>) (inspect_groups d)\<rparr>)"

text \<open>Deleting the connection results of tasks deletes those of their systems.\<close>

definition delete_task_results :: "nat option \<Rightarrow> db \<Rightarrow> db" where
  "delete_task_results cr d =
     (case cr of
        None \<Rightarrow> d
      | Some c \<Rightarrow>
          (let gone = map tcr_id (filter (\<lambda>r. tcr_job_connection_result r = c) (task_connection_results d))
           in d\<lparr>task_connection_results :=
                  filter (\<lambda>r. tcr_job_connection_result r \<noteq> c) (task_connection_results d),
                system_connection_results :=
                  filter (\<lambda>r. scr_task_connection_result r \<notin> set gone) (system_connection_results d)\<rparr>))"

definition delete_fingerprints :: "scanjob \<Rightarrow> db \<Rightarrow> db" where
  "delete_fingerprints j d =
     (case job_deployment j d of
        None \<Rightarrow> d
      | Some dr \<Rightarrow>
          d\<lparr>deployments_reports :=
              row_save dr_id (dr\<lparr>dr_system_fingerprints := []\<rparr>) (deployments_reports d)\<rparr>)"

definition new_task :: "nat \<Rightarrow> nat \<Rightarrow> scan_type \<Rightarrow> nat \<Rightarrow> nat option \<Rightarrow> nat option \<Rightarrow> nat list \<Rightarrow> scantask"
where
  "new_task i job ty sequence_number src conn prereq =
     \<lparr>st_id = i, st_scan_type = ty, st_status = PENDING,
      st_status_message = Some ''Task is pending.'', st_prerequisites = prereq, st_job = job,
      st_systems_count = 0, st_systems_scanned = 0, st_systems_failed = 0,
      st_systems_unreachable = 0, st_sequence_number = sequence_number, st_start_time = None,
      st_end_time = None, st_source = src, st_connection_result = conn\<rparr>"

text \<open>One pending task for a source, with its connection result.\<close>

definition create_inspection_task :: "scanjob \<Rightarrow> nat \<Rightarrow> source \<Rightarrow> db \<Rightarrow> db \<times> scantask" where
  "create_inspection_task j index s d =
     (let c = next_id d; i = next_id d + 1;
          conn = (case sj_connection_results j of
                    None \<Rightarrow> []
                  | Some r \<Rightarrow> [\<lparr>tcr_id = c, tcr_job_connection_result = r\<rparr>]);
          t = new_task i (sj_id j) SCAN_TYPE_INSPECT index (Some (so_id s)) (Some c) []
      in (d\<lparr>task_connection_results := task_connection_results d @ conn,
            scantasks := scantasks d @ [t], next_id := next_id d + 2\<rparr>, t))"

fun create_tasks_for :: "scanjob \<Rightarrow> nat \<Rightarrow> source list \<Rightarrow> db \<Rightarrow> db \<times> scantask list" where
  "create_tasks_for j index [] d = (d, [])"
| "create_tasks_for j index (s # ss) d =
     (case create_inspection_task j index s d of (d1, t) \<Rightarrow>
        (case create_tasks_for j (index + 1) ss d1 of (d2, ts) \<Rightarrow> (d2, t # ts)))"

definition create_inspection_tasks :: "scanjob \<Rightarrow> db \<Rightarrow> db \<times> scantask list" where
  "create_inspection_tasks j d =
     (if sj_scan_type j \<noteq> SCAN_TYPE_INSPECT then (d, [])
      else create_tasks_for j 0 (job_source_rows (sj_id j) d) d)"

definition create_fingerprint_task :: "scanjob \<Rightarrow> scantask list \<Rightarrow> db \<Rightarrow> db" where
  "create_fingerprint_task j inspect_tasks d =
     (if sj_scan_type j = SCAN_TYPE_FINGERPRINT \<or> inspect_tasks \<noteq> [] then
        (let t = new_task (next_id d) (sj_id j) SCAN_TYPE_FINGERPRINT (length inspect_tasks + 1)
                   None None (map st_id inspect_tasks)
         in d\<lparr>scantasks := scantasks d @ [t], next_id := next_id d + 1\<rparr>)
      else d)"

definition create_pending_tasks :: "scanjob \<Rightarrow> db \<Rightarrow> db" where
  "create_pending_tasks j d =
     (case create_inspection_tasks j d of (d1, ts) \<Rightarrow> create_fingerprint_task j ts d1)"

definition ensure_connection_results :: "scanjob \<Rightarrow> db \<Rightarrow> db \<times> scanjob" where
  "ensure_connection_results j d =
     (case sj_connection_results j of
        Some _ \<Rightarrow> (d, j)
      | None \<Rightarrow>
          (let j' = j\<lparr>sj_connection_results := Some (next_id d)\<rparr>
           in (save_job j' (d\<lparr>job_connection_results := job_connection_results d @ [next_id d],
                              next_id := next_id d + 1\<rparr>), j')))"

text \<open>The scan and the sources remember the job as their most recent one.\<close>

definition mark_most_recent :: "scanjob \<Rightarrow> db \<Rightarrow> db" where
  "mark_most_recent j d =
     (if sj_scan_type j = SCAN_TYPE_FINGERPRINT then d
      else d\<lparr>scans :=
               map (\<lambda>sc. if sj_scan j = Some (sc_id sc)
                         then sc\<lparr>sc_most_recent_scanjob := Some (sj_id j)\<rparr> else sc) (scans d),
             sources :=
               map (\<lambda>s. if (sj_id j, so_id s) \<in> set (job_sources d)
                        then s\<lparr>so_most_recent_connect_scan := Some (sj_id j)\<rparr> else s) (sources d)\<rparr>)"

definition job_queue :: "scanjob \<Rightarrow> db \<Rightarrow> db \<times> scanjob" where
  "job_queue j0 d0 =
     (case copy_scan_details j0 d0 of (d1, j1) \<Rightarrow>
        if validate_status_change PENDING [CREATED] j1 then (d1, j1)
        else
          (case ensure_connection_results j1 d1 of (d2, j2) \<Rightarrow>
             (let d3 = delete_inspect_results None j2 d2;
                  d4 = delete_tasks (sj_id j2) d3;
                  d5 = delete_task_results (sj_connection_results j2) d4;
                  d6 = delete_fingerprints j2 d5;
                  d7 = create_pending_tasks j2 d6;
                  d8 = mark_most_recent j2 d7;
                  j3 = j2\<lparr>sj_status := PENDING, sj_status_message := Some ''Job is pending.''\<rparr>
              in (save_job j3 d8, j3))))"

section \<open>Status changes\<close>

definition job_status_start :: "nat \<Rightarrow> scanjob \<Rightarrow> db \<Rightarrow> db \<times> scanjob \<times> bool" where
  "job_status_start now j0 d =
     (let j = j0\<lparr>sj_start_time := Some now\<rparr>
      in if validate_status_change RUNNING [PENDING] j then (d, j, False)
         else
           (let j' = j\<lparr>sj_status := RUNNING, sj_status_message := Some ''Job is running.''\<rparr>
            in (save_job j' d, j', True)))"

definition job_status_restart :: "scanjob \<Rightarrow> db \<Rightarrow> db \<times> scanjob \<times> bool" where
  "job_status_restart j d =
     (if validate_status_change PENDING [PENDING, PAUSED, RUNNING] j then (d, j, False)
      else
        (let d' = fold (\<lambda>t e. fst (task_status_restart t e))
                    (filter (\<lambda>t. st_status t = PAUSED) (job_tasks (sj_id j) d)) d;
             j' = j\<lparr>sj_status := PENDING, sj_status_message := Some ''Job is running.''\<rparr>
         in (save_job j' d', j', True)))"

definition unfinished_tasks :: "nat \<Rightarrow> db \<Rightarrow> scantask list" where
  "unfinished_tasks job d =
     filter (\<lambda>t. \<not> (st_status t = FAILED \<or> st_status t = CANCELED \<or> st_status t = COMPLETED))
       (job_tasks job d)"

definition job_status_pause :: "scanjob \<Rightarrow> db \<Rightarrow> db \<times> scanjob \<times> bool" where
  "job_status_pause j d =
     (if validate_status_change PAUSED [PENDING, RUNNING] j then (d, j, False)
      else
        (let d' = fold (\<lambda>t e. fst (task_status_pause t e)) (unfinished_tasks (sj_id j) d) d;
             j' = j\<lparr>sj_status := PAUSED, sj_status_message := Some ''Job is paused.''\<rparr>
         in (save_job j' d', j', True)))"

definition job_status_cancel :: "nat \<Rightarrow> scanjob \<Rightarrow> db \<Rightarrow> db \<times> scanjob \<times> bool" where
  "job_status_cancel now j0 d =
     (let j = j0\<lparr>sj_end_time := Some now\<rparr>
      in if validate_status_change CANCELED [CREATED, PENDING, RUNNING, PAUSED] j then (d, j, False)
         else
           (let d' = fold (\<lambda>t e. fst (task_status_cancel now t e)) (unfinished_tasks (sj_id j) d) d;
                j' = j\<lparr>sj_status := CANCELED, sj_status_message := Some ''Job is canceled.''\<rparr>
            in (save_job j' d', j', True)))"

definition job_status_complete :: "nat \<Rightarrow> scanjob \<Rightarrow> db \<Rightarrow> db \<times> scanjob \<times> bool" where
  "job_status_complete now j0 d =
     (let j = j0\<lparr>sj_end_time := Some now\<rparr>
      in if validate_status_change COMPLETED [RUNNING] j then (d, j, False)
         else
           (let j' = j\<lparr>sj_status := COMPLETED, sj_status_message := Some ''Job is complete.''\<rparr>
            in (save_job j' d, j', True)))"

definition job_status_fail :: "nat \<Rightarrow> string \<Rightarrow> scanjob \<Rightarrow> db \<Rightarrow> db \<times> scanjob \<times> bool" where
  "job_status_fail now message j0 d =
     (let j = j0\<lparr>sj_end_time := Some now\<rparr>
      in if validate_status_change FAILED [RUNNING] j then (d, j, False)
         else
           (let j' = j\<lparr>sj_status := FAILED, sj_status_message := Some message\<rparr>
            in (save_job j' d, j', True)))"

section \<open>Counts\<close>

definition calculate_task_counts :: "scanjob \<Rightarrow> db \<Rightarrow> nat \<times> nat \<times> nat \<times> nat" where
  "calculate_task_counts j d =
     (let ts = filter (\<lambda>t. st_scan_type t = sj_scan_type j) (job_tasks (sj_id j) d)
      in (sum_list (map st_systems_count ts), sum_list (map st_systems_scanned ts),
          sum_list (map st_systems_failed ts), sum_list (map st_systems_unreachable ts)))"

text \<open>\<open>None\<close> stands for five times \<open>None\<close>; the instance is reloaded first.\<close>

definition calculate_counts ::
  "scanjob \<Rightarrow> db \<Rightarrow> (nat \<times> nat \<times> nat \<times> nat \<times> nat) option res" where
  "calculate_counts j0 d =
     (case get_job (sj_id j0) d of
        None \<Rightarrow> Raise DoesNotExist
      | Some j \<Rightarrow>
          if sj_status j \<in> {CREATED, PENDING} then Return None
          else
            (case calculate_task_counts j d of (c, s, f, u) \<Rightarrow>
               Return (Some (c, s, f, u,
                 case job_deployment j d of
                   None \<Rightarrow> 0
                 | Some dr \<Rightarrow> length (dr_system_fingerprints dr)))))"

section \<open>Importing and copying raw facts\<close>

record source_dict =
  sd_source_type :: string
  sd_source_name :: string
  sd_server_id :: string
  sd_report_version :: string
  sd_facts :: "pydict list"

text \<open>Adds the group of one source and a result for each of its fact dicts.\<close>

definition ingest_source :: "source_dict \<Rightarrow> db \<Rightarrow> db \<times> nat" where
  "ingest_source sd d =
     (let g = next_id d;
          grp = \<lparr>ig_id = g, ig_source_type = sd_source_type sd, ig_source_name = sd_source_name sd,
                 ig_server_id = sd_server_id sd, ig_server_version = sd_report_version sd,
                 ig_tasks = []\<rparr>;
          n = length (sd_facts sd);
          res = map (\<lambda>(i, fs). \<lparr>ir_id = i, ir_name = [], ir_status = None, ir_inspect_group = g,
                                ir_facts = fs\<rparr>)
                  (zip [g + 1..<g + 1 + n] (sd_facts sd))
      in (d\<lparr>inspect_groups := inspect_groups d @ [grp],
            inspect_results := inspect_results d @ res, next_id := g + 1 + n\<rparr>, g))"

fun ingest_all :: "source_dict list \<Rightarrow> db \<Rightarrow> db \<times> nat list" where
  "ingest_all [] d = (d, [])"
| "ingest_all (s # ss) d =
     (case ingest_source s d of (d1, g) \<Rightarrow> (case ingest_all ss d1 of (d2, gs) \<Rightarrow> (d2, g # gs)))"

text \<open>\<open>report.inspect_groups.set(..)\<close>\<close>

definition set_inspect_groups :: "nat \<Rightarrow> nat list \<Rightarrow> db \<Rightarrow> db" where
  "set_inspect_groups r gs d =
     d\<lparr>reports := map (\<lambda>x. if re_id x = r then x\<lparr>re_inspect_groups := gs\<rparr> else x) (reports d)\<rparr>"

text \<open>A job without a report gets one on the instance; the row of the job is not saved here.\<close>

definition ingest_sources :: "source_dict list \<Rightarrow> scanjob \<Rightarrow> db \<Rightarrow> db \<times> scanjob" where
  "ingest_sources source_list j d =
     (case sj_report j of
        Some r \<Rightarrow>
          (case ingest_all source_list d of (d', gs) \<Rightarrow> (set_inspect_groups r gs d', j))
      | None \<Rightarrow>
          (let r = next_id d;
               rep = \<lparr>re_id = r, re_origin = LOCAL, re_inspect_groups = [],
                      re_deployment_report = None\<rparr>
           in case ingest_all source_list (d\<lparr>reports := reports d @ [rep], next_id := r + 1\<rparr>) of
                (d', gs) \<Rightarrow> (set_inspect_groups r gs d', j\<lparr>sj_report := Some r\<rparr>)))"

definition copy_raw_facts_from_reports :: "nat list \<Rightarrow> scanjob \<Rightarrow> db \<Rightarrow> db res" where
  "copy_raw_facts_from_reports report_id_list j d =
     (let gs = map ig_id (filter (\<lambda>g. list_ex (\<lambda>r. re_id r \<in> set report_id_list \<and>
                 ig_id g \<in> set (re_inspect_groups r)) (reports d)) (inspect_groups d))
      in case sj_report j of
           None \<Rightarrow> Raise AttributeError
         | Some r \<Rightarrow> Return (set_inspect_groups r gs d))"

section \<open>Lemmas on the tasks of a job\<close>

lemma fold_row_save:
  assumes "\<And>x. key (f x) = key x" and "distinct (map key xs)" and "set (map key xs) \<subseteq> set (map key rows)"
  shows "fold (\<lambda>x. row_save key (f x)) xs rows =
    map (\<lambda>r. case find (\<lambda>x. key x = key r) xs of None \<Rightarrow> r | Some x \<Rightarrow> f x) rows"
  using assms(2,3)
proof (induction xs arbitrary: rows)
  case Nil
  then show ?case by simp
next
  case (Cons x xs)
  let ?rows = "map (\<lambda>r. if key r = key x then f x else r) rows"
  have step: "row_save key (f x) rows = ?rows"
    using Cons.prems by (simp add: row_save_def assms(1))
  have keys: "map key ?rows = map key rows" by (simp add: assms(1))
  have none: "find (\<lambda>y. key y = key x) xs = None"
    using Cons.prems by (auto simp: find_None_iff image_iff)
  have "fold (\<lambda>x. row_save key (f x)) xs ?rows =
    map (\<lambda>r. case find (\<lambda>x. key x = key r) xs of None \<Rightarrow> r | Some x \<Rightarrow> f x) ?rows"
    using Cons.prems keys by (intro Cons.IH) auto
  also have "\<dots> = map (\<lambda>r. case find (\<lambda>y. key y = key r) (x # xs) of None \<Rightarrow> r | Some y \<Rightarrow> f y) rows"
    using none by (auto simp: assms(1))
  finally show ?case by (simp add: step)
qed

lemma find_filter_self:
  "rows_ok key rows \<Longrightarrow> r \<in> set rows \<Longrightarrow>
     find (\<lambda>x. key x = key r) (filter P rows) = (if P r then Some r else None)"
proof (induction rows)
  case Nil
  then show ?case by simp
next
  case (Cons x rows)
  then show ?case
    by (auto simp: rows_ok_def find_None_iff image_iff)
qed

lemma fold_row_save_filter:
  assumes "\<And>x. key (f x) = key x" and "rows_ok key rows"
  shows "fold (\<lambda>x. row_save key (f x)) (filter P rows) rows = map (\<lambda>r. if P r then f r else r) rows"
proof -
  have "fold (\<lambda>x. row_save key (f x)) (filter P rows) rows =
    map (\<lambda>r. case find (\<lambda>x. key x = key r) (filter P rows) of None \<Rightarrow> r | Some x \<Rightarrow> f x) rows"
    using assms by (intro fold_row_save) (auto simp: rows_ok_def distinct_map_filter)
  also have "\<dots> = map (\<lambda>r. if P r then f r else r) rows"
    using assms(2) by (intro map_cong) (auto simp: find_filter_self)
  finally show ?thesis .
qed

lemma fold_save_task:
  "fold (\<lambda>t. save_task (f t)) ts d = d\<lparr>scantasks := fold (\<lambda>t. row_save st_id (f t)) ts (scantasks d)\<rparr>"
  by (induction ts arbitrary: d) (auto simp: save_task_def)

text \<open>A loop that saves a changed copy of every selected task of a job.\<close>

lemma save_selected_tasks:
  assumes "\<And>t. st_id (f t) = st_id t" and "task_rows_ok d"
  shows "fold (\<lambda>t. save_task (f t)) (filter P (job_tasks i d)) d =
    d\<lparr>scantasks := map (\<lambda>t. if st_job t = i \<and> P t then f t else t) (scantasks d)\<rparr>"
  using fold_row_save_filter [of st_id f "scantasks d" "\<lambda>t. st_job t = i \<and> P t"] assms
  by (simp add: fold_save_task job_tasks_def filter_filter task_rows_ok_def conj_commute)

lemma task_loops_scanjobs:
  "scanjobs (fold (\<lambda>t e. fst (task_status_restart t e)) ts d) = scanjobs d"
  "scanjobs (fold (\<lambda>t e. fst (task_status_pause t e)) ts d) = scanjobs d"
  "scanjobs (fold (\<lambda>t e. fst (task_status_cancel now t e)) ts d) = scanjobs d"
  by (induction ts arbitrary: d)
    (simp_all add: task_status_restart_def task_status_pause_def task_status_cancel_def Let_def)

lemma create_tasks_for_result:
  "create_tasks_for j n ss d = (d', ts) \<Longrightarrow>
     scanjobs d' = scanjobs d \<and> scantasks d' = scantasks d @ ts \<and>
     next_id d' = next_id d + 2 * length ss \<and>
     map st_source ts = map (\<lambda>s. Some (so_id s)) ss \<and>
     map st_sequence_number ts = [n..<n + length ss] \<and>
     (\<forall>t \<in> set ts. st_job t = sj_id j \<and> st_scan_type t = SCAN_TYPE_INSPECT \<and> st_status t = PENDING \<and>
        st_prerequisites t = [] \<and> next_id d \<le> st_id t \<and> st_id t < next_id d') \<and>
     distinct (map st_id ts)"
proof (induction ss arbitrary: n d d' ts)
  case Nil
  then show ?case by simp
next
  case (Cons s ss)
  obtain d1 t where one: "create_inspection_task j n s d = (d1, t)" by fastforce
  obtain d2 ts2 where rest: "create_tasks_for j (n + 1) ss d1 = (d2, ts2)" by fastforce
  from Cons.prems one rest have res: "d' = d2" "ts = t # ts2" by simp_all
  from one have t: "t = new_task (next_id d + 1) (sj_id j) SCAN_TYPE_INSPECT n (Some (so_id s))
      (Some (next_id d)) []"
    and d1: "scanjobs d1 = scanjobs d" "scantasks d1 = scantasks d @ [t]" "next_id d1 = next_id d + 2"
    by (auto simp: create_inspection_task_def Let_def)
  have seq: "[n..<n + length (s # ss)] = n # [n + 1..<n + 1 + length ss]"
    by (simp add: upt_conv_Cons del: upt_Suc)
  from Cons.IH [OF rest] show ?case
    unfolding res seq by (auto simp: t d1 new_task_def simp del: upt_Suc)
qed

lemma create_inspection_tasks_scanjobs:
  "create_inspection_tasks j d = (d', ts) \<Longrightarrow> scanjobs d' = scanjobs d"
  by (auto simp: create_inspection_tasks_def dest: create_tasks_for_result split: if_splits)

lemma create_pending_tasks_scanjobs: "scanjobs (create_pending_tasks j d) = scanjobs d"
  by (auto simp: create_pending_tasks_def create_fingerprint_task_def Let_def
      dest: create_inspection_tasks_scanjobs split: prod.splits)

lemma queue_steps_scanjobs:
  "scanjobs (delete_inspect_results i j d) = scanjobs d"
  "scanjobs (delete_tasks n d) = scanjobs d"
  "scanjobs (delete_task_results c d) = scanjobs d"
  "scanjobs (delete_fingerprints j d) = scanjobs d"
  "scanjobs (mark_most_recent j d) = scanjobs d"
  by (simp_all add: delete_inspect_results_def delete_tasks_def delete_task_results_def
      delete_fingerprints_def mark_most_recent_def Let_def split: option.splits)

lemmas job_frame =
  task_loops_scanjobs create_pending_tasks_scanjobs queue_steps_scanjobs

section \<open>The status machine\<close>

text \<open>
  What a status machine promises its clients: an event that is refused changes no status, a
  final status is never left, and the status held in memory and the stored one stay the same.
\<close>

locale status_machine =
  fixes step :: "'e \<Rightarrow> 's \<Rightarrow> 's \<times> bool"
    and status :: "'s \<Rightarrow> 'q"
    and final :: "'q \<Rightarrow> bool"
    and synced :: "'s \<Rightarrow> bool"
  assumes refused_keeps: "\<not> snd (step e s) \<Longrightarrow> status (fst (step e s)) = status s"
    and final_stays: "final (status s) \<Longrightarrow> status (fst (step e s)) = status s"
    and step_synced: "synced s \<Longrightarrow> synced (fst (step e s))"
begin

lemma run_final_stays:
  "final (status s) \<Longrightarrow> status (fold (\<lambda>e s. fst (step e s)) es s) = status s"
  by (induction es arbitrary: s) (simp_all add: final_stays)

lemma run_synced: "synced s \<Longrightarrow> synced (fold (\<lambda>e s. fst (step e s)) es s)"
  by (induction es arbitrary: s) (simp_all add: step_synced)

end

datatype job_event =
  Queue | Start nat | Restart | Pause | Cancel nat | Complete nat | Fail nat string

definition pack :: "db \<times> scanjob \<times> bool \<Rightarrow> (db \<times> scanjob) \<times> bool" where
  "pack r = (case r of (d, j, ok) \<Rightarrow> ((d, j), ok))"

text \<open>The methods of a job as one machine. \<open>queue\<close> returns nothing; its flag says whether it got
  past the check of the status.\<close>

fun job_step :: "job_event \<Rightarrow> db \<times> scanjob \<Rightarrow> (db \<times> scanjob) \<times> bool" where
  "job_step Queue (d, j) = (job_queue j d, \<not> validate_status_change PENDING [CREATED] j)"
| "job_step (Start now) (d, j) = pack (job_status_start now j d)"
| "job_step Restart (d, j) = pack (job_status_restart j d)"
| "job_step Pause (d, j) = pack (job_status_pause j d)"
| "job_step (Cancel now) (d, j) = pack (job_status_cancel now j d)"
| "job_step (Complete now) (d, j) = pack (job_status_complete now j d)"
| "job_step (Fail now m) (d, j) = pack (job_status_fail now m j d)"

text \<open>The intended life cycle: the new status, or \<open>None\<close> when the change is refused.\<close>

fun job_spec :: "job_event \<Rightarrow> status \<Rightarrow> status option" where
  "job_spec Queue s = (if s \<in> {CREATED, PENDING} then Some PENDING else None)"
| "job_spec (Start _) s = (if s \<in> {PENDING, RUNNING} then Some RUNNING else None)"
| "job_spec Restart s = (if s \<in> {PENDING, PAUSED, RUNNING} then Some PENDING else None)"
| "job_spec Pause s = (if s \<in> {PENDING, RUNNING, PAUSED} then Some PAUSED else None)"
| "job_spec (Cancel _) s = (if s \<in> {COMPLETED, FAILED} then None else Some CANCELED)"
| "job_spec (Complete _) s = (if s \<in> {RUNNING, COMPLETED} then Some COMPLETED else None)"
| "job_spec (Fail _ _) s = (if s \<in> {RUNNING, FAILED} then Some FAILED else None)"

definition job_synced :: "db \<times> scanjob \<Rightarrow> bool" where
  "job_synced s = (case s of (d, j) \<Rightarrow>
     map_option sj_status (get_job (sj_id j) d) = Some (sj_status j))"

abbreviation job_status :: "db \<times> scanjob \<Rightarrow> status" where
  "job_status s \<equiv> sj_status (snd s)"

lemma get_job_frame: "scanjobs d' = scanjobs d \<Longrightarrow> get_job i d' = get_job i d"
  by (simp add: get_job_def)

lemma sync_save [simp]: "job_synced (save_job j d, j)"
  by (simp add: job_synced_def get_job_save_job)

lemma copy_scan_details_status:
  "copy_scan_details j d = (d', j') \<Longrightarrow> sj_status j' = sj_status j \<and> sj_id j' = sj_id j \<and>
     (job_synced (d, j) \<longrightarrow> job_synced (d', j'))"
  by (auto simp: copy_scan_details_def Let_def split: option.splits)

lemma ensure_connection_results_status:
  "ensure_connection_results j d = (d', j') \<Longrightarrow> sj_status j' = sj_status j \<and> sj_id j' = sj_id j"
  by (auto simp: ensure_connection_results_def Let_def split: option.splits)

lemma job_queue_refines:
  assumes "job_queue j d = (d', j')"
  shows "sj_id j' = sj_id j \<and>
    (case job_spec Queue (sj_status j) of
       None \<Rightarrow> sj_status j' = sj_status j \<and> (job_synced (d, j) \<longrightarrow> job_synced (d', j'))
     | Some s \<Rightarrow> sj_status j' = s \<and> job_synced (d', j'))"
proof -
  obtain d1 j1 where c: "copy_scan_details j d = (d1, j1)" by fastforce
  obtain d2 j2 where e: "ensure_connection_results j1 d1 = (d2, j2)" by fastforce
  note facts = copy_scan_details_status [OF c] ensure_connection_results_status [OF e]
  show ?thesis
    using assms facts
    by (auto simp: job_queue_def c e validate_status_change_def Let_def split: if_splits)
qed

lemmas job_ops =
  job_status_start_def job_status_restart_def job_status_pause_def job_status_cancel_def
  job_status_complete_def job_status_fail_def

lemma job_synced_scanjobs:
  "scanjobs d' = scanjobs d \<Longrightarrow> sj_id j' = sj_id j \<Longrightarrow> sj_status j' = sj_status j \<Longrightarrow>
     job_synced (d', j') = job_synced (d, j)"
  by (simp add: job_synced_def get_job_def)

lemma job_change_refines:
  assumes "job_step e (d, j) = ((d', j'), ok)" and "e \<noteq> Queue"
  shows "sj_id j' = sj_id j \<and>
    (case job_spec e (sj_status j) of
       None \<Rightarrow> \<not> ok \<and> d' = d \<and> sj_status j' = sj_status j
     | Some s \<Rightarrow> ok \<and> sj_status j' = s \<and> job_synced (d', j'))"
  using assms
  by (cases e; cases "sj_status j")
    (auto simp: job_ops pack_def validate_status_change_def Let_def)

lemma job_step_refines:
  assumes "job_step e (d, j) = ((d', j'), ok)"
  shows "sj_id j' = sj_id j \<and> (job_synced (d, j) \<longrightarrow> job_synced (d', j')) \<and>
    (case job_spec e (sj_status j) of
       None \<Rightarrow> \<not> ok \<and> sj_status j' = sj_status j
     | Some s \<Rightarrow> ok \<and> sj_status j' = s \<and> job_synced (d', j'))"
proof (cases "e = Queue")
  case True
  then show ?thesis
    using assms job_queue_refines [of j d d' j']
    by (cases "sj_status j") (auto simp: validate_status_change_def)
next
  case False
  from job_change_refines [OF assms False] show ?thesis
    by (auto simp: job_synced_def split: option.splits)
qed

lemma job_spec_terminal: "terminal s \<Longrightarrow> job_spec e s = Some s' \<Longrightarrow> s' = s"
  by (cases e; cases s) auto

interpretation job_machine: status_machine job_step job_status terminal job_synced
proof
  fix e :: job_event and s :: "db \<times> scanjob"
  obtain d j d' j' ok where s: "s = (d, j)" and r: "job_step e (d, j) = ((d', j'), ok)"
    by (metis surj_pair)
  note ref = job_step_refines [OF r]
  show "\<not> snd (job_step e s) \<Longrightarrow> job_status (fst (job_step e s)) = job_status s"
    using ref by (auto simp: s r split: option.splits)
  show "terminal (job_status s) \<Longrightarrow> job_status (fst (job_step e s)) = job_status s"
    using ref job_spec_terminal [of "sj_status j" e] by (auto simp: s r split: option.splits)
  show "job_synced s \<Longrightarrow> job_synced (fst (job_step e s))"
    using ref by (simp add: s r)
qed

lemma job_run_id:
  "sj_id (snd (fold (\<lambda>e s. fst (job_step e s)) es s)) = sj_id (snd s)"
proof (induction es arbitrary: s)
  case Nil
  then show ?case by simp
next
  case (Cons e es)
  obtain d j d' j' ok where s: "s = (d, j)" and r: "job_step e (d, j) = ((d', j'), ok)"
    by (metis surj_pair)
  show ?case
    using Cons.IH [of "(d', j')"] job_step_refines [OF r] by (simp add: s r)
qed

section \<open>Tasks after queueing and canceling\<close>

lemma queue_steps_frame:
  "sources (delete_inspect_results i j d) = sources d"
  "job_sources (delete_inspect_results i j d) = job_sources d"
  "scantasks (delete_inspect_results i j d) = scantasks d"
  "sources (delete_tasks n d) = sources d"
  "job_sources (delete_tasks n d) = job_sources d"
  "scantasks (delete_tasks n d) = filter (\<lambda>t. st_job t \<noteq> n) (scantasks d)"
  "sources (delete_task_results c d) = sources d"
  "job_sources (delete_task_results c d) = job_sources d"
  "scantasks (delete_task_results c d) = scantasks d"
  "sources (delete_fingerprints j d) = sources d"
  "job_sources (delete_fingerprints j d) = job_sources d"
  "scantasks (delete_fingerprints j d) = scantasks d"
  "scantasks (mark_most_recent j d) = scantasks d"
  by (simp_all add: delete_inspect_results_def delete_tasks_def delete_task_results_def
      delete_fingerprints_def mark_most_recent_def Let_def split: option.splits)

lemma ensure_connection_results_frame:
  "ensure_connection_results j d = (d', j') \<Longrightarrow>
     sources d' = sources d \<and> job_sources d' = job_sources d \<and> scantasks d' = scantasks d \<and>
     sj_scan_type j' = sj_scan_type j"
  by (auto simp: ensure_connection_results_def save_job_def Let_def split: option.splits)

lemma copy_scan_details_tasks:
  "copy_scan_details j d = (d', j') \<Longrightarrow> scantasks d' = scantasks d"
  by (auto simp: copy_scan_details_def Let_def split: option.splits)

text \<open>The shape of the tasks of a freshly queued job that scans the given sources.\<close>

definition queued_tasks :: "nat \<Rightarrow> source list \<Rightarrow> scantask list \<Rightarrow> bool" where
  "queued_tasks i src ts \<longleftrightarrow>
     (if src = [] then ts = []
      else map st_source (butlast ts) = map (\<lambda>s. Some (so_id s)) src \<and>
        map st_sequence_number ts = [0..<length src] @ [length src + 1] \<and>
        list_all (\<lambda>t. st_job t = i \<and> st_status t = PENDING) ts \<and>
        list_all (\<lambda>t. st_scan_type t = SCAN_TYPE_INSPECT \<and> st_prerequisites t = []) (butlast ts) \<and>
        st_scan_type (last ts) = SCAN_TYPE_FINGERPRINT \<and>
        st_prerequisites (last ts) = map st_id (butlast ts) \<and>
        distinct (map st_id ts))"

lemma create_pending_tasks_shape:
  assumes "sj_scan_type j = SCAN_TYPE_INSPECT" and "job_source_rows (sj_id j) d = src"
  shows "\<exists>ts. scantasks (create_pending_tasks j d) = scantasks d @ ts \<and> queued_tasks (sj_id j) src ts
    \<and> (\<forall>t \<in> set ts. st_job t = sj_id j)"
proof -
  obtain d' ts where c: "create_tasks_for j 0 src d = (d', ts)" by fastforce
  note res = create_tasks_for_result [OF c]
  have len: "length ts = length src"
    using res by (metis length_map)
  let ?fp = "new_task (next_id d') (sj_id j) SCAN_TYPE_FINGERPRINT (length ts + 1) None None (map st_id ts)"
  show ?thesis
  proof (cases "src = []")
    case True
    with c show ?thesis
      using assms by (simp add: create_pending_tasks_def create_inspection_tasks_def queued_tasks_def
          create_fingerprint_task_def)
  next
    case False
    then have "ts \<noteq> []" using len by auto
    then have "scantasks (create_pending_tasks j d) = scantasks d @ ts @ [?fp]"
      using assms c res
      by (simp add: create_pending_tasks_def create_inspection_tasks_def create_fingerprint_task_def Let_def)
    moreover have "queued_tasks (sj_id j) src (ts @ [?fp])"
      using res len False by (auto simp: queued_tasks_def new_task_def list_all_iff)
    ultimately show ?thesis
      using res by (intro exI [of _ "ts @ [?fp]"]) (auto simp: new_task_def)
  qed
qed

lemma job_queue_tasks:
  assumes "copy_scan_details j d = (d1, j1)" and "sj_status j = CREATED"
    and "sj_scan_type j1 = SCAN_TYPE_INSPECT" and "job_queue j d = (d', j')"
  shows "queued_tasks (sj_id j) (job_source_rows (sj_id j) d1) (job_tasks (sj_id j) d')
    \<and> (\<forall>i. i \<noteq> sj_id j \<longrightarrow> job_tasks i d' = job_tasks i d)"
proof -
  obtain d2 j2 where e: "ensure_connection_results j1 d1 = (d2, j2)" by fastforce
  note facts = copy_scan_details_status [OF assms(1)] ensure_connection_results_status [OF e]
    ensure_connection_results_frame [OF e] copy_scan_details_tasks [OF assms(1)]
  let ?d6 = "delete_fingerprints j2 (delete_task_results (sj_connection_results j2)
    (delete_tasks (sj_id j2) (delete_inspect_results None j2 d2)))"
  have old: "scantasks ?d6 = filter (\<lambda>t. st_job t \<noteq> sj_id j) (scantasks d)"
    using facts by (simp add: queue_steps_frame)
  have src: "job_source_rows (sj_id j2) ?d6 = job_source_rows (sj_id j) d1"
    using facts by (simp add: job_source_rows_def queue_steps_frame)
  have "sj_scan_type j2 = SCAN_TYPE_INSPECT" using facts assms(3) by simp
  from create_pending_tasks_shape [OF this src] obtain ts where
    new: "scantasks (create_pending_tasks j2 ?d6) = scantasks ?d6 @ ts"
      "queued_tasks (sj_id j2) (job_source_rows (sj_id j) d1) ts" "\<forall>t \<in> set ts. st_job t = sj_id j2"
    by blast
  have after: "scantasks d' = scantasks (create_pending_tasks j2 ?d6)"
    using assms facts
    by (simp add: job_queue_def e validate_status_change_def Let_def queue_steps_frame split: if_splits)
      (auto simp: queue_steps_frame)
  have "job_tasks (sj_id j) d' = ts" and "\<And>i. i \<noteq> sj_id j \<Longrightarrow> job_tasks i d' = job_tasks i d"
    using after new facts old
    by (auto simp: job_tasks_def filter_empty_conv filter_id_conv intro!: filter_cong)
  then show ?thesis using new facts by simp
qed

text \<open>A canceled job has no task left to run.\<close>

lemma cancel_tasks:
  assumes "task_rows_ok d" and "job_status_cancel now j d = (d', j', True)"
  shows "scantasks d' =
    map (\<lambda>t. if st_job t = sj_id j \<and> \<not> terminal (st_status t)
             then t\<lparr>st_end_time := Some now, st_status := CANCELED,
                    st_status_message := Some ''Task is canceled.''\<rparr>
             else t) (scantasks d)"
proof -
  let ?f = "\<lambda>t. t\<lparr>st_end_time := Some now, st_status := CANCELED,
    st_status_message := Some ''Task is canceled.''\<rparr>"
  have step: "(\<lambda>t e. fst (task_status_cancel now t e)) = (\<lambda>t. save_task (?f t))"
    by (intro ext) (simp add: task_status_cancel_def Let_def)
  have unf: "unfinished_tasks i d = filter (\<lambda>t. \<not> terminal (st_status t)) (job_tasks i d)" for i
    by (auto simp: unfinished_tasks_def terminal_def intro: filter_cong)
  have "fold (\<lambda>t. save_task (?f t)) (filter (\<lambda>t. \<not> terminal (st_status t)) (job_tasks (sj_id j) d)) d =
    d\<lparr>scantasks := map (\<lambda>t. if st_job t = sj_id j \<and> \<not> terminal (st_status t) then ?f t else t)
      (scantasks d)\<rparr>"
    using assms(1) by (intro save_selected_tasks) simp_all
  then show ?thesis
    using assms(2) by (auto simp: job_status_cancel_def Let_def step unf split: if_splits)
qed

section \<open>Properties\<close>

text \<open>
  C1. The seven status methods of a job implement the intended life cycle: from a job whose
  stored status is the one in memory, a method makes exactly the change the specification
  allows, reports whether it did, writes the new status to the database, and otherwise leaves
  the status as it was.
\<close>

theorem job_implements_life_cycle:
  assumes "job_synced (d, j)"
  shows "case job_step e (d, j) of ((d', j'), ok) \<Rightarrow>
    job_synced (d', j') \<and> sj_id j' = sj_id j \<and> ok = (job_spec e (sj_status j) \<noteq> None) \<and>
    sj_status j' = (case job_spec e (sj_status j) of None \<Rightarrow> sj_status j | Some s \<Rightarrow> s)"
proof -
  obtain d' j' ok where r: "job_step e (d, j) = ((d', j'), ok)" by (metis surj_pair)
  from job_step_refines [OF r] assms show ?thesis
    by (auto simp: r split: option.splits)
qed

definition sample_job :: scanjob where
  "sample_job = \<lparr>sj_id = 1, sj_scan_type = SCAN_TYPE_INSPECT, sj_status = RUNNING,
     sj_status_message = None, sj_start_time = Some 5, sj_end_time = None, sj_scan = None,
     sj_connection_results = None, sj_report = None\<rparr>"

definition sample_db :: db where
  "sample_db = empty_db\<lparr>scanjobs := [sample_job],
     sources := [\<lparr>so_id = 2, so_name = ''lab'', so_source_type = ''network'', so_port = Some 22,
                  so_credentials = [5], so_hosts = [''10.0.0.0/30''], so_exclude_hosts = [],
                  so_most_recent_connect_scan = None\<rparr>,
                 \<lparr>so_id = 3, so_name = ''vc'', so_source_type = ''vcenter'', so_port = Some 443,
                  so_credentials = [6], so_hosts = [''vc.example.com''], so_exclude_hosts = [],
                  so_most_recent_connect_scan = None\<rparr>],
     job_sources := [(1, 2), (1, 3)],
     scantasks := [sample_task, sample_task\<lparr>st_id := 8, st_status := COMPLETED\<rparr>], next_id := 9\<rparr>"

lemma sample_job_synced: "job_synced (sample_db, sample_job)"
  by (simp add: job_synced_def sample_db_def sample_job_def get_job_def row_get_def)

theorem job_implements_life_cycle_witness:
  "case job_step (Complete 9) (sample_db, sample_job) of ((d', j'), ok) \<Rightarrow>
    job_synced (d', j') \<and> sj_id j' = 1 \<and> ok \<and> sj_status j' = COMPLETED"
  using job_implements_life_cycle [OF sample_job_synced, of "Complete 9"]
  by (auto simp: sample_job_def split: prod.splits)



text \<open>
  C17. Queueing a new inspection job replaces its tasks by exactly one pending inspection task per
  source of the job, numbered in order from 0, followed by one pending fingerprint task whose
  prerequisites are all of them (and by no task at all when there is no source); the tasks of
  other jobs are not touched.
\<close>

theorem queue_creates_tasks:
  assumes "copy_scan_details j d = (d1, j1)" and "sj_status j = CREATED"
    and "sj_scan_type j1 = SCAN_TYPE_INSPECT"
  shows "queued_tasks (sj_id j) (job_source_rows (sj_id j) d1) (job_tasks (sj_id j) (fst (job_queue j d)))
    \<and> (\<forall>i. i \<noteq> sj_id j \<longrightarrow> job_tasks i (fst (job_queue j d)) = job_tasks i d)"
  using job_queue_tasks [OF assms, of "fst (job_queue j d)" "snd (job_queue j d)"] by simp

theorem queue_creates_tasks_witness:
  "queued_tasks 1 [\<lparr>so_id = 2, so_name = ''lab'', so_source_type = ''network'', so_port = Some 22,
                  so_credentials = [5], so_hosts = [''10.0.0.0/30''], so_exclude_hosts = [],
                  so_most_recent_connect_scan = None\<rparr>,
                 \<lparr>so_id = 3, so_name = ''vc'', so_source_type = ''vcenter'', so_port = Some 443,
                  so_credentials = [6], so_hosts = [''vc.example.com''], so_exclude_hosts = [],
                  so_most_recent_connect_scan = None\<rparr>]
     (job_tasks 1 (fst (job_queue (sample_job\<lparr>sj_status := CREATED\<rparr>) sample_db)))"
proof -
  let ?j = "sample_job\<lparr>sj_status := CREATED\<rparr>"
  have c: "copy_scan_details ?j sample_db = (sample_db, ?j)"
    by (simp add: copy_scan_details_def sample_job_def)
  have s: "sj_status ?j = CREATED" by simp
  have ty: "sj_scan_type ?j = SCAN_TYPE_INSPECT" by (simp add: sample_job_def)
  have id: "sj_id ?j = 1" by (simp add: sample_job_def)
  have src: "job_source_rows 1 sample_db = [\<lparr>so_id = 2, so_name = ''lab'', so_source_type = ''network'', so_port = Some 22,
                  so_credentials = [5], so_hosts = [''10.0.0.0/30''], so_exclude_hosts = [],
                  so_most_recent_connect_scan = None\<rparr>,
                 \<lparr>so_id = 3, so_name = ''vc'', so_source_type = ''vcenter'', so_port = Some 443,
                  so_credentials = [6], so_hosts = [''vc.example.com''], so_exclude_hosts = [],
                  so_most_recent_connect_scan = None\<rparr>]"
    by (simp add: job_source_rows_def sample_db_def)
  from queue_creates_tasks [OF c s ty] show ?thesis unfolding id src by blast
qed




definition sample_shared :: db where
  "sample_shared = sample_results\<lparr>
     scanjobs := [sample_job, sample_job\<lparr>sj_id := 11, sj_report := Some 12\<rparr>],
     reports := [\<lparr>re_id = 12, re_origin = MERGED, re_inspect_groups = [3],
                  re_deployment_report = None\<rparr>]\<rparr>"


end
