(* ===== verification/Scan_Runner.thy ===== *)
theory Scan_Runner
  imports Scan_Job
begin

text \<open>
  Running a job: \<open>scanner/runner.py\<close>, \<open>scanner/job.py\<close>, \<open>scanner/tasks.py\<close>,
  \<open>scanner/manager.py\<close> and \<open>api/signal/scanjob_signal.py\<close>.

  The abstract method \<open>execute_task\<close> of a task runner is a parameter \<open>execute\<close>: it gets the job
  and task instances and the database and ends with a message and a status, a
  \<open>ScanFailureError\<close>, or another exception. A Celery task returns the database and its value or
  exception. What Celery and Redis hold is the record \<open>celery\<close>: the cache that maps a job's key
  to the id of its Celery chain, and the ids revoked at the worker.

  The chain a job runs (a group of one chain per source, then the fingerprint task, then
  \<open>finalize_scan\<close>) is a value \<open>plan\<close>; \<open>celery_step\<close> is the relation of its possible executions,
  one Celery task at a time in any order of the sources, with cancel requests in between.
\<close>

section \<open>Task runners\<close>

datatype outcome = Finished string status | Scan_failure string | Crash exn string

type_synonym execute = "scanjob \<Rightarrow> scantask \<Rightarrow> db \<Rightarrow> db \<times> scanjob \<times> scantask \<times> outcome"

definition runner_run :: "execute \<Rightarrow> execute" where
  "runner_run execute j t d =
     (case execute j t d of (d', j', t', out) \<Rightarrow>
        (d', j', t', case out of Scan_failure m \<Rightarrow> Finished m FAILED | _ \<Rightarrow> out))"

fun show_status :: "status \<Rightarrow> string" where
  "show_status CREATED = ''created''"
| "show_status PENDING = ''pending''"
| "show_status RUNNING = ''running''"
| "show_status PAUSED = ''paused''"
| "show_status CANCELED = ''canceled''"
| "show_status COMPLETED = ''completed''"
| "show_status FAILED = ''failed''"

definition bad_status_message :: "scantask \<Rightarrow> status \<Rightarrow> string \<Rightarrow> string" where
  "bad_status_message t s m =
     ''ScanTask '' @ show_nat (st_sequence_number t) @ '' failed. Scan task must return'' @
     '' ScanTask.COMPLETED or ScanTask.FAILED. ScanTask returned'' @
     '' \"'' @ show_status s @ ''\" and the following status message: '' @ m"

text \<open>\<open>context\<close> renders the job, the task, its source and the credentials for the message of an
  unexpected failure. A task whose source was deleted fails while the message is built.\<close>

definition run_task_runner ::
  "execute \<Rightarrow> (scanjob \<Rightarrow> scantask \<Rightarrow> string) \<Rightarrow> nat \<Rightarrow> scanjob \<Rightarrow> scantask \<Rightarrow> db
     \<Rightarrow> db \<times> scanjob \<times> status res"
where
  "run_task_runner execute context_msg now j t d =
     (case task_status_start now t d of (d1, t1) \<Rightarrow>
      (case runner_run execute j t1 d1 of (d2, j2, t2, out) \<Rightarrow>
       (case out of
          Crash e m \<Rightarrow>
            if st_scan_type t2 \<noteq> SCAN_TYPE_FINGERPRINT \<and> st_source t2 = None
            then (d2, j2, Raise AttributeError)
            else
              (case task_status_fail now (Some (context_msg j2 t2)) t2 d2 of (d3, _) \<Rightarrow>
               (case job_status_fail now (''FATAL ERROR. '' @ m) j2 d3 of (d4, j4, _) \<Rightarrow>
                  (d4, j4, Raise e)))
        | Scan_failure m \<Rightarrow> (d2, j2, Return FAILED)
        | Finished m s \<Rightarrow>
            (case s of
               CANCELED \<Rightarrow> (fst (task_status_cancel now t2 d2), j2, Return CANCELED)
             | PAUSED \<Rightarrow> (fst (task_status_pause t2 d2), j2, Return PAUSED)
             | COMPLETED \<Rightarrow>
                 (case task_status_complete now (Some m) t2 d2 of
                    Raise e \<Rightarrow> (d2, j2, Raise e)
                  | Return (d3, _) \<Rightarrow> (d3, j2, Return COMPLETED))
             | FAILED \<Rightarrow> (fst (task_status_fail now (Some m) t2 d2), j2, Return FAILED)
             | _ \<Rightarrow>
                 (fst (task_status_fail now (Some (bad_status_message t2 s m)) t2 d2), j2,
                  Return FAILED)))))"

section \<open>The report of a job\<close>

definition create_report_for_scan_job ::
  "scanjob \<Rightarrow> db \<Rightarrow> db \<times> scanjob \<times> nat option \<times> string option"
where
  "create_report_for_scan_job j d =
     (let inspect = filter (\<lambda>t. st_scan_type t = SCAN_TYPE_INSPECT) (job_tasks (sj_id j) d);
          successful_connections = sum_list (map st_systems_scanned inspect)
      in if successful_connections = 0
         then (d, j, None, Some ''No facts gathered from scan.'')
         else
           (let r = next_id d;
                rep = \<lparr>re_id = r, re_origin = LOCAL, re_inspect_groups = [],
                       re_deployment_report = None\<rparr>;
                j' = j\<lparr>sj_report := Some r\<rparr>;
                d' = save_job j' (d\<lparr>reports := reports d @ [rep], next_id := r + 1\<rparr>);
                gs = map ig_id (filter (\<lambda>g. list_ex (\<lambda>t. st_job t = sj_id j \<and>
                       st_id t \<in> set (ig_tasks g)) (scantasks d')) (inspect_groups d'))
            in (set_inspect_groups r gs d', j', Some r, None)))"

section \<open>Celery tasks\<close>

record celery =
  cache :: "(string \<times> string) list"
  revoked :: "string list"

definition scan_job_celery_task_id_key :: "nat \<Rightarrow> string" where
  "scan_job_celery_task_id_key i = ''scan-job-'' @ show_nat i @ ''-celery-task-id''"

definition get_scan_job_celery_task_id :: "nat \<Rightarrow> celery \<Rightarrow> string option" where
  "get_scan_job_celery_task_id i c = map_of (cache c) (scan_job_celery_task_id_key i)"

definition set_scan_job_celery_task_id :: "nat \<Rightarrow> string \<Rightarrow> celery \<Rightarrow> celery" where
  "set_scan_job_celery_task_id i v c =
     c\<lparr>cache := AList.update (scan_job_celery_task_id_key i) v (cache c)\<rparr>"

definition celery_task_is_revoked :: "string \<Rightarrow> celery \<Rightarrow> bool" where
  "celery_task_is_revoked i c \<longleftrightarrow> i \<in> set (revoked c)"

definition scan_job_is_canceled :: "nat \<Rightarrow> celery \<Rightarrow> bool" where
  "scan_job_is_canceled i c =
     (case get_scan_job_celery_task_id i c of
        None \<Rightarrow> False
      | Some x \<Rightarrow> celery_task_is_revoked x c)"

definition get_scanner :: "string \<Rightarrow> string res" where
  "get_scanner data_source =
     (if data_source \<in> {''network'', ''vcenter'', ''satellite'', ''openshift'', ''ansible'', ''rhacs''}
      then Return (''scanner.'' @ data_source) else Raise NotImplementedError)"

definition get_task_runner_class :: "string \<Rightarrow> scan_type \<Rightarrow> string res" where
  "get_task_runner_class source_type ty =
     (if ty = SCAN_TYPE_INSPECT
      then bind_res (get_scanner source_type) (\<lambda>m. Return (m @ ''.InspectTaskRunner''))
      else Raise NotImplementedError)"

type_synonym task_value = "bool \<times> nat \<times> status"

text \<open>The decorator: an unexpected exception fails the stored task and becomes a value.\<close>

definition set_scan_task_failure_on_exception ::
  "nat \<Rightarrow> string \<Rightarrow> nat \<Rightarrow> (db \<Rightarrow> db \<times> task_value res) \<Rightarrow> db \<Rightarrow> db \<times> task_value res"
where
  "set_scan_task_failure_on_exception now func_name scan_task_id func d =
     (if scan_task_id = 0 then (d, Raise NotImplementedError)
      else
        (case func d of
           (d1, Return v) \<Rightarrow> (d1, Return v)
         | (d1, Raise _) \<Rightarrow>
             (let d2 = (case get_task scan_task_id d1 of
                          None \<Rightarrow> d1
                        | Some t \<Rightarrow>
                            fst (task_status_fail now (Some (''Unexpected failure in '' @ func_name @
                              ''. Check logs for details.'')) t d1))
              in (d2, Return (False, scan_task_id, FAILED)))))"

definition set_scan_job_failure_on_exception ::
  "nat \<Rightarrow> string \<Rightarrow> nat \<Rightarrow> (db \<Rightarrow> db \<times> unit res) \<Rightarrow> db \<Rightarrow> db \<times> unit res"
where
  "set_scan_job_failure_on_exception now func_name scan_job_id func d =
     (if scan_job_id = 0 then (d, Raise NotImplementedError)
      else
        (case func d of
           (d1, Return v) \<Rightarrow> (d1, Return v)
         | (d1, Raise _) \<Rightarrow>
             (let d2 = (case get_job scan_job_id d1 of
                          None \<Rightarrow> d1
                        | Some j \<Rightarrow>
                            fst (job_status_fail now (''Unexpected failure in '' @ func_name @
                              ''. Check logs for details.'') j d1))
              in (d2, Return ()))))"

definition run_task_runner_task ::
  "(string \<Rightarrow> execute) \<Rightarrow> (scanjob \<Rightarrow> scantask \<Rightarrow> string) \<Rightarrow> nat \<Rightarrow> celery \<Rightarrow> nat \<Rightarrow> string \<Rightarrow> scan_type
     \<Rightarrow> db \<Rightarrow> db \<times> task_value res"
where
  "run_task_runner_task execute ctx now c scan_task_id source_type ty d =
     (case get_task scan_task_id d of
        None \<Rightarrow> (d, Raise DoesNotExist)
      | Some t \<Rightarrow>
          (case get_task_runner_class source_type ty of
             Raise e \<Rightarrow> (d, Raise e)
           | Return cls \<Rightarrow>
               (case get_job (st_job t) d of
                  None \<Rightarrow> (d, Raise DoesNotExist)
                | Some j \<Rightarrow>
                    if scan_job_is_canceled (sj_id j) c
                    then (d, Return (False, scan_task_id, CANCELED))
                    else
                      (case run_task_runner (execute cls) ctx now j t d of
                         (d', _, Raise e) \<Rightarrow> (d', Raise e)
                       | (d', _, Return s) \<Rightarrow> (d', Return (s = COMPLETED, scan_task_id, s))))))"

definition celery_run_task_runner ::
  "(string \<Rightarrow> execute) \<Rightarrow> (scanjob \<Rightarrow> scantask \<Rightarrow> string) \<Rightarrow> nat \<Rightarrow> celery \<Rightarrow> nat \<Rightarrow> string \<Rightarrow> scan_type
     \<Rightarrow> db \<Rightarrow> db \<times> task_value res"
where
  "celery_run_task_runner execute ctx now c i source_type ty =
     set_scan_task_failure_on_exception now ''celery_run_task_runner'' i
       (run_task_runner_task execute ctx now c i source_type ty)"

text \<open>The part of \<open>_fingerprint\<close> after the job instance was loaded.\<close>

definition fingerprint_loaded ::
  "execute \<Rightarrow> (scanjob \<Rightarrow> scantask \<Rightarrow> string) \<Rightarrow> nat \<Rightarrow> celery \<Rightarrow> scantask \<Rightarrow> scanjob \<Rightarrow> db
     \<Rightarrow> db \<times> task_value res"
where
  "fingerprint_loaded execute ctx now c t j d =
     (let (d1, j1, report, msg) =
        (case sj_report j of
           Some r \<Rightarrow> (d, j, Some r, None)
         | None \<Rightarrow> create_report_for_scan_job j d)
      in case report of
           None \<Rightarrow>
             (fst (job_status_fail now (case msg of None \<Rightarrow> [] | Some m \<Rightarrow> m) j1 d1),
              Return (False, st_id t, FAILED))
         | Some r \<Rightarrow>
             (let j2 = j1\<lparr>sj_report := Some r\<rparr>; d2 = save_job j2 d1
              in case run_task_runner execute ctx now j2 t d2 of
                   (d3, _, Raise e) \<Rightarrow> (d3, Raise e)
                 | (d3, _, Return s) \<Rightarrow> (d3, Return (s = COMPLETED, st_id t, s))))"

definition fingerprint_task ::
  "execute \<Rightarrow> (scanjob \<Rightarrow> scantask \<Rightarrow> string) \<Rightarrow> nat \<Rightarrow> celery \<Rightarrow> nat \<Rightarrow> db \<Rightarrow> db \<times> task_value res"
where
  "fingerprint_task execute ctx now c scan_task_id d =
     (case get_task scan_task_id d of
        None \<Rightarrow> (d, Raise DoesNotExist)
      | Some t \<Rightarrow>
          (case get_job (st_job t) d of
             None \<Rightarrow> (d, Raise DoesNotExist)
           | Some j \<Rightarrow>
               if scan_job_is_canceled (sj_id j) c
               then (fst (job_status_cancel now j d), Return (False, scan_task_id, CANCELED))
               else fingerprint_loaded execute ctx now c t j d))"

definition celery_fingerprint ::
  "execute \<Rightarrow> (scanjob \<Rightarrow> scantask \<Rightarrow> string) \<Rightarrow> nat \<Rightarrow> celery \<Rightarrow> nat \<Rightarrow> db \<Rightarrow> db \<times> task_value res"
where
  "celery_fingerprint execute ctx now c i =
     set_scan_task_failure_on_exception now ''fingerprint'' i (fingerprint_task execute ctx now c i)"

definition finalize_scan_task :: "nat \<Rightarrow> celery \<Rightarrow> nat \<Rightarrow> db \<Rightarrow> db \<times> unit res" where
  "finalize_scan_task now c scan_job_id d =
     (case get_job scan_job_id d of
        None \<Rightarrow> (d, Raise DoesNotExist)
      | Some j \<Rightarrow>
          if scan_job_is_canceled (sj_id j) c then (fst (job_status_cancel now j d), Return ())
          else
            (let tasks_status = map st_status (job_tasks scan_job_id d)
             in if tasks_status = [] then (fst (job_status_complete now j d), Return ())
                else if list_all (\<lambda>s. s = CANCELED) tasks_status
                then (fst (job_status_cancel now j d), Return ())
                else if list_ex (\<lambda>s. s = COMPLETED) tasks_status
                then (fst (job_status_complete now j d), Return ())
                else (fst (job_status_fail now ''None of the tasks completed'' j d), Return ())))"

definition finalize_scan :: "nat \<Rightarrow> celery \<Rightarrow> nat \<Rightarrow> db \<Rightarrow> db \<times> unit res" where
  "finalize_scan now c i =
     set_scan_job_failure_on_exception now ''finalize_scan'' i (finalize_scan_task now c i)"

section \<open>The plan of a job\<close>

record plan =
  pl_chains :: "(nat \<times> (nat \<times> string) list) list"
  pl_fingerprint :: "nat option"
  pl_finalize :: nat

text \<open>The signature of one inspection task: its source, its key and its source type.\<close>

definition task_signature :: "db \<Rightarrow> scantask \<Rightarrow> (nat \<times> nat \<times> string) res" where
  "task_signature d t =
     (case Option.bind (st_source t) (\<lambda>i. row_get so_id i (sources d)) of
        None \<Rightarrow> Raise AttributeError
      | Some s \<Rightarrow> Return (so_id s, st_id t, so_source_type s))"

definition by_source :: "(nat \<times> nat \<times> string) list \<Rightarrow> (nat \<times> (nat \<times> string) list) list" where
  "by_source sigs = fold (\<lambda>(s, x) acc. AList.update s (dget acc s [] @ [x]) acc) sigs []"

definition incomplete :: "scantask \<Rightarrow> bool" where
  "incomplete t \<longleftrightarrow> st_status t \<in> {RUNNING, PENDING}"

definition job_plan :: "nat \<Rightarrow> db \<Rightarrow> plan res" where
  "job_plan i d =
     (let todo = filter (\<lambda>t. incomplete t \<and> st_scan_type t = SCAN_TYPE_INSPECT) (job_tasks i d);
          ordered = sort_key (\<lambda>t. case st_source t of None \<Rightarrow> 0 | Some s \<Rightarrow> s)
                      (sort_key st_sequence_number todo);
          fp = find (\<lambda>t. incomplete t \<and> st_scan_type t = SCAN_TYPE_FINGERPRINT) (job_tasks i d)
      in bind_res (map_res (task_signature d) ordered) (\<lambda>sigs.
           Return \<lparr>pl_chains = by_source sigs, pl_fingerprint = map_option st_id fp,
                   pl_finalize = i\<rparr>))"

text \<open>\<open>None\<close> when the job could not be started.\<close>

definition job_runner_run :: "nat \<Rightarrow> scanjob \<Rightarrow> db \<Rightarrow> db \<times> scanjob \<times> plan option res" where
  "job_runner_run now j d =
     (case job_status_start now j d of
        (d1, j1, False) \<Rightarrow>
          (case job_status_fail now ''ScanJob failed to transition to running state.'' j1 d1 of
             (d2, j2, _) \<Rightarrow> (d2, j2, Return None))
      | (d1, j1, True) \<Rightarrow> (d1, j1, bind_res (job_plan (sj_id j) d1) (\<lambda>p. Return (Some p))))"

section \<open>The manager and the signals\<close>

text \<open>\<open>kill\<close> sets the status of task instances it does not save.\<close>

definition kill :: "nat \<Rightarrow> scanjob \<Rightarrow> db \<Rightarrow> celery \<Rightarrow> db \<times> scanjob \<times> celery \<times> bool" where
  "kill now j d c =
     (case job_status_cancel now j d of (d1, j1, _) \<Rightarrow>
        (case get_scan_job_celery_task_id (sj_id j) c of
           None \<Rightarrow> (d1, j1, c, False)
         | Some x \<Rightarrow> (d1, j1, c\<lparr>revoked := x # revoked c\<rparr>, True)))"

text \<open>\<open>chain_id\<close> is the id Celery gives the chain. A job that did not start stores \<open>str(None)\<close>.\<close>

definition put ::
  "nat \<Rightarrow> string \<Rightarrow> scanjob \<Rightarrow> db \<Rightarrow> celery \<Rightarrow> db \<times> scanjob \<times> celery \<times> plan option res" where
  "put now chain_id j d c =
     (case job_runner_run now j d of
        (d1, j1, Raise e) \<Rightarrow> (d1, j1, c, Raise e)
      | (d1, j1, Return None) \<Rightarrow>
          (d1, j1, set_scan_job_celery_task_id (sj_id j) ''None'' c, Return None)
      | (d1, j1, Return (Some p)) \<Rightarrow>
          (d1, j1, set_scan_job_celery_task_id (sj_id j) chain_id c, Return (Some p)))"

definition handle_scan ::
  "nat \<Rightarrow> string \<Rightarrow> scanjob \<Rightarrow> db \<Rightarrow> celery \<Rightarrow> db \<times> scanjob \<times> celery \<times> plan option res" where
  "handle_scan now chain_id j d c = (case job_queue j d of (d1, j1) \<Rightarrow> put now chain_id j1 d1 c)"

datatype action = PAUSE_ACTION | CANCEL_ACTION | RESTART_ACTION

definition scan_action :: "nat \<Rightarrow> action \<Rightarrow> scanjob \<Rightarrow> db \<Rightarrow> celery \<Rightarrow> db \<times> scanjob \<times> celery" where
  "scan_action now a j d c =
     (if a \<in> {PAUSE_ACTION, CANCEL_ACTION}
      then (case kill now j d c of (d1, j1, c1, _) \<Rightarrow> (d1, j1, c1))
      else (d, j, c))"

definition scan_pause :: "nat \<Rightarrow> scanjob \<Rightarrow> db \<Rightarrow> celery \<Rightarrow> db \<times> scanjob \<times> celery" where
  "scan_pause now = scan_action now PAUSE_ACTION"

definition scan_cancel :: "nat \<Rightarrow> scanjob \<Rightarrow> db \<Rightarrow> celery \<Rightarrow> db \<times> scanjob \<times> celery" where
  "scan_cancel now = scan_action now CANCEL_ACTION"

definition scan_restart ::
  "nat \<Rightarrow> string \<Rightarrow> scanjob \<Rightarrow> db \<Rightarrow> celery \<Rightarrow> db \<times> scanjob \<times> celery \<times> plan option res" where
  "scan_restart now chain_id j d c = put now chain_id j d c"

section \<open>Executions of a plan\<close>

record sys =
  sys_db :: db
  sys_celery :: celery
  sys_chains :: "(nat \<times> string) list list"
  sys_fingerprint :: "nat option"
  sys_finalize :: "nat option"

definition start_sys :: "db \<Rightarrow> celery \<Rightarrow> plan \<Rightarrow> sys" where
  "start_sys d c p = \<lparr>sys_db = d, sys_celery = c, sys_chains = map snd (pl_chains p),
     sys_fingerprint = pl_fingerprint p, sys_finalize = Some (pl_finalize p)\<rparr>"

inductive celery_step ::
  "(string \<Rightarrow> execute) \<Rightarrow> execute \<Rightarrow> (scanjob \<Rightarrow> scantask \<Rightarrow> string) \<Rightarrow> nat \<Rightarrow> sys \<Rightarrow> sys \<Rightarrow> bool"
  for execute fp_execute ctx job
where
  inspect: "i < length (sys_chains s) \<Longrightarrow> sys_chains s ! i = (t, ty) # rest \<Longrightarrow>
    celery_run_task_runner execute ctx now (sys_celery s) t ty SCAN_TYPE_INSPECT (sys_db s)
      = (d', Return (ok, v)) \<Longrightarrow>
    celery_step execute fp_execute ctx job s
      (s\<lparr>sys_db := d', sys_chains := (sys_chains s)[i := if ok then rest else []]\<rparr>)"
| fingerprint: "list_all (\<lambda>ch. ch = []) (sys_chains s) \<Longrightarrow> sys_fingerprint s = Some t \<Longrightarrow>
    celery_fingerprint fp_execute ctx now (sys_celery s) t (sys_db s) = (d', Return v) \<Longrightarrow>
    celery_step execute fp_execute ctx job s (s\<lparr>sys_db := d', sys_fingerprint := None\<rparr>)"
| finalize: "list_all (\<lambda>ch. ch = []) (sys_chains s) \<Longrightarrow> sys_fingerprint s = None \<Longrightarrow>
    sys_finalize s = Some i \<Longrightarrow>
    finalize_scan now (sys_celery s) i (sys_db s) = (d', Return v) \<Longrightarrow>
    celery_step execute fp_execute ctx job s (s\<lparr>sys_db := d', sys_finalize := None\<rparr>)"
| cancel: "get_job job (sys_db s) = Some j \<Longrightarrow>
    scan_cancel now j (sys_db s) (sys_celery s) = (d', j', c') \<Longrightarrow>
    celery_step execute fp_execute ctx job s (s\<lparr>sys_db := d', sys_celery := c'\<rparr>)"

inductive_cases celery_stepE: "celery_step execute fp_execute ctx job s s'"

section \<open>How the status of a job moves\<close>

text \<open>Between two databases a job keeps its status or goes to a final one.\<close>

definition job_advances :: "nat \<Rightarrow> db \<Rightarrow> db \<Rightarrow> bool" where
  "job_advances i d d' \<longleftrightarrow> (\<forall>j. get_job i d = Some j \<longrightarrow>
     (\<exists>j'. get_job i d' = Some j' \<and>
        (sj_status j' = sj_status j \<or> \<not> terminal (sj_status j) \<and> terminal (sj_status j'))))"

definition job_done :: "nat \<Rightarrow> db \<Rightarrow> bool" where
  "job_done i d \<longleftrightarrow> (\<exists>j. get_job i d = Some j \<and> terminal (sj_status j))"

lemma advances_refl [simp]: "job_advances i d d"
  by (simp add: job_advances_def)

lemma advances_trans: "job_advances i d d1 \<Longrightarrow> job_advances i d1 d2 \<Longrightarrow> job_advances i d d2"
  unfolding job_advances_def by metis

lemma advances_frame: "scanjobs d' = scanjobs d \<Longrightarrow> job_advances i d d'"
  by (simp add: job_advances_def get_job_def)

lemma advances_done: "job_advances i d d' \<Longrightarrow> job_done i d \<Longrightarrow> job_done i d'"
  by (auto simp: job_advances_def job_done_def)

lemma advances_save:
  assumes "get_job (sj_id j) d = Some j0"
    and "sj_status j = sj_status j0 \<or> \<not> terminal (sj_status j0) \<and> terminal (sj_status j)"
  shows "job_advances i d (save_job j d)"
  using assms by (auto simp: job_advances_def get_job_save_job)

lemma advances_save_later:
  assumes "scanjobs d1 = scanjobs d" and "job_advances i d1 d2"
  shows "job_advances i d d2"
  using advances_frame [OF assms(1)] assms(2) by (rule advances_trans)

lemma get_job_scanjobs: "scanjobs d1 = scanjobs d \<Longrightarrow> get_job i d1 = get_job i d"
  by (simp add: get_job_def)

lemma advances_to_final:
  assumes "scanjobs d1 = scanjobs d" and "get_job (sj_id j) d = Some j" and "sj_id j' = sj_id j"
    and "terminal (sj_status j')" and "\<not> terminal (sj_status j) \<or> sj_status j = sj_status j'"
  shows "job_advances i d (save_job j' d1)"
proof (rule advances_save_later [OF assms(1)], rule advances_save)
  show "get_job (sj_id j') d1 = Some j"
    using assms by (simp add: get_job_scanjobs [OF assms(1)])
  show "sj_status j' = sj_status j \<or> \<not> terminal (sj_status j) \<and> terminal (sj_status j')"
    using assms by auto
qed

lemma job_cancel_advances:
  assumes "get_job (sj_id j) d = Some j"
  shows "job_advances i d (fst (job_status_cancel now j d))"
proof (cases "sj_status j \<in> {COMPLETED, FAILED}")
  case True
  then show ?thesis by (auto simp: job_status_cancel_def validate_status_change_def Let_def)
next
  case False
  then have ok: "\<not> terminal (sj_status j) \<or> sj_status j = CANCELED"
    by (cases "sj_status j") auto
  show ?thesis
    using False ok by (cases "sj_status j")
      (simp_all add: job_status_cancel_def validate_status_change_def Let_def
        advances_to_final [OF task_loops_scanjobs(3) assms])
qed

lemma job_complete_advances:
  assumes "get_job (sj_id j) d = Some j"
  shows "job_advances i d (fst (job_status_complete now j d))"
  by (cases "sj_status j")
    (simp_all add: job_status_complete_def validate_status_change_def Let_def
      advances_to_final [OF refl assms])

lemma job_fail_advances:
  assumes "get_job (sj_id j) d = Some j"
  shows "job_advances i d (fst (job_status_fail now m j d))"
  by (cases "sj_status j")
    (simp_all add: job_status_fail_def validate_status_change_def Let_def
      advances_to_final [OF refl assms])

lemmas job_finish_advances = job_cancel_advances job_complete_advances job_fail_advances

lemma job_finish_done:
  assumes "get_job (sj_id j) d = Some j" and "sj_status j = RUNNING \<or> terminal (sj_status j)"
  shows "job_done (sj_id j) (fst (job_status_cancel now j d))"
    "job_done (sj_id j) (fst (job_status_complete now j d))"
    "job_done (sj_id j) (fst (job_status_fail now m j d))"
proof -
  have fin: "job_done (sj_id j) d" if "terminal (sj_status j)"
    using assms(1) that by (simp add: job_done_def)
  show "job_done (sj_id j) (fst (job_status_cancel now j d))"
    using advances_done [OF job_finish_advances(1) [OF assms(1)] fin] assms
    by (auto simp: job_status_cancel_def validate_status_change_def Let_def job_done_def
        get_job_save_job)
  show "job_done (sj_id j) (fst (job_status_complete now j d))"
    using advances_done [OF job_finish_advances(2) [OF assms(1)] fin] assms
    by (auto simp: job_status_complete_def validate_status_change_def Let_def job_done_def
        get_job_save_job)
  show "job_done (sj_id j) (fst (job_status_fail now m j d))"
    using advances_done [OF job_finish_advances(3) [OF assms(1)] fin] assms
    by (auto simp: job_status_fail_def validate_status_change_def Let_def job_done_def
        get_job_save_job)
qed

section \<open>The contract of a task runner\<close>

text \<open>
  \<open>execute_task\<close> writes facts, reports and its own task, and leaves the rows of jobs and the job
  instance it was given alone.
\<close>

locale task_runner =
  fixes execute :: execute
  assumes keeps_jobs: "execute j t d = (d', j', t', out) \<Longrightarrow> scanjobs d' = scanjobs d \<and> j' = j"
begin

lemma run_keeps_jobs:
  "runner_run execute j t d = (d', j', t', out) \<Longrightarrow> scanjobs d' = scanjobs d \<and> j' = j"
  by (auto simp: runner_run_def dest: keeps_jobs split: prod.splits)

lemma run_task_runner_advances:
  assumes "get_job (sj_id j) d = Some j"
  shows "job_advances i d (fst (run_task_runner execute ctx now j t d))"
proof -
  obtain d1 t1 where st: "task_status_start now t d = (d1, t1)" by fastforce
  obtain d2 j2 t2 out where r: "runner_run execute j t1 d1 = (d2, j2, t2, out)"
    by (metis surj_pair)
  have d1: "scanjobs d1 = scanjobs d"
    using st by (auto simp: task_status_start_def Let_def)
  with run_keeps_jobs [OF r] have d2: "scanjobs d2 = scanjobs d" and j2: "j2 = j"
    by simp_all
  have tasks: "scanjobs (fst (task_status_cancel now t2 d2)) = scanjobs d2"
    "scanjobs (fst (task_status_pause t2 d2)) = scanjobs d2"
    "scanjobs (fst (task_status_fail now m t2 d2)) = scanjobs d2"
    "task_status_complete now (Some m') t2 d2 = Return (d3, t3) \<Longrightarrow> scanjobs d3 = scanjobs d2" for m m' d3 t3
    by (auto simp: task_status_cancel_def task_status_pause_def task_status_fail_def
        task_status_complete_def Let_def split: option.splits)
  have crash: "job_advances i d (fst (job_status_fail now m' j (fst (task_status_fail now m t2 d2))))" for m m'
  proof (rule advances_save_later)
    show fr: "scanjobs (fst (task_status_fail now m t2 d2)) = scanjobs d"
      using tasks(3) d2 by simp
    show "job_advances i (fst (task_status_fail now m t2 d2))
        (fst (job_status_fail now m' j (fst (task_status_fail now m t2 d2))))"
      by (rule job_finish_advances(3)) (simp add: get_job_scanjobs [OF fr] assms)
  qed
  show ?thesis
  proof (cases out)
    case (Finished m s)
    then show ?thesis
      by (cases s) (auto simp: run_task_runner_def st r tasks d2 intro!: advances_frame
          dest: tasks(4) split: res.splits)
  next
    case (Scan_failure m)
    then show ?thesis by (auto simp: run_task_runner_def st r d2 intro!: advances_frame)
  next
    case (Crash e m)
    obtain d3 t3 where f3: "task_status_fail now (Some (ctx j t2)) t2 d2 = (d3, t3)" by fastforce
    obtain d4 j4 b where f4: "job_status_fail now (''FATAL ERROR. '' @ m) j d3 = (d4, j4, b)"
      by (metis surj_pair)
    have "job_advances i d d4"
      using crash [of "''FATAL ERROR. '' @ m" "Some (ctx j t2)"] by (simp only: f3 f4 fst_conv)
    then show ?thesis
      by (simp add: run_task_runner_def st r j2 Crash f3 f4 [simplified] advances_frame d2)
  qed
qed

end

section \<open>Celery tasks and the status of a job\<close>

lemma get_job_self: "get_job i d = Some j \<Longrightarrow> get_job (sj_id j) d = Some j"
  using jobs.get_key [of i d j] by simp

lemma on_exception_advances:
  assumes "job_advances i d (fst (func d))"
  shows "job_advances i d (fst (set_scan_task_failure_on_exception now n k func d))"
proof -
  have "job_advances i d1 (case get_task k d1 of None \<Rightarrow> d1 | Some t \<Rightarrow> fst (task_status_fail now m t d1))"
    for d1 m
    by (auto simp: task_status_fail_def Let_def intro!: advances_frame split: option.splits)
  with assms show ?thesis
    by (auto simp: set_scan_task_failure_on_exception_def Let_def intro: advances_trans
        split: prod.splits res.splits)
qed

lemma on_exception_returns:
  "k \<noteq> 0 \<Longrightarrow> \<exists>d' b v. set_scan_task_failure_on_exception now n k func d = (d', Return (b, v))"
  by (cases "func d"; cases "snd (func d)") (auto simp: set_scan_task_failure_on_exception_def Let_def)

lemma run_task_runner_task_advances:
  assumes "\<forall>cls. task_runner (execute cls)"
  shows "job_advances i d (fst (run_task_runner_task execute ctx now c k sty ty d))"
proof -
  have "job_advances i d d'"
    if "get_job k' d = Some j" "run_task_runner (execute cls) ctx now j t d = (d', j', r)" for k' j t d' j' r cls
    using task_runner.run_task_runner_advances [OF spec [OF assms] get_job_self [OF that(1)], of i cls ctx now t] that(2)
    by simp
  then show ?thesis
    by (auto simp: run_task_runner_task_def split: option.splits res.splits prod.splits)
qed

lemma create_report_job:
  assumes "create_report_for_scan_job j d = (d', j', r, m)"
  shows "d' = d \<and> j' = j \<or>
    j' = j\<lparr>sj_report := Some (next_id d)\<rparr> \<and> scanjobs d' = scanjobs (save_job j' d)"
proof (cases "sum_list (map st_systems_scanned
    (filter (\<lambda>t. st_scan_type t = SCAN_TYPE_INSPECT) (job_tasks (sj_id j) d))) = 0")
  case True
  then show ?thesis using assms by (simp add: create_report_for_scan_job_def)
next
  case False
  have "d' = fst (create_report_for_scan_job j d)" "j' = fst (snd (create_report_for_scan_job j d))"
    by (simp_all add: assms)
  with False show ?thesis
    by (simp add: create_report_for_scan_job_def Let_def set_inspect_groups_def save_job_def
        del: sum_list_eq_0_iff)
qed

lemma create_report_advances:
  assumes "get_job (sj_id j) d = Some j" and "create_report_for_scan_job j d = (d', j', r, m)"
  shows "job_advances i d d' \<and> get_job (sj_id j') d' = Some j'"
  using create_report_job [OF assms(2)]
proof
  assume "d' = d \<and> j' = j"
  then show ?thesis using assms(1) by simp
next
  assume j': "j' = j\<lparr>sj_report := Some (next_id d)\<rparr> \<and> scanjobs d' = scanjobs (save_job j' d)"
  then have d': "scanjobs d' = scanjobs (save_job j' d)" by blast
  have "job_advances i d (save_job j' d)"
    using assms(1) j' by (intro advances_save [of _ _ j]) simp_all
  then have "job_advances i d d'"
    using advances_trans [OF _ advances_frame [OF d']] by blast
  then show ?thesis
    by (simp add: get_job_scanjobs [OF d'] get_job_save_job)
qed

lemma fingerprint_loaded_advances:
  assumes "task_runner execute" and "get_job (sj_id j) d = Some j"
  shows "job_advances i d (fst (fingerprint_loaded execute ctx now c t j d))"
proof -
  obtain d1 j1 r m where rep: "(case sj_report j of Some r \<Rightarrow> (d, j, Some r, None)
      | None \<Rightarrow> create_report_for_scan_job j d) = (d1, j1, r, m)"
    by (metis surj_pair)
  have adv1: "job_advances i d d1" and j1: "get_job (sj_id j1) d1 = Some j1"
    using rep assms(2) create_report_advances [OF assms(2), of d1 j1 r m i]
    by (auto split: option.splits)
  show ?thesis
  proof (cases r)
    case None
    then show ?thesis
      using advances_trans [OF adv1 job_fail_advances [OF j1]]
      by (simp add: fingerprint_loaded_def rep)
  next
    case (Some x)
    let ?j = "j1\<lparr>sj_report := Some x\<rparr>" and ?d = "save_job (j1\<lparr>sj_report := Some x\<rparr>) d1"
    have adv2: "job_advances i d1 ?d" using j1 by (intro advances_save [of _ _ j1]) simp_all
    have "get_job (sj_id ?j) ?d = Some ?j" by (simp add: get_job_save_job)
    from task_runner.run_task_runner_advances [OF assms(1) this, of i ctx now t]
    have "job_advances i d (fst (run_task_runner execute ctx now ?j t ?d))"
      using adv1 adv2 by (blast intro: advances_trans)
    then show ?thesis
      by (auto simp: fingerprint_loaded_def rep Some Let_def split: prod.splits res.splits)
  qed
qed

lemma fingerprint_task_advances:
  assumes "task_runner execute"
  shows "job_advances i d (fst (fingerprint_task execute ctx now c k d))"
proof (cases "get_task k d")
  case None
  then show ?thesis by (simp add: fingerprint_task_def)
next
  case (Some t)
  then show ?thesis
    using fingerprint_loaded_advances [OF assms get_job_self, of "st_job t" d]
      job_cancel_advances [OF get_job_self, of "st_job t" d]
    by (cases "get_job (st_job t) d") (simp_all add: fingerprint_task_def)
qed

lemma finalize_advances: "job_advances i d (fst (finalize_scan now c k d))"
proof (cases "get_job k d")
  case None
  then show ?thesis
    by (simp add: finalize_scan_def finalize_scan_task_def set_scan_job_failure_on_exception_def)
next
  case (Some j)
  note adv = job_finish_advances [OF get_job_self [OF Some]]
  show ?thesis
    using adv Some
    by (simp add: finalize_scan_def finalize_scan_task_def set_scan_job_failure_on_exception_def Let_def)
qed

lemma scan_cancel_advances:
  assumes "get_job k d = Some j" and "scan_cancel now j d c = (d', j', c')"
  shows "job_advances i d d'"
  using job_cancel_advances [OF get_job_self [OF assms(1)], of i now] assms(2)
  by (auto simp: scan_cancel_def scan_action_def kill_def split: prod.splits option.splits)

lemma celery_run_task_runner_advances:
  assumes "\<forall>cls. task_runner (execute cls)"
  shows "job_advances i d (fst (celery_run_task_runner execute ctx now c k sty ty d))"
  unfolding celery_run_task_runner_def
  by (rule on_exception_advances, rule run_task_runner_task_advances, rule assms)

lemma celery_fingerprint_advances:
  assumes "task_runner execute"
  shows "job_advances i d (fst (celery_fingerprint execute ctx now c k d))"
  unfolding celery_fingerprint_def
  by (rule on_exception_advances, rule fingerprint_task_advances, rule assms)

lemma step_advances:
  assumes "celery_step execute fp_execute ctx job s s'"
    and "\<forall>cls. task_runner (execute cls)" and "task_runner fp_execute"
  shows "job_advances i (sys_db s) (sys_db s')"
  using assms(1)
proof cases
  case (inspect k t ty rest now d' ok v)
  then show ?thesis
    using celery_run_task_runner_advances [OF assms(2), where d = "sys_db s"
        and ctx = ctx and now = now and c = "sys_celery s" and k = t and sty = ty
        and ty = SCAN_TYPE_INSPECT and i = i]
    by simp
next
  case (fingerprint t now d' v)
  then show ?thesis
    using celery_fingerprint_advances [OF assms(3), where d = "sys_db s"
        and ctx = ctx and now = now and c = "sys_celery s" and k = t and i = i]
    by simp
next
  case (finalize k now d' v)
  then show ?thesis
    using finalize_advances [of i "sys_db s" now "sys_celery s" k] by simp
next
  case (cancel j now d' j' c')
  then show ?thesis by (simp add: scan_cancel_advances [OF cancel(2,3)])
qed

section \<open>The plan covers the tasks\<close>

lemma by_source_fold:
  "map_of (fold (\<lambda>(s, x) acc. AList.update s (dget acc s [] @ [x]) acc) sigs acc) s =
     (if s \<in> fst ` set sigs
      then Some (dget acc s [] @ map snd (filter (\<lambda>(s', _). s' = s) sigs)) else map_of acc s)"
proof (induction sigs arbitrary: acc)
  case Nil
  then show ?case by simp
next
  case (Cons a sigs)
  obtain s' x where a: "a = (s', x)" by fastforce
  have none: "s \<notin> fst ` set sigs \<Longrightarrow> filter (\<lambda>(s', _). s' = s) sigs = []"
    by (force simp: filter_empty_conv)
  show ?case
    unfolding a fold_simps prod.case Cons.IH using none by (auto simp: dict_simps)
qed

lemma by_source_lookup:
  "map_of (by_source sigs) s =
     (if s \<in> fst ` set sigs then Some (map snd (filter (\<lambda>(s', _). s' = s) sigs)) else None)"
  by (simp add: by_source_def by_source_fold)

lemma by_source_distinct: "distinct (map fst (by_source sigs))"
proof -
  have "distinct (map fst acc) \<Longrightarrow> distinct (map fst
      (fold (\<lambda>(s, x) acc. AList.update s (dget acc s [] @ [x]) acc) sigs acc))" for acc
    by (induction sigs arbitrary: acc) (auto simp: distinct_update)
  then show ?thesis by (simp add: by_source_def)
qed

lemma by_source_members:
  "x \<in> set (concat (map snd (by_source sigs))) \<longleftrightarrow> x \<in> snd ` set sigs"
proof -
  have "x \<in> set (concat (map snd (by_source sigs))) \<longleftrightarrow>
    (\<exists>s xs. map_of (by_source sigs) s = Some xs \<and> x \<in> set xs)"
    using by_source_distinct [of sigs] by (force simp: map_of_eq_Some_iff)
  also have "\<dots> \<longleftrightarrow> x \<in> snd ` set sigs"
    by (force simp: by_source_lookup split: if_splits)
  finally show ?thesis .
qed

lemma job_plan_chains:
  assumes "job_plan i d = Return p"
  shows "fst ` set (concat (map snd (pl_chains p))) =
    st_id ` {t \<in> set (job_tasks i d). incomplete t \<and> st_scan_type t = SCAN_TYPE_INSPECT}"
proof -
  let ?todo = "filter (\<lambda>t. incomplete t \<and> st_scan_type t = SCAN_TYPE_INSPECT) (job_tasks i d)"
  let ?ord = "sort_key (\<lambda>t. case st_source t of None \<Rightarrow> 0 | Some s \<Rightarrow> s)
    (sort_key st_sequence_number ?todo)"
  obtain sigs where sigs: "map_res (task_signature d) ?ord = Return sigs"
    and p: "pl_chains p = by_source sigs"
    using assms by (auto simp: job_plan_def Let_def res_simps)
  have ids: "map (\<lambda>x. fst (snd x)) ys = map st_id ts"
    if "map_res (task_signature d) ts = Return ys" for ts ys
    using that by (induction ts arbitrary: ys) (auto simp: res_simps task_signature_def split: option.splits)
  have "fst ` set (concat (map snd (pl_chains p))) = fst ` snd ` set sigs"
    using by_source_members [of _ sigs] unfolding p by blast
  also have "\<dots> = set (map (\<lambda>x. fst (snd x)) sigs)" by force
  also have "\<dots> = st_id ` set ?ord" unfolding ids [OF sigs] by simp
  finally show ?thesis by auto
qed

lemma job_plan_rest:
  assumes "job_plan i d = Return p"
  shows "pl_finalize p = i" and "pl_fingerprint p = Some t \<Longrightarrow> t \<in> st_id ` set (job_tasks i d)"
  using assms by (auto simp: job_plan_def Let_def res_simps find_Some_iff)

section \<open>Executions\<close>

definition sys_size :: "sys \<Rightarrow> nat" where
  "sys_size s = sum_list (map length (sys_chains s)) +
     (if sys_fingerprint s = None then 0 else 1) + (if sys_finalize s = None then 0 else 1)"

text \<open>The tasks of the plan have keys, the job has been started, and a finished execution has
  left the job in a final status.\<close>

definition sys_inv :: "nat \<Rightarrow> sys \<Rightarrow> bool" where
  "sys_inv job s \<longleftrightarrow> job \<noteq> 0 \<and> 0 \<notin> fst ` set (concat (sys_chains s)) \<and> sys_fingerprint s \<noteq> Some 0 \<and>
     (\<forall>i. sys_finalize s = Some i \<longrightarrow> i = job) \<and>
     (\<exists>j. get_job job (sys_db s) = Some j \<and> (sj_status j = RUNNING \<or> terminal (sj_status j))) \<and>
     (sys_finalize s = None \<longrightarrow> job_done job (sys_db s))"

lemma finalize_done:
  assumes "get_job i d = Some j" and "sj_status j = RUNNING \<or> terminal (sj_status j)" and "i \<noteq> 0"
  shows "job_done i (fst (finalize_scan now c i d))"
proof -
  have i: "sj_id j = i" using assms(1) by (rule jobs.get_key)
  note fin = job_finish_done [OF get_job_self [OF assms(1)] assms(2), unfolded i]
  show ?thesis
    using fin assms
    by (simp add: finalize_scan_def finalize_scan_task_def set_scan_job_failure_on_exception_def Let_def)
qed

lemma chains_update_members:
  assumes "sys_chains s ! i = (t, ty) # rest" and "i < length (sys_chains s)"
  shows "set (concat ((sys_chains s)[i := if ok then rest else []])) \<subseteq> set (concat (sys_chains s))"
proof
  let ?c = "if ok then rest else []"
  fix x
  assume "x \<in> set (concat ((sys_chains s)[i := ?c]))"
  then obtain ys where ys: "ys \<in> set ((sys_chains s)[i := ?c])" "x \<in> set ys" by auto
  then have "ys = ?c \<or> ys \<in> set (sys_chains s)"
    using set_update_subset_insert [of "sys_chains s" i ?c] by auto
  moreover have "(t, ty) # rest \<in> set (sys_chains s)"
    using nth_mem [OF assms(2)] assms(1) by simp
  ultimately show "x \<in> set (concat (sys_chains s))"
    using ys(2) by (auto split: if_splits intro: bexI [of _ "(t, ty) # rest"])
qed

lemma job_active_advances:
  assumes "job_advances i d d'"
    and "\<exists>j. get_job i d = Some j \<and> (sj_status j = RUNNING \<or> terminal (sj_status j))"
  shows "\<exists>j. get_job i d' = Some j \<and> (sj_status j = RUNNING \<or> terminal (sj_status j))"
  using assms unfolding job_advances_def by metis

lemma step_inv:
  assumes "celery_step execute fp_execute ctx job s s'"
    and "\<forall>cls. task_runner (execute cls)" and "task_runner fp_execute" and "sys_inv job s"
  shows "sys_inv job s'"
proof -
  note adv = step_advances [OF assms(1-3), of job]
  have active: "\<exists>j. get_job job (sys_db s') = Some j \<and> (sj_status j = RUNNING \<or> terminal (sj_status j))"
    using job_active_advances [OF adv] assms(4) by (simp add: sys_inv_def)
  have still: "sys_finalize s = None \<Longrightarrow> job_done job (sys_db s')"
    using assms(4) advances_done [OF adv] by (simp add: sys_inv_def)
  from assms(1) show ?thesis
  proof cases
    case (inspect i t ty rest now d' ok v)
    then show ?thesis
      using assms(4) active still chains_update_members [OF inspect(3,2), of ok]
      by (auto simp: sys_inv_def simp del: set_concat)
  next
    case (fingerprint t now d' v)
    then show ?thesis using assms(4) active still by (simp add: sys_inv_def)
  next
    case (finalize i now d' v)
    then have "i = job" "job \<noteq> 0" using assms(4) by (auto simp: sys_inv_def)
    moreover obtain j where "get_job job (sys_db s) = Some j" "sj_status j = RUNNING \<or> terminal (sj_status j)"
      using assms(4) by (auto simp: sys_inv_def)
    ultimately have "job_done job d'"
      using finalize_done [of job "sys_db s" j now "sys_celery s"] finalize(5) by simp
    then show ?thesis using finalize assms(4) active by (simp add: sys_inv_def)
  next
    case (cancel j now d' j' c')
    then show ?thesis using assms(4) active still by (simp add: sys_inv_def)
  qed
qed

lemma steps_inv:
  assumes "(celery_step execute fp_execute ctx job)\<^sup>*\<^sup>* s s'"
    and "\<forall>cls. task_runner (execute cls)" and "task_runner fp_execute" and "sys_inv job s"
  shows "sys_inv job s'"
  using assms(1) by induction (use assms(4) step_inv [OF _ assms(2,3)] in blast)+

lemma sum_list_update_less:
  "i < length xs \<Longrightarrow> f y < f (xs ! i) \<Longrightarrow>
     sum_list (map f (xs[i := y])) < sum_list (map (f :: 'a \<Rightarrow> nat) xs)"
proof (induction xs arbitrary: i)
  case Nil
  then show ?case by simp
next
  case (Cons x xs)
  then show ?case by (cases i) simp_all
qed

lemma finalize_returns: "i \<noteq> 0 \<Longrightarrow> \<exists>d' v. finalize_scan now c i d = (d', Return v)"
  by (cases "finalize_scan_task now c i d"; cases "snd (finalize_scan_task now c i d)")
    (auto simp: finalize_scan_def set_scan_job_failure_on_exception_def Let_def)

lemma step_progress:
  assumes "sys_inv job s" and "sys_finalize s \<noteq> None"
  shows "\<exists>s'. celery_step execute fp_execute ctx job s s' \<and> sys_size s' < sys_size s"
proof (cases "list_all (\<lambda>ch. ch = []) (sys_chains s)")
  case False
  then obtain i where i0: "i < length (sys_chains s)" "sys_chains s ! i \<noteq> []"
    by (auto simp: list_all_length)
  obtain t ty rest where i: "i < length (sys_chains s)" "sys_chains s ! i = (t, ty) # rest"
    using i0 by (cases "sys_chains s ! i") auto
  have "(t, ty) \<in> set (concat (sys_chains s))"
    using i nth_mem [OF i(1)] by (auto intro: bexI [of _ "(t, ty) # rest"])
  then have "t \<noteq> 0" using assms(1) by (force simp: sys_inv_def simp del: set_concat)
  from on_exception_returns [OF this] obtain d' ok v where
    r: "celery_run_task_runner execute ctx 0 (sys_celery s) t ty SCAN_TYPE_INSPECT (sys_db s)
      = (d', Return (ok, v))"
    unfolding celery_run_task_runner_def by blast
  have "sum_list (map length ((sys_chains s)[i := if ok then rest else []]))
      < sum_list (map length (sys_chains s))"
    using i by (intro sum_list_update_less) simp_all
  then show ?thesis
    using celery_step.inspect [OF i r] by (force simp: sys_size_def)
next
  case idle: True
  show ?thesis
  proof (cases "sys_fingerprint s")
    case (Some t)
    then have "t \<noteq> 0" using assms(1) by (auto simp: sys_inv_def)
    from on_exception_returns [OF this] obtain d' v where
      r: "celery_fingerprint fp_execute ctx 0 (sys_celery s) t (sys_db s) = (d', Return v)"
      unfolding celery_fingerprint_def by blast
    show ?thesis
      using celery_step.fingerprint [OF idle Some r] Some by (force simp: sys_size_def)
  next
    case None
    from assms obtain i where i: "sys_finalize s = Some i" "i \<noteq> 0" by (auto simp: sys_inv_def)
    from finalize_returns [OF i(2)] obtain d' v where
      r: "finalize_scan 0 (sys_celery s) i (sys_db s) = (d', Return v)" by blast
    show ?thesis
      using celery_step.finalize [OF idle None i(1) r] i by (force simp: sys_size_def)
  qed
qed

lemma can_finish:
  assumes "sys_inv job s" and "\<forall>cls. task_runner (execute cls)" and "task_runner fp_execute"
  shows "\<exists>s'. (celery_step execute fp_execute ctx job)\<^sup>*\<^sup>* s s' \<and> sys_finalize s' = None"
  using assms(1)
proof (induction "sys_size s" arbitrary: s rule: less_induct)
  case less
  show ?case
  proof (cases "sys_finalize s = None")
    case True
    then show ?thesis by blast
  next
    case False
    from step_progress [OF less.prems False] obtain s1 where
      s1: "celery_step execute fp_execute ctx job s s1" "sys_size s1 < sys_size s" by blast
    from less.hyps [OF s1(2) step_inv [OF s1(1) assms(2,3) less.prems]] s1(1)
    show ?thesis by (meson converse_rtranclp_into_rtranclp)
  qed
qed

lemma start_sys_inv:
  assumes "job_runner_run now j d = (d1, j1, Return (Some p))"
    and "list_all (\<lambda>t. st_id t \<noteq> 0) (scantasks d)" and "sj_id j \<noteq> 0"
  shows "sys_inv (sj_id j) (start_sys d1 c p)"
proof -
  obtain ok where st: "job_status_start now j d = (d1, j1, ok)" and ok: ok
    and p: "job_plan (sj_id j) d1 = Return p"
    using assms(1) by (auto simp: job_runner_run_def res_simps split: prod.splits bool.splits)
  have j1: "get_job (sj_id j) d1 = Some j1 \<and> sj_status j1 = RUNNING" and d1: "scantasks d1 = scantasks d"
    using st ok by (auto simp: job_status_start_def Let_def get_job_save_job split: if_splits)
  have nz: "0 \<notin> st_id ` set (job_tasks (sj_id j) d1)"
    using assms(2) d1 by (auto simp: job_tasks_def list_all_iff)
  have "0 \<notin> fst ` set (concat (map snd (pl_chains p)))"
    unfolding job_plan_chains [OF p] using nz by blast
  then show ?thesis
    using j1 assms(3) job_plan_rest [OF p] nz by (auto simp: sys_inv_def start_sys_def simp del: set_concat)
qed

lemma steps_advance:
  assumes "(celery_step execute fp_execute ctx job)\<^sup>*\<^sup>* s s'"
    and "\<forall>cls. task_runner (execute cls)" and "task_runner fp_execute"
  shows "job_advances i (sys_db s) (sys_db s')"
  using assms(1)
proof induction
  case base
  then show ?case by simp
next
  case (step s1 s2)
  show ?case by (rule advances_trans [OF step.IH step_advances [OF step.hyps(2) assms(2,3)]])
qed

lemma job_cancel_row:
  assumes "sj_status j \<notin> {COMPLETED, FAILED}"
  shows "\<exists>j'. get_job (sj_id j) (fst (job_status_cancel now j d)) = Some j' \<and> sj_status j' = CANCELED"
  using assms by (cases "sj_status j")
    (simp_all add: job_status_cancel_def validate_status_change_def Let_def get_job_save_job)

text \<open>A runner that ends normally leaves the row of the job as \<open>_fingerprint\<close> saved it.\<close>

lemma run_finished_keeps_job:
  assumes "task_runner execute"
    and "execute j (snd (task_status_start now t d)) (fst (task_status_start now t d)) = (d2, j2, t2, Finished m s)"
  shows "get_job i (fst (run_task_runner execute ctx now j t d)) = get_job i d"
proof -
  obtain d1 t1 where st: "task_status_start now t d = (d1, t1)" by fastforce
  have d1: "scanjobs d1 = scanjobs d" using st by (auto simp: task_status_start_def Let_def)
  have ex: "execute j t1 d1 = (d2, j2, t2, Finished m s)" using assms(2) by (simp add: st)
  then have run: "runner_run execute j t1 d1 = (d2, j2, t2, Finished m s)" by (simp add: runner_run_def)
  have d2: "scanjobs d2 = scanjobs d" using task_runner.keeps_jobs [OF assms(1) ex] d1 by simp
  have "scanjobs (fst (run_task_runner execute ctx now j t d)) = scanjobs d"
    by (cases s) (auto simp: run_task_runner_def st run d2 task_status_cancel_def task_status_pause_def
        task_status_fail_def task_status_complete_def Let_def split: option.splits res.splits)
  then show ?thesis by (rule get_job_scanjobs)
qed

section \<open>Properties\<close>

text \<open>
  C6. Every execution of a started job ends well: whatever the order in which the Celery tasks
  run, whichever of them fail, crash or are canceled on the way, the execution can be continued
  until \<open>finalize_scan\<close> has run, and once it has run the stored job is canceled, completed or
  failed. The task runners are only assumed to leave the rows of jobs alone.
\<close>

theorem started_job_finishes:
  assumes "\<forall>cls. task_runner (execute cls)" and "task_runner fp_execute"
    and "job_runner_run now j d = (d1, j1, Return (Some p))"
    and "list_all (\<lambda>t. st_id t \<noteq> 0) (scantasks d)" and "sj_id j \<noteq> 0"
    and "(celery_step execute fp_execute ctx (sj_id j))\<^sup>*\<^sup>* (start_sys d1 c p) s"
  shows "(\<exists>s'. (celery_step execute fp_execute ctx (sj_id j))\<^sup>*\<^sup>* s s' \<and> sys_finalize s' = None)
    \<and> (sys_finalize s = None \<longrightarrow> job_done (sj_id j) (sys_db s))"
proof -
  have inv: "sys_inv (sj_id j) s"
    by (rule steps_inv [OF assms(6,1,2) start_sys_inv [OF assms(3,4,5)]])
  with can_finish [OF inv assms(1,2)] show ?thesis by (simp add: sys_inv_def)
qed

text \<open>A runner that completes its task without facts.\<close>

definition idle_execute :: execute where
  "idle_execute j t d = (d, j, t, Finished ''ok'' COMPLETED)"

lemma idle_runner: "task_runner idle_execute"
  by unfold_locales (simp add: idle_execute_def)

definition queued_job :: scanjob where
  "queued_job = sample_job\<lparr>sj_status := PENDING\<rparr>"

definition queued_db :: db where
  "queued_db = sample_db\<lparr>scanjobs := [queued_job],
     scantasks := [sample_task\<lparr>st_status := PENDING, st_source := Some 2\<rparr>]\<rparr>"

definition no_celery :: celery where
  "no_celery = \<lparr>cache = [], revoked = []\<rparr>"

lemma queued_job_runs: "\<exists>d1 j1 p. job_runner_run 3 queued_job queued_db = (d1, j1, Return (Some p))"
  by (simp add: job_runner_run_def job_status_start_def validate_status_change_def queued_job_def
      sample_job_def job_plan_def Let_def job_tasks_def queued_db_def sample_task_def incomplete_def
      task_signature_def row_get_def sample_db_def save_job_def row_save_def)

theorem started_job_finishes_witness:
  "\<exists>d1 j1 p s. job_runner_run 3 queued_job queued_db = (d1, j1, Return (Some p))
     \<and> (celery_step (\<lambda>_. idle_execute) idle_execute (\<lambda>_ _. []) 1)\<^sup>*\<^sup>* (start_sys d1 no_celery p) s
     \<and> sys_finalize s = None \<and> job_done 1 (sys_db s)"
proof -
  obtain d1 j1 p where r: "job_runner_run 3 queued_job queued_db = (d1, j1, Return (Some p))"
    using queued_job_runs by blast
  have run: "\<forall>cls. task_runner ((\<lambda>_. idle_execute) (cls :: string))" by (simp add: idle_runner)
  have ids: "list_all (\<lambda>t. st_id t \<noteq> 0) (scantasks queued_db)"
    by (simp add: queued_db_def sample_task_def)
  have nz: "sj_id queued_job \<noteq> 0" and one: "sj_id queued_job = 1"
    by (simp_all add: queued_job_def sample_job_def)
  note fin = started_job_finishes [OF run idle_runner r ids nz, of "\<lambda>_ _. []" no_celery, unfolded one]
  obtain s where s: "(celery_step (\<lambda>_. idle_execute) idle_execute (\<lambda>_ _. []) 1)\<^sup>*\<^sup>* (start_sys d1 no_celery p) s"
    "sys_finalize s = None"
    using fin [OF rtranclp.rtrancl_refl] by blast
  with fin [OF s(1)] r show ?thesis by blast
qed



text \<open>
  C22. \<open>finalize_scan\<close> of a running job that was not canceled: the job is completed when it has no
  task or a completed one, canceled when all its tasks are, and failed otherwise; in particular a
  single completed task is enough.
\<close>

theorem finalize_outcome:
  assumes "get_job i d = Some j" and "sj_status j = RUNNING" and "i \<noteq> 0" and "\<not> scan_job_is_canceled i c"
  shows "map_option sj_status (get_job i (fst (finalize_scan now c i d))) =
    Some (if job_tasks i d = [] \<or> (\<exists>t \<in> set (job_tasks i d). st_status t = COMPLETED) then COMPLETED
          else if \<forall>t \<in> set (job_tasks i d). st_status t = CANCELED then CANCELED else FAILED)"
proof -
  have id: "sj_id j = i" using assms(1) by (rule jobs.get_key)
  have change: "map_option sj_status (get_job i (fst (job_status_complete now j d))) = Some COMPLETED"
    "map_option sj_status (get_job i (fst (job_status_cancel now j d))) = Some CANCELED"
    "map_option sj_status (get_job i (fst (job_status_fail now m j d))) = Some FAILED" for m
    using assms(2) id
    by (simp_all add: job_ops validate_status_change_def Let_def get_job_save_job)
  show ?thesis
    using change assms id
    by (auto simp: finalize_scan_def finalize_scan_task_def set_scan_job_failure_on_exception_def
        Let_def list_all_iff list_ex_iff image_iff)
qed

theorem finalize_outcome_witness:
  "map_option sj_status (get_job 1 (fst (finalize_scan 9 no_celery 1 sample_db))) = Some COMPLETED"
proof -
  have row: "get_job 1 sample_db = Some sample_job"
    by (simp add: get_job_def row_get_def sample_db_def sample_job_def)
  have run: "sj_status sample_job = RUNNING" by (simp add: sample_job_def)
  have nc: "\<not> scan_job_is_canceled 1 no_celery"
    by (simp add: scan_job_is_canceled_def get_scan_job_celery_task_id_def no_celery_def)
  have done1: "\<exists>t \<in> set (job_tasks 1 sample_db). st_status t = COMPLETED"
    by (simp add: job_tasks_def sample_db_def sample_task_def)
  from finalize_outcome [OF row run _ nc, of 9] done1 show ?thesis by simp
qed

text \<open>
  C24. Within one fingerprint task a cancel request can be lost: \<open>_fingerprint\<close> saves the whole job
  instance it loaded at its start, so a job canceled after the load is stored as running again
  by that save, and stays so when the fingerprint run ends normally.
\<close>

theorem fingerprint_overwrites_cancel:
  assumes "task_runner execute" and "sj_status j = RUNNING" and "sj_report j = Some r"
    and "scan_cancel now j d c = (d', j', c')"
    and "\<And>x. snd (snd (snd (execute j (snd (task_status_start now' t x)) (fst (task_status_start now' t x)))))
      = Finished m COMPLETED"
  shows "map_option sj_status (get_job (sj_id j) d') = Some CANCELED
    \<and> map_option sj_status (get_job (sj_id j) (fst (fingerprint_loaded execute ctx now' c' t j d'))) = Some RUNNING"
proof
  have "d' = fst (job_status_cancel now j d)"
    using assms(4) by (auto simp: scan_cancel_def scan_action_def kill_def split: prod.splits option.splits)
  then show "map_option sj_status (get_job (sj_id j) d') = Some CANCELED"
    using job_cancel_row [of j now d] assms(2) by auto
next
  have jr: "j\<lparr>sj_report := Some r\<rparr> = j" using assms(3) by simp
  obtain d2 j2 t2 where ex: "execute j (snd (task_status_start now' t (save_job j d')))
      (fst (task_status_start now' t (save_job j d'))) = (d2, j2, t2, Finished m COMPLETED)"
    using assms(5) [of "save_job j d'"] by (metis prod.collapse)
  have "get_job (sj_id j) (fst (run_task_runner execute ctx now' j t (save_job j d'))) = Some j"
    using run_finished_keeps_job [OF assms(1) ex] by (simp add: get_job_save_job)
  then show "map_option sj_status (get_job (sj_id j) (fst (fingerprint_loaded execute ctx now' c' t j d'))) = Some RUNNING"
    using assms(2)
    by (auto simp: fingerprint_loaded_def Let_def assms(3) jr split: prod.splits res.splits)
qed

theorem fingerprint_overwrites_cancel_witness:
  "\<exists>d' j' c'. scan_cancel 4 (sample_job\<lparr>sj_report := Some 6\<rparr>) sample_db no_celery = (d', j', c')
     \<and> map_option sj_status (get_job 1 d') = Some CANCELED
     \<and> map_option sj_status (get_job 1 (fst (fingerprint_loaded idle_execute (\<lambda>_ _. []) 5 c' sample_task
           (sample_job\<lparr>sj_report := Some 6\<rparr>) d'))) = Some RUNNING"
proof -
  let ?j = "sample_job\<lparr>sj_report := Some 6\<rparr>"
  obtain d' j' c' where r: "scan_cancel 4 ?j sample_db no_celery = (d', j', c')" by (metis surj_pair)
  have run: "sj_status ?j = RUNNING" "sj_report ?j = Some 6" "sj_id ?j = 1"
    by (simp_all add: sample_job_def)
  have ex: "snd (snd (snd (idle_execute ?j (snd (task_status_start 5 sample_task x))
      (fst (task_status_start 5 sample_task x))))) = Finished ''ok'' COMPLETED" for x
    by (simp add: idle_execute_def)
  from fingerprint_overwrites_cancel [OF idle_runner run(1,2) r ex, of "\<lambda>_ _. []", unfolded run(3)] r
  show ?thesis by blast
qed

text \<open>
  C23. The Celery plan of a job contains each unfinished inspection task of the job and nothing
  else: the tasks of all chains are exactly those, one chain per source.
\<close>

theorem plan_covers_inspection_tasks:
  assumes "job_plan i d = Return p"
  shows "fst ` set (concat (map snd (pl_chains p))) =
      st_id ` {t \<in> set (job_tasks i d). incomplete t \<and> st_scan_type t = SCAN_TYPE_INSPECT}
    \<and> distinct (map fst (pl_chains p)) \<and> pl_finalize p = i"
proof -
  have "distinct (map fst (pl_chains p))"
    using assms by (auto simp: job_plan_def Let_def res_simps by_source_distinct)
  with job_plan_chains [OF assms] job_plan_rest [OF assms] show ?thesis by simp
qed

theorem plan_covers_inspection_tasks_witness:
  "\<exists>p. job_plan 1 queued_db = Return p \<and> fst ` set (concat (map snd (pl_chains p))) = {7}"
proof -
  have "\<exists>p. job_plan 1 queued_db = Return p"
    by (simp add: job_plan_def Let_def job_tasks_def queued_db_def sample_task_def incomplete_def
      task_signature_def row_get_def sample_db_def)
  then obtain p where p: "job_plan 1 queued_db = Return p" by blast
  have "{t \<in> set (job_tasks 1 queued_db). incomplete t \<and> st_scan_type t = SCAN_TYPE_INSPECT}
      = {sample_task\<lparr>st_status := PENDING, st_source := Some 2\<rparr>}"
    by (auto simp: job_tasks_def queued_db_def sample_task_def incomplete_def)
  then show ?thesis
    using plan_covers_inspection_tasks [OF p] p by (simp add: sample_task_def del: set_concat)
qed

end
