(* ===== verification/Fact_Utils.thy ===== *)
theory Fact_Utils
  imports Py_Convert
begin

text \<open>
  The functions the fingerprint engine reads and formats raw facts with: \<open>utils/deepget.py\<close>,
  \<open>utils/default_getter.py\<close>, the conversions of \<open>api/common/util.py\<close>,
  \<open>fingerprinter/formatters.py\<close>, \<open>fingerprinter/utils.py\<close> and
  \<open>scanner/openshift/formatters.py\<close>.
\<close>

section \<open>Nested lookups\<close>

definition list_index :: "pyval list \<Rightarrow> int \<Rightarrow> pyval" where
  "list_index xs i =
     (if 0 \<le> i \<and> i < int (length xs) then xs ! nat i
      else if i < 0 \<and> - int (length xs) \<le> i then xs ! nat (int (length xs) + i)
      else PNone)"

text \<open>\<open>data[key]\<close> with a text key: a list or a text is retried with the key as a number, and
  anything else with a numeric key is retried forever.\<close>

fun get_item :: "pyval \<Rightarrow> string \<Rightarrow> pyval res" where
  "get_item (PDict d) key = Return (dgetn d key)"
| "get_item (PList xs) key =
     Return (case parse_int key of None \<Rightarrow> PNone | Some i \<Rightarrow> list_index xs i)"
| "get_item (PStr s) key =
     Return (case parse_int key of None \<Rightarrow> PNone | Some i \<Rightarrow> list_index (map (\<lambda>c. PStr [c]) s) i)"
| "get_item _ key = (case parse_int key of None \<Rightarrow> Return PNone | Some _ \<Rightarrow> Raise RecursionError)"

fun get_nested_item :: "pyval \<Rightarrow> string list \<Rightarrow> pyval res" where
  "get_nested_item data [] = Raise IndexError"
| "get_nested_item data [key] = get_item data key"
| "get_nested_item data (key # next # keys) =
     bind_res (get_item data key) (\<lambda>item.
       if is_dict item \<or> is_list item then get_nested_item item (next # keys) else Return PNone)"

definition deepget :: "pyval \<Rightarrow> string \<Rightarrow> pyval res" where
  "deepget data path = get_nested_item data (split_on ''__'' path)"

definition default_getter :: "pydict \<Rightarrow> string \<Rightarrow> pyval \<Rightarrow> pyval" where
  "default_getter data key default_value =
     (let val = dget data key default_value in if val = PNone then default_value else val)"

section \<open>Conversions of \<open>api/common/util.py\<close>\<close>

text \<open>The test for \<open>int\<close> comes before the one for \<open>bool\<close>, and booleans are integers.\<close>

definition is_int :: "pyval \<Rightarrow> bool" where
  "is_int v =
     (if is_pyint v then True
      else case v of PStr s \<Rightarrow> parse_int s \<noteq> None | _ \<Rightarrow> False)"

definition convert_to_int :: "pyval \<Rightarrow> int option" where
  "convert_to_int v =
     (if \<not> is_int v then None else case py_int v of Return i \<Rightarrow> Some i | Raise _ \<Rightarrow> None)"

fun is_boolean :: "pyval \<Rightarrow> bool" where
  "is_boolean (PBool _) = True"
| "is_boolean (PStr s) = (py_lower s \<in> {''true'', ''false''})"
| "is_boolean _ = False"

fun convert_to_boolean :: "pyval \<Rightarrow> bool" where
  "convert_to_boolean (PBool b) = b"
| "convert_to_boolean (PStr s) = (if is_boolean (PStr s) then py_lower s = ''true'' else False)"
| "convert_to_boolean _ = False"

fun convert_to_bool_or_none :: "pyval \<Rightarrow> pyval" where
  "convert_to_bool_or_none (PBool b) = PBool b"
| "convert_to_bool_or_none (PStr s) =
     (if is_boolean (PStr s) then PBool (py_lower s = ''true'') else PNone)"
| "convert_to_bool_or_none _ = PNone"

datatype ids = All_ids | Ids "int list"

text \<open>The set of ids is a list without duplicates; \<open>True\<close> and \<open>False\<close> count as 1 and 0.\<close>

definition set_of_ids_or_all_str :: "pyval \<Rightarrow> ids option" where
  "set_of_ids_or_all_str v =
     (case v of
        PStr s \<Rightarrow> if s = ''all'' then Some All_ids else None
      | PList xs \<Rightarrow>
          if xs = [] \<or> list_ex (\<lambda>x. \<not> is_pyint x) xs then None
          else Some (Ids (remdups (map (\<lambda>x. case py_int x of Return i \<Rightarrow> i | Raise _ \<Rightarrow> 0) xs)))
      | _ \<Rightarrow> None)"

section \<open>Formatters\<close>

fun lower_item :: "pyval \<Rightarrow> pyval res" where
  "lower_item (PStr s) = Return (PStr (py_lower s))"
| "lower_item _ = Raise AttributeError"

fun format_mac_addresses :: "pyval \<Rightarrow> pyval res" where
  "format_mac_addresses (PList xs) = bind_res (map_res lower_item xs) (\<lambda>ys. Return (PList ys))"
| "format_mac_addresses v = Return v"

fun is_redhat_from_vm_os :: "pyval \<Rightarrow> pyval res" where
  "is_redhat_from_vm_os PNone = Return (PBool False)"
| "is_redhat_from_vm_os (PStr s) =
     Return (PBool (s \<noteq> [] \<and> (contains ''red hat enterprise linux'' (py_lower s)
                            \<or> contains ''rhel'' (py_lower s))))"
| "is_redhat_from_vm_os _ = Raise AttributeError"

fun float_times :: "pyfloat \<Rightarrow> int \<Rightarrow> pyfloat" where
  "float_times (Fin r) n = clip_float (r * of_int n)"
| "float_times f n = f"

fun gigabytes_to_bytes :: "pyval \<Rightarrow> pyval res" where
  "gigabytes_to_bytes PNone = Return PNone"
| "gigabytes_to_bytes (PInt i) = Return (PInt (i * 1024 ^ 3))"
| "gigabytes_to_bytes (PBool b) = Return (PInt (if b then 1024 ^ 3 else 0))"
| "gigabytes_to_bytes (PFloat f) = Return (PFloat (float_times f (1024 ^ 3)))"
| "gigabytes_to_bytes (PStr s) = Return (PStr (concat (replicate (1024 ^ 3) s)))"
| "gigabytes_to_bytes (PList xs) = Return (PList (concat (replicate (1024 ^ 3) xs)))"
| "gigabytes_to_bytes _ = Raise TypeError"

fun convert_architecture :: "pyval \<Rightarrow> pyval res" where
  "convert_architecture (PStr s) = Return (PStr (if s = ''amd64'' then ''x86_64'' else s))"
| "convert_architecture (PList _) = Raise TypeError"
| "convert_architecture (PDict _) = Raise TypeError"
| "convert_architecture v = Return v"

definition str_or_none :: "pyval \<Rightarrow> pyval" where
  "str_or_none v =
     (case v of
        PNone \<Rightarrow> PNone
      | PStr s \<Rightarrow> if py_strip s = [] then PNone else PStr (py_strip s)
      | _ \<Rightarrow> PStr (py_strip (py_str v)))"

definition float_or_none :: "pyval \<Rightarrow> pyval res" where
  "float_or_none v =
     (case py_float v of
        Return f \<Rightarrow> Return (PFloat f)
      | Raise e \<Rightarrow> if e = ValueError \<or> e = TypeError then Return PNone else Raise e)"

definition int_or_none :: "pyval \<Rightarrow> pyval res" where
  "int_or_none v =
     (case py_int v of
        Return i \<Rightarrow> Return (PInt i)
      | Raise e \<Rightarrow>
          if e = TypeError then Return PNone
          else if e = ValueError then
            (case bind_res (float_or_none v) py_int of
               Return i \<Rightarrow> Return (PInt i)
             | Raise e' \<Rightarrow> if e' = ValueError \<or> e' = TypeError then Return PNone else Raise e')
          else Raise e)"

definition list_or_none :: "pyval \<Rightarrow> pyval" where
  "list_or_none v = (if is_list v then v else PNone)"

definition dict_or_none :: "pyval \<Rightarrow> pyval" where
  "dict_or_none v = (if is_dict v then v else PNone)"

fun list_of_dicts :: "pyval \<Rightarrow> pyval" where
  "list_of_dicts (PList xs) = PList (if list_all is_dict xs then xs else [])"
| "list_of_dicts _ = PList []"

fun date_or_none :: "pyval \<Rightarrow> pyval" where
  "date_or_none (PDateTime y m d _ _ _) = PDate y m d"
| "date_or_none (PDate y m d) = PDate y m d"
| "date_or_none _ = PNone"

section \<open>Helpers of the product detection\<close>

text \<open>\<open>s in v\<close> for a text \<open>s\<close>.\<close>

fun text_in :: "string \<Rightarrow> pyval \<Rightarrow> bool res" where
  "text_in s (PStr t) = Return (contains s t)"
| "text_in s (PList xs) = Return (PStr s \<in> set xs)"
| "text_in s (PDict d) = Return (has_key d s)"
| "text_in s _ = Raise TypeError"

fun entitlement_search :: "pyval list \<Rightarrow> string \<Rightarrow> bool res" where
  "entitlement_search [] product_name = Return False"
| "entitlement_search (e # es) product_name =
     bind_res (vget e ''name'' (PStr [])) (\<lambda>name.
       if name = PNone then entitlement_search es product_name
       else bind_res (text_in product_name name) (\<lambda>found.
         if found then Return True else entitlement_search es product_name))"

definition product_entitlement_found :: "pyval \<Rightarrow> string \<Rightarrow> bool res" where
  "product_entitlement_found entitlements product_name =
     (if \<not> truthy entitlements then Return False
      else bind_res (py_iter entitlements) (\<lambda>es. entitlement_search es product_name))"

definition strip_prefix :: "string \<Rightarrow> string \<Rightarrow> string" where
  "strip_prefix s p = (if startswith s p then drop (length p) s else s)"

text \<open>\<open>s[:-len(suffix)]\<close>; for an empty suffix this is \<open>s[:0]\<close>.\<close>

definition strip_suffix :: "string \<Rightarrow> string \<Rightarrow> string" where
  "strip_suffix s p =
     (if endswith s p then (if p = [] then [] else take (length s - length p) s) else s)"

fun strip_suffix_value :: "pyval \<Rightarrow> string \<Rightarrow> string res" where
  "strip_suffix_value (PStr s) p = Return (strip_suffix s p)"
| "strip_suffix_value _ p = Raise AttributeError"

definition generate_raw_fact_members :: "pydict \<Rightarrow> string option" where
  "generate_raw_fact_members raw_facts_dict =
     (let raw_fact_list = map fst (filter (\<lambda>(k, v). truthy v) (sort_key fst raw_facts_dict))
      in if raw_fact_list = [] then None else Some (py_join ''/'' raw_fact_list))"

section \<open>OpenShift formatters\<close>

fun ip_address_of :: "pyval \<Rightarrow> pyval list res" where
  "ip_address_of element =
     bind_res (vget element ''type'' PNone) (\<lambda>ty.
       case ty of
         PStr s \<Rightarrow>
           if contains ''ip'' (py_lower s)
           then bind_res (vget element ''address'' PNone) (\<lambda>a. Return [a]) else Return []
       | _ \<Rightarrow> Raise AttributeError)"

definition extract_ip_addresses :: "pyval \<Rightarrow> pyval res" where
  "extract_ip_addresses addresses =
     bind_res (py_iter addresses) (\<lambda>es.
       bind_res (map_res ip_address_of es) (\<lambda>xss. Return (PList (concat xss))))"

fun infer_node_role :: "pyval \<Rightarrow> pyval res" where
  "infer_node_role (PDict labels) =
     Return (PStr (py_join ''/'' (filter (\<lambda>role. has_key labels (''node-role.kubernetes.io/'' @ role))
       [''worker'', ''master'', ''control-plane''])))"
| "infer_node_role _ = Raise AttributeError"

section \<open>Lemmas\<close>

lemma split_on_nonempty: "split_on sep s \<noteq> []"
  by (subst split_on.simps) (auto split: prod.splits)

lemma get_item_total: "is_dict v \<or> is_list v \<Longrightarrow> \<exists>x. get_item v k = Return x"
  by (cases v) auto

lemma get_nested_item_total:
  "is_dict v \<or> is_list v \<Longrightarrow> ks \<noteq> [] \<Longrightarrow> \<exists>x. get_nested_item v ks = Return x"
proof (induction v ks rule: get_nested_item.induct)
  case (1 data)
  then show ?case by simp
next
  case (2 data key)
  then show ?case by (simp add: get_item_total)
next
  case (3 data key "next" keys)
  from get_item_total [OF "3.prems"(1), of key] obtain x where "get_item data key = Return x" by blast
  with 3 show ?case by auto
qed

lemma deepget_dict_total: "\<exists>x. deepget (PDict d) path = Return x"
  unfolding deepget_def by (rule get_nested_item_total) (simp_all add: split_on_nonempty)

lemma strip_nonempty: "c \<in> set s \<Longrightarrow> \<not> is_space c \<Longrightarrow> py_strip s \<noteq> []"
proof
  assume c: "c \<in> set s" "\<not> is_space c" and "py_strip s = []"
  then have "\<forall>x \<in> set (py_lstrip s). is_space x"
    by (simp add: py_strip_def py_rstrip_def)
  moreover have "c \<in> set (py_lstrip s)"
    using c by (induction s) (auto simp: py_lstrip_def)
  ultimately show False using c(2) by blast
qed

lemma show_nat_solid: "c \<in> set (show_nat n) \<Longrightarrow> \<not> is_space c"
  using show_nat_digits digit_not_space [OF digit_val_digit_char] by blast

lemma solid_chars:
  "\<not> is_space (CHR ''N'')" "\<not> is_space (CHR ''T'')" "\<not> is_space (CHR ''F'')"
  "\<not> is_space (CHR ''-'')" "\<not> is_space (CHR ''.'')" "\<not> is_space (CHR ''['')"
  "\<not> is_space (CHR ''{'')" "\<not> is_space (CHR ''n'')"
  by (simp_all add: is_space_def code_def)

lemma show_nat_has_solid: "\<exists>c \<in> set (show_nat n). \<not> is_space c"
  using show_nat_solid hd_in_set [OF show_nat_nonempty] by blast

lemma show_int_solid: "\<exists>c \<in> set (show_int i). \<not> is_space c"
proof (cases "i < 0")
  case True
  then show ?thesis by (simp add: show_int_def solid_chars)
next
  case False
  then show ?thesis using show_nat_has_solid by (simp add: show_int_def)
qed

lemma float_repr_solid: "\<exists>c \<in> set (float_repr f). \<not> is_space c"
proof (cases f)
  case (Fin r)
  have "CHR ''.'' \<in> set (float_repr f)" by (simp add: Fin Let_def)
  then show ?thesis using solid_chars(5) by blast
qed (simp_all add: solid_chars)

lemma iso_date_solid: "\<exists>c \<in> set (iso_date y m d). \<not> is_space c"
proof -
  have "CHR ''-'' \<in> set (iso_date y m d)" by (simp add: iso_date_def)
  then show ?thesis using solid_chars(4) by blast
qed

lemma py_str_solid:
  assumes "\<And>s. v \<noteq> PStr s"
  shows "\<exists>c \<in> set (py_str v). \<not> is_space c"
proof (cases v)
  case (PDateTime y m d h mi s)
  then show ?thesis using iso_date_solid [of y m d] by auto
qed (use assms show_int_solid float_repr_solid iso_date_solid in \<open>simp_all add: solid_chars\<close>)

lemma str_or_none_cases:
  "str_or_none v = PNone \<or> (\<exists>s. str_or_none v = PStr (py_strip s) \<and> py_strip s \<noteq> [])"
proof (cases "v = PNone \<or> (\<exists>s. v = PStr s)")
  case True
  then consider "v = PNone" | s where "v = PStr s" by blast
  then show ?thesis
  proof cases
    case 1
    then show ?thesis by (simp add: str_or_none_def)
  next
    case (2 s)
    then show ?thesis
      by (cases "py_strip s = []") (simp_all add: str_or_none_def exI [of _ s])
  qed
next
  case False
  then obtain c where "c \<in> set (py_str v)" "\<not> is_space c"
    using py_str_solid [of v] by metis
  then have "py_strip (py_str v) \<noteq> []" by (rule strip_nonempty)
  moreover have "str_or_none v = PStr (py_strip (py_str v))"
    using False unfolding str_or_none_def by (auto split: pyval.splits)
  ultimately show ?thesis by blast
qed

lemma lower_item_idem: "lower_item x = Return y \<Longrightarrow> lower_item y = Return y"
  by (cases x) auto

lemma strip_suffix_append: "p \<noteq> [] \<Longrightarrow> strip_suffix (s @ p) p = s"
  by (simp add: strip_suffix_def endswith_def)

lemma py_float_not_other:
  "py_float v = Raise e \<Longrightarrow> e \<in> {ValueError, TypeError, OverflowError}"
  by (cases v) (auto split: if_splits option.splits)

lemma py_int_exceptions: "py_int v = Raise e \<Longrightarrow> e \<in> {ValueError, TypeError, OverflowError}"
proof (cases v)
  case (PFloat f)
  then show "py_int v = Raise e \<Longrightarrow> ?thesis" by (cases f) auto
qed (auto split: option.splits)

lemma int_or_none_total:
  assumes "py_int v \<noteq> Raise OverflowError" and "py_float v \<noteq> Raise OverflowError"
    and "\<And>f. py_float v = Return f \<Longrightarrow> f \<noteq> PosInf \<and> f \<noteq> NegInf"
  shows "is_return (int_or_none v)"
proof (cases "py_float v")
  case (Return f)
  then show ?thesis
    using assms(1,3) py_int_exceptions [of v]
    by (cases "py_int v"; cases f) (auto simp: int_or_none_def float_or_none_def)
next
  case (Raise e)
  then show ?thesis
    using assms py_float_not_other [of v e] py_int_exceptions [of v]
    by (cases "py_int v") (auto simp: int_or_none_def float_or_none_def)
qed

section \<open>Properties\<close>

text \<open>
  \<open>deepget\<close> on the facts of a system (a dict) always returns a value, whatever the path and
  however the facts are nested: it raises nothing and does not recurse forever.
\<close>

lemma deepget_facts_total: "\<exists>x. deepget (PDict facts) path = Return x"
  by (rule deepget_dict_total)

text \<open>
  \<open>str_or_none\<close> normalizes: applying it twice is the same as once, and what it returns is
  \<open>None\<close> or a text that is not empty and has no white space at either end.
\<close>

lemma str_or_none_normal:
  "str_or_none (str_or_none v) = str_or_none v
   \<and> (str_or_none v = PNone
      \<or> (\<exists>s. str_or_none v = PStr s \<and> s \<noteq> [] \<and> \<not> is_space (hd s) \<and> \<not> is_space (last s)))"
  using str_or_none_cases [of v]
  by (auto simp: str_or_none_def strip_hd strip_last)

text \<open>
  \<open>int_or_none\<close> does not return \<open>None\<close> for everything that is no integer: it raises, and then always
  an \<open>OverflowError\<close>, exactly for the infinities and the texts of numbers that are infinite as floats
  (\<open>"inf"\<close>, \<open>"1e999"\<close>).
\<close>

lemma int_or_none_raises:
  "int_or_none v = Raise e \<longleftrightarrow> e = OverflowError \<and>
     (v \<in> {PFloat PosInf, PFloat NegInf} \<or>
      (\<exists>s. v = PStr s \<and> parse_int s = None \<and> parse_float s \<in> {Some PosInf, Some NegInf}))"
proof (cases v)
  case (PFloat f)
  then show ?thesis by (cases f) (auto simp: int_or_none_def float_or_none_def)
next
  case (PStr s)
  show ?thesis
  proof (cases "parse_float s")
    case None
    then show ?thesis by (auto simp: PStr int_or_none_def float_or_none_def split: option.splits)
  next
    case (Some f)
    then show ?thesis
      by (cases f) (auto simp: PStr int_or_none_def float_or_none_def split: option.splits)
  qed
qed (auto simp: int_or_none_def)

end
