(* ===== verification/JBoss_Products.thy ===== *)
theory JBoss_Products
  imports Fact_Utils
begin

text \<open>
  Detection of the JBoss products from the raw facts of a system:
  \<open>fingerprinter/jboss_eap.py\<close>, \<open>fingerprinter/jboss_fuse.py\<close> and
  \<open>fingerprinter/jboss_web_server.py\<close>.

  A detector gets the source and the facts and returns the dict of the product, or the
  exception that malformed facts cause. Where the code builds a \<open>set\<close> of versions, the model has
  a list without duplicates, whose order is not meaningful.
\<close>

section \<open>Presence\<close>

datatype presence = UNKNOWN | ABSENT | POTENTIAL | PRESENT

fun show_presence :: "presence \<Rightarrow> string" where
  "show_presence UNKNOWN = ''unknown''"
| "show_presence ABSENT = ''absent''"
| "show_presence POTENTIAL = ''potential''"
| "show_presence PRESENT = ''present''"

text \<open>The index in \<open>PRESENCE_ORDER\<close>.\<close>

fun presence_index :: "presence \<Rightarrow> nat" where
  "presence_index UNKNOWN = 0"
| "presence_index ABSENT = 1"
| "presence_index POTENTIAL = 2"
| "presence_index PRESENT = 3"

definition presence_ge :: "presence \<Rightarrow> presence \<Rightarrow> bool" where
  "presence_ge a b \<longleftrightarrow> presence_index a \<ge> presence_index b"

instantiation presence :: linorder
begin

definition less_eq_presence :: "presence \<Rightarrow> presence \<Rightarrow> bool" where
  "less_eq_presence a b \<longleftrightarrow> presence_ge b a"

definition less_presence :: "presence \<Rightarrow> presence \<Rightarrow> bool" where
  "less_presence a b \<longleftrightarrow> \<not> presence_ge a b"

instance
proof
  fix x y z :: presence
  show "x < y \<longleftrightarrow> x \<le> y \<and> \<not> y \<le> x"
    by (auto simp: less_presence_def less_eq_presence_def presence_ge_def)
  show "x \<le> x" by (simp add: less_eq_presence_def presence_ge_def)
  show "x \<le> y \<Longrightarrow> y \<le> z \<Longrightarrow> x \<le> z" by (simp add: less_eq_presence_def presence_ge_def)
  show "x \<le> y \<Longrightarrow> y \<le> x \<Longrightarrow> x = y"
    by (cases x; cases y) (simp_all add: less_eq_presence_def presence_ge_def)
  show "x \<le> y \<or> y \<le> x" by (auto simp: less_eq_presence_def presence_ge_def)
qed

end

section \<open>JBoss EAP\<close>

definition EAP_CLASSIFICATIONS :: "(string \<times> string) list" where
  "EAP_CLASSIFICATIONS =
     [(''JBoss_4_0_0'', ''JBossAS-4''),
      (''JBoss_4_0_1_SP1'', ''JBossAS-4''),
      (''JBoss_4_0_2'', ''JBossAS-4''),
      (''JBoss_4_0_3_SP1'', ''JBossAS-4''),
      (''JBoss_4_0_4_GA'', ''JBossAS-4''),
      (''Branch_4_0'', ''JBossAS-4''),
      (''JBoss_4_2_0_GA'', ''JBossAS-4''),
      (''JBoss_4_2_1_GA'', ''JBossAS-4''),
      (''JBoss_4_2_2_GA'', ''JBossAS-4''),
      (''JBoss_4_2_3_GA'', ''JBossAS-4''),
      (''JBoss_5_0_0_GA'', ''JBossAS-5''),
      (''JBoss_5_0_1_GA'', ''JBossAS-5''),
      (''JBoss_5_1_0_GA'', ''JBossAS-5''),
      (''JBoss_6.0.0.Final'', ''JBossAS-6''),
      (''JBoss_6.1.0.Final'', ''JBossAS-6''),
      (''1.0.1.GA'', ''JBossAS-7''),
      (''1.0.2.GA'', ''JBossAS-7''),
      (''1.1.1.GA'', ''JBossAS-7''),
      (''1.2.0.CR1'', ''JBossAS-7''),
      (''1.2.0.Final'', ''WildFly-8''),
      (''1.2.2.Final'', ''WildFly-8''),
      (''1.2.4.Final'', ''WildFly-8''),
      (''1.3.0.Beta3'', ''WildFly-8''),
      (''1.3.0.Final'', ''WildFly-8''),
      (''1.3.3.Final'', ''WildFly-8''),
      (''1.3.4.Final'', ''WildFly-9''),
      (''1.4.2.Final'', ''WildFly-9''),
      (''1.4.3.Final'', ''WildFly-9''),
      (''1.4.4.Final'', ''WildFly-10''),
      (''1.5.0.Final'', ''WildFly-10''),
      (''1.5.1.Final'', ''WildFly-10''),
      (''1.5.2.Final'', ''WildFly-10''),
      (''1.6.0.Final'', ''WildFly-11''),
      (''1.6.1.Final'', ''WildFly-11''),
      (''1.7.0.Final'', ''WildFly-12''),
      (''JBPAPP_4_2_0_GA'', ''4.2''),
      (''JBPAPP_4_2_0_GA_C'', ''4.2''),
      (''JBPAPP_4_3_0_GA'', ''4.3''),
      (''JBPAPP_4_3_0_GA_C'', ''4.3''),
      (''JBPAPP_5_0_0_GA'', ''5.0.0''),
      (''JBPAPP_5_0_1'', ''5.0.1''),
      (''JBPAPP_5_1_0'', ''5.1.0''),
      (''JBPAPP_5_1_1'', ''5.1.1''),
      (''JBPAPP_5_1_2'', ''5.1.2''),
      (''JBPAPP_5_2_0'', ''5.2.0''),
      (''1.1.2.GA-redhat-1'', ''6.0.0''),
      (''1.1.3.GA-redhat-1'', ''6.0.1''),
      (''1.2.0.Final-redhat-1'', ''6.1.0''),
      (''1.2.2.Final-redhat-1'', ''6.1.1''),
      (''1.3.0.Final-redhat-2'', ''6.2.0''),
      (''1.3.3.Final-redhat-1'', ''6.3.0''),
      (''1.3.4.Final-redhat-1'', ''6.3''),
      (''1.3.5.Final-redhat-1'', ''6.3''),
      (''1.3.6.Final-redhat-1'', ''6.4.0''),
      (''1.3.7.Final-redhat-1'', ''6.4''),
      (''1.4.4.Final-redhat-1'', ''7.0''),
      (''1.5.1.Final-redhat-1'', ''7.0.0''),
      (''1.5.4.Final-redhat-1'', ''7.0''),
      (''1.6.0.Final-redhat-1'', ''7.1.0''),
      (''1.8.6.Final-redhat-00001'', ''7.2.0''),
      (''1.9.1.Final-redhat-00001'', ''7.3.0'')]"

text \<open>\<open>"Unknown-Release: " + version\<close> raises for anything but a text.\<close>

fun classify_text :: "pyval \<Rightarrow> string res" where
  "classify_text (PStr v) = Return (dget EAP_CLASSIFICATIONS v (''Unknown-Release: '' @ v))"
| "classify_text _ = Raise TypeError"

definition classify_jar_versions :: "pyval \<Rightarrow> string list res" where
  "classify_jar_versions jar_versions =
     (if \<not> truthy jar_versions then Return []
      else bind_res (py_iter jar_versions) (\<lambda>vs.
        bind_res (map_res (\<lambda>d. bind_res (vget d ''version'' PNone) classify_text) vs) (\<lambda>cs.
          Return (remdups cs))))"

fun eap_presence_scan :: "pyval list \<Rightarrow> presence res" where
  "eap_presence_scan [] = Return UNKNOWN"
| "eap_presence_scan (PStr v # vs) =
     (if startswith (dget EAP_CLASSIFICATIONS v []) ''EAP'' then Return PRESENT
      else eap_presence_scan vs)"
| "eap_presence_scan (PList _ # vs) = Raise TypeError"
| "eap_presence_scan (PDict _ # vs) = Raise TypeError"
| "eap_presence_scan (_ # vs) = eap_presence_scan vs"

definition versions_eap_presence :: "pyval \<Rightarrow> presence res" where
  "versions_eap_presence jar_versions =
     (if \<not> truthy jar_versions then Return UNKNOWN
      else bind_res (vvalues jar_versions) eap_presence_scan)"

definition classify_versions :: "pyval \<Rightarrow> string list res" where
  "classify_versions versions =
     bind_res (vvalues versions) (\<lambda>vs.
       bind_res (map_res classify_text vs) (\<lambda>cs. Return (remdups cs)))"

definition find_eap_entitlement :: "pyval \<Rightarrow> presence res" where
  "find_eap_entitlement entitlements =
     (if \<not> truthy entitlements then Return ABSENT
      else bind_res (product_entitlement_found entitlements ''JBoss EAP'') (\<lambda>found.
        Return (if found then POTENTIAL else UNKNOWN)))"

definition any_value_true :: "pyval \<Rightarrow> presence res" where
  "any_value_true obj =
     bind_res (vvalues obj) (\<lambda>vs. Return (if list_ex truthy vs then PRESENT else ABSENT))"

fun strip_item :: "pyval \<Rightarrow> string res" where
  "strip_item (PStr s) = Return (py_strip s)"
| "strip_item _ = Raise AttributeError"

definition process_version_txt :: "pyval \<Rightarrow> string list res" where
  "process_version_txt version_dict =
     bind_res (vvalues version_dict) (\<lambda>vs.
       bind_res (map_res strip_item (filter truthy vs)) (\<lambda>cs. Return (remdups cs)))"

definition verify_classification :: "string \<Rightarrow> bool" where
  "verify_classification classification =
     (\<not> (contains ''wildfly'' (py_lower classification)
         \<or> contains ''jbossas'' (py_lower classification)))"

text \<open>The classifications a manifest names, line by line, and those of a \<open>jar -version\<close> text.
  Values that are no texts are skipped with a warning.\<close>

fun manifest_classes :: "pyval \<Rightarrow> string list" where
  "manifest_classes (PStr manifest) =
     concat (map (\<lambda>line.
       if contains ''Implementation-Version:'' line then
         (case partition_at ''Implementation-Version:'' line of (_, _, ver) \<Rightarrow>
            (case map_of EAP_CLASSIFICATIONS (py_strip ver) of
               Some c \<Rightarrow> if c \<noteq> [] then [c] else []
             | None \<Rightarrow> []))
       else []) (splitlines manifest))"
| "manifest_classes _ = []"

fun jar_classes :: "pyval \<Rightarrow> string list" where
  "jar_classes (PStr version) =
     (case partition_at ''version'' version of (_, _, rest) \<Rightarrow>
        (case map_of EAP_CLASSIFICATIONS (py_strip rest) of
           Some c \<Rightarrow> if c \<noteq> [] then [c] else []
         | None \<Rightarrow> []))"
| "jar_classes _ = []"

definition is_eap_manifest_version :: "pyval \<Rightarrow> presence res" where
  "is_eap_manifest_version manifest_dict =
     bind_res (vvalues manifest_dict) (\<lambda>vs.
       Return (if list_ex verify_classification (concat (map manifest_classes vs))
               then PRESENT else ABSENT))"

definition get_eap_manifest_version :: "pyval \<Rightarrow> string list res" where
  "get_eap_manifest_version manifest_dict =
     bind_res (vvalues manifest_dict) (\<lambda>vs. Return (remdups (concat (map manifest_classes vs))))"

definition is_eap_jar_version :: "pyval \<Rightarrow> presence res" where
  "is_eap_jar_version version_dict =
     bind_res (vvalues version_dict) (\<lambda>vs.
       Return (if list_ex verify_classification (concat (map jar_classes vs))
               then PRESENT else ABSENT))"

definition get_eap_jar_version :: "pyval \<Rightarrow> string list res" where
  "get_eap_jar_version version_dict =
     bind_res (vvalues version_dict) (\<lambda>vs. Return (remdups (concat (map jar_classes vs))))"

datatype 'a fact_rule = Literal 'a | Callable "pyval \<Rightarrow> 'a res"

fun call_or_value :: "'a fact_rule \<Rightarrow> pyval \<Rightarrow> 'a res" where
  "call_or_value (Callable f) argument = f argument"
| "call_or_value (Literal x) argument = Return x"

type_synonym eap_fact = "string \<times> presence fact_rule \<times> string list fact_rule option"

definition FACTS :: "eap_fact list" where
  "FACTS =
     [(''jboss_eap_running_paths'', Literal POTENTIAL, None),
      (''jboss_eap_id_jboss'', Literal POTENTIAL, None),
      (''jboss_eap_common_files'', Literal POTENTIAL, None),
      (''jboss_processes'', Literal POTENTIAL, None),
      (''jboss_eap_packages'', Literal PRESENT, None),
      (''jboss_eap_locate_jboss_modules_jar'', Literal POTENTIAL, None),
      (''jboss_eap_systemctl_unit_files'', Literal POTENTIAL, None),
      (''jboss_eap_chkconfig'', Literal POTENTIAL, None),
      (''eap_home_ls'', Callable any_value_true, None),
      (''jboss_eap_jar_ver'', Literal PRESENT, Some (Callable classify_jar_versions)),
      (''jboss_eap_run_jar_ver'', Literal PRESENT, Some (Callable classify_jar_versions)),
      (''eap_home_version_txt'', Callable any_value_true, Some (Callable process_version_txt)),
      (''eap_home_readme_txt'', Literal ABSENT, None),
      (''eap_home_jboss_modules_manifest'', Callable is_eap_manifest_version,
        Some (Callable get_eap_manifest_version)),
      (''eap_home_jboss_modules_version'', Callable is_eap_jar_version,
        Some (Callable get_eap_jar_version)),
      (''eap5_home_version_txt'', Callable any_value_true, None),
      (''eap5_home_readme_html'', Callable any_value_true, None),
      (''eap5_home_run_jar_manifest'', Callable versions_eap_presence,
        Some (Callable classify_versions)),
      (''subman_consumed'', Callable find_eap_entitlement, None),
      (''entitlements'', Callable find_eap_entitlement, None)]"

text \<open>\<open>bisect_right\<close> of the standard library on a sorted list: the number of elements that do not
  exceed \<open>x\<close>.\<close>

definition bisect_right :: "'a :: linorder list \<Rightarrow> 'a \<Rightarrow> nat" where
  "bisect_right xs x = length (takeWhile (\<lambda>y. y \<le> x) xs)"

definition version_aware_dedup :: "string list \<Rightarrow> string list" where
  "version_aware_dedup versions =
     (let in_order = sort versions
      in remdups (filter (\<lambda>version.
           let i = bisect_right in_order version
           in \<not> (i < length in_order \<and> startswith (in_order ! i) version)) in_order))"

record eap_state =
  eap_presence :: presence
  eap_versions :: "string list"
  eap_raw_facts :: "string list"

definition eap_step :: "pydict \<Rightarrow> eap_fact \<Rightarrow> eap_state \<Rightarrow> eap_state res" where
  "eap_step facts fd s =
     (case fd of (name, presence_rule, version_rule) \<Rightarrow>
        (let fact_value = dgetn facts name
         in if \<not> truthy fact_value then Return s
            else bind_res (call_or_value presence_rule fact_value) (\<lambda>new_presence.
              let s1 = (if \<not> presence_ge (eap_presence s) new_presence
                        then s\<lparr>eap_presence := new_presence, eap_raw_facts := [name]\<rparr>
                        else if eap_presence s = new_presence \<and> eap_presence s \<noteq> UNKNOWN
                        then s\<lparr>eap_raw_facts := eap_raw_facts s @ [name]\<rparr>
                        else s)
              in (case version_rule of
                    None \<Rightarrow> Return s1
                  | Some r \<Rightarrow> bind_res (call_or_value r fact_value) (\<lambda>vs.
                      Return (s1\<lparr>eap_versions := remdups (eap_versions s1 @ vs)\<rparr>))))))"

definition source_metadata :: "pydict \<Rightarrow> pydict res" where
  "source_metadata source =
     bind_res (ditem source ''server_id'') (\<lambda>server_id.
     bind_res (ditem source ''source_name'') (\<lambda>source_name.
     bind_res (ditem source ''source_type'') (\<lambda>source_type.
       Return [(''server_id'', server_id), (''source_name'', source_name),
               (''source_type'', source_type)])))"

definition detect_jboss_eap :: "pydict \<Rightarrow> pydict \<Rightarrow> pydict res" where
  "detect_jboss_eap source facts =
     bind_res (source_metadata source) (\<lambda>metadata.
     bind_res (fold_res (eap_step facts) FACTS
         \<lparr>eap_presence = ABSENT, eap_versions = [], eap_raw_facts = []\<rparr>) (\<lambda>s.
       let versions = filter (\<lambda>v. \<not> startswith (py_lower v) ''wildfly'' \<and>
                                  \<not> startswith (py_lower v) ''jbossas'') (eap_versions s);
           presence = (if eap_versions s \<noteq> [] \<and> versions = [] then ABSENT else eap_presence s);
           raw = (if eap_raw_facts s \<noteq> [] then PStr (py_join ''/'' (eap_raw_facts s)) else PNone)
       in Return ([(''name'', PStr ''JBoss EAP''), (''presence'', PStr (show_presence presence))] @
            (if eap_versions s \<noteq> []
             then [(''version'', PList (map PStr (version_aware_dedup versions)))] else []) @
            [(''metadata'', PDict (metadata @ [(''raw_fact_key'', raw)]))])))"

section \<open>JBoss Fuse\<close>

definition FUSE_CLASSIFICATIONS :: "(string \<times> string) list" where
  "FUSE_CLASSIFICATIONS =
     [(''redhat-630187'', ''Fuse-6.3.0''), (''redhat-621084'', ''Fuse-6.2.1''),
      (''redhat-620133'', ''Fuse-6.2.0''), (''redhat-611412'', ''Fuse-6.1.1''),
      (''redhat-610379'', ''Fuse-6.1.0''), (''redhat-60024'', ''Fuse-6.0.0'')]"

definition fuse_get_version :: "pyval \<Rightarrow> pyval list res" where
  "fuse_get_version eap_version =
     bind_res (py_iter eap_version) (\<lambda>ds.
     bind_res (map_res (\<lambda>d. vitem d ''version'') ds) (\<lambda>new_versions.
     bind_res (map_res py_iter new_versions) (\<lambda>xss. Return (concat xss))))"

text \<open>An operand of a list concatenation.\<close>

fun as_list :: "pyval \<Rightarrow> pyval list res" where
  "as_list (PList xs) = Return xs"
| "as_list _ = Raise TypeError"

fun as_text :: "pyval \<Rightarrow> string res" where
  "as_text (PStr s) = Return s"
| "as_text _ = Raise TypeError"

text \<open>The versions of one component: from the home directories, from EAP, from the extended scan.\<close>

definition fuse_component :: "pydict \<Rightarrow> string \<Rightarrow> string \<Rightarrow> string
    \<Rightarrow> (pyval list \<times> pyval list \<times> pyval list) res" where
  "fuse_component facts home_key eap_key ext_key =
     (let fuse = default_getter facts home_key (PList []) in
      bind_res (fuse_get_version (default_getter facts eap_key (PList []))) (\<lambda>eap.
        (let ext = default_getter facts ext_key (PList []) in
         bind_res (as_list fuse) (\<lambda>f. bind_res (as_list ext) (\<lambda>x. Return (f, eap, x))))))"

definition any_value :: "pyval \<Rightarrow> bool res" where
  "any_value v =
     (if \<not> truthy v then Return False else bind_res (vvalues v) (\<lambda>vs. Return (list_ex truthy vs)))"

definition fuse_classify :: "string \<Rightarrow> string" where
  "fuse_classify v = dget FUSE_CLASSIFICATIONS v (''Unknown-Release: '' @ v)"

definition option_text :: "string option \<Rightarrow> pyval" where
  "option_text x = (case x of None \<Rightarrow> PNone | Some s \<Rightarrow> PStr s)"

definition fuse_product :: "pydict \<Rightarrow> presence \<Rightarrow> pyval list \<Rightarrow> pyval \<Rightarrow> pydict" where
  "fuse_product metadata presence versions raw =
     [(''name'', PStr ''JBoss Fuse''), (''presence'', PStr (show_presence presence))] @
     (if versions = [] then [] else [(''version'', PList versions)]) @
     [(''metadata'', PDict (metadata @ [(''raw_fact_key'', raw)]))]"

definition detect_jboss_fuse :: "pydict \<Rightarrow> pydict \<Rightarrow> pydict res" where
  "detect_jboss_fuse source facts =
     (let systemctl_files = dgetn facts ''jboss_fuse_systemctl_unit_files'';
          chkconfig = dgetn facts ''jboss_fuse_chkconfig'';
          subman_consumed = default_getter facts ''subman_consumed'' (PList []);
          entitlements = default_getter facts ''entitlements'' (PList []) in
      bind_res (fuse_component facts ''fuse_activemq_version'' ''jboss_fuse_on_eap_activemq_ver''
        ''jboss_activemq_ver'') (\<lambda>(fuse_a, eap_a, ext_a).
      bind_res (fuse_component facts ''fuse_camel_version'' ''jboss_fuse_on_eap_camel_ver''
        ''jboss_camel_ver'') (\<lambda>(fuse_c, eap_c, ext_c).
      bind_res (fuse_component facts ''fuse_cxf_version'' ''jboss_fuse_on_eap_cxf_ver''
        ''jboss_cxf_ver'') (\<lambda>(fuse_x, eap_x, ext_x).
      bind_res (source_metadata source) (\<lambda>metadata.
      bind_res (any_value (dgetn facts ''eap_home_bin'')) (\<lambda>is_fuse_on_eap.
      bind_res (any_value (dgetn facts ''karaf_home_bin_fuse'')) (\<lambda>is_fuse_on_karaf.
      bind_res
        (if (fuse_a @ eap_a @ ext_a \<noteq> [] \<and> fuse_c @ eap_c @ ext_c \<noteq> [] \<and> fuse_x @ eap_x @ ext_x \<noteq> [])
            \<or> is_fuse_on_eap \<or> is_fuse_on_karaf
         then bind_res (map_res as_text (fuse_a @ eap_a @ ext_a @ fuse_c @ eap_c @ ext_c @
                fuse_x @ eap_x @ ext_x)) (\<lambda>vs. Return (remdups vs))
         else Return []) (\<lambda>fuse_versions.
        if is_fuse_on_eap \<or> is_fuse_on_karaf \<or> fuse_versions \<noteq> [] then
          (let raw_facts_dict =
             [(''eap_home_bin'', PBool is_fuse_on_eap), (''karaf_home_bin_fuse'', PBool is_fuse_on_karaf),
              (''jboss_activemq_ver'', PList ext_a), (''jboss_camel_ver'', PList ext_c),
              (''jboss_cxf_ver'', PList ext_x), (''fuse_activemq_version'', PList fuse_a),
              (''fuse_camel_version'', PList fuse_c), (''fuse_cxf_version'', PList fuse_x),
              (''jboss_fuse_on_eap_activemq_ver'', PList eap_a),
              (''jboss_fuse_on_eap_camel_ver'', PList eap_c),
              (''jboss_fuse_on_eap_cxf_ver'', PList eap_x)]
           in Return (fuse_product metadata PRESENT (map (\<lambda>v. PStr (fuse_classify v)) fuse_versions)
                (option_text (generate_raw_fact_members raw_facts_dict))))
        else if truthy systemctl_files \<or> truthy chkconfig then
          Return (fuse_product metadata POTENTIAL [] (option_text (generate_raw_fact_members
            [(''jboss_fuse_systemctl_unit_files'', systemctl_files), (''jboss_fuse_chkconfig'', chkconfig)])))
        else
          bind_res (product_entitlement_found subman_consumed ''JBoss Fuse'') (\<lambda>f1.
            if f1 then Return (fuse_product metadata POTENTIAL [] (PStr ''subman_consumed''))
            else bind_res (product_entitlement_found entitlements ''JBoss Fuse'') (\<lambda>f2.
              if f2 then Return (fuse_product metadata POTENTIAL [] (PStr ''entitlements''))
              else Return (fuse_product metadata ABSENT [] PNone)))))))))))"

section \<open>JBoss Web Server\<close>

definition JWS_CLASSIFICATIONS :: "(string \<times> string) list" where
  "JWS_CLASSIFICATIONS =
     [(''Apache/2.2.10 (Unix)Apache Tomcat/5.5.23'', ''EWS 1.0.0''),
      (''Apache/2.2.14 (Unix)Apache Tomcat/5.5.28'', ''EWS 1.0.1''),
      (''Apache/2.2.17 (Unix)Apache Tomcat/5.5.33'', ''EWS 1.0.2''),
      (''Apache/2.2.22 (Unix)Apache Tomcat/6.0.35'', ''EWS 2.0.0''),
      (''Apache/2.2.22 (Unix)Apache Tomcat/6.0.37'', ''EWS 2.0.1''),
      (''Apache/2.2.26 (Unix)Apache Tomcat/6.0.41'', ''EWS 2.1.x'')]"

definition is_digit :: "char \<Rightarrow> bool" where
  "is_digit c \<longleftrightarrow> digit_val c \<noteq> None"

definition all_in :: "(char \<Rightarrow> bool) \<Rightarrow> string \<Rightarrow> bool" where
  "all_in P s \<longleftrightarrow> s \<noteq> [] \<and> list_all P s"

abbreviation digit_or_dot :: "char \<Rightarrow> bool" where
  "digit_or_dot c \<equiv> is_digit c \<or> c = CHR ''.''"

definition jws_banner :: string where
  "jws_banner = ''Red Hat JBoss Web Server - Version ''"

text \<open>Full matches of the three patterns, with their groups.\<close>

definition jws_ga :: "string \<Rightarrow> string option" where
  "jws_ga version =
     (if startswith version jws_banner then
        (let rest = drop (length jws_banner) version;
             found_version = takeWhile digit_or_dot rest
         in if found_version \<noteq> [] \<and> drop (length found_version) rest = '' GA''
            then Some found_version else None)
      else None)"

definition jws_patch :: "string \<Rightarrow> (string \<times> string) option" where
  "jws_patch version =
     (if startswith version jws_banner then
        (let rest = drop (length jws_banner) version;
             major_version = takeWhile digit_or_dot rest;
             tail = drop (length major_version) rest
         in if major_version \<noteq> [] \<and> startswith tail '' SP'' \<and> all_in is_digit (drop 3 tail)
            then Some (major_version, drop 3 tail) else None)
      else None)"

definition jws_unit :: "string \<Rightarrow> string option" where
  "jws_unit version =
     (if startswith version ''jws'' \<and> all_in is_digit (drop 3 version)
      then Some (drop 3 version) else None)"

definition jws_classify :: "string \<Rightarrow> string list" where
  "jws_classify version =
     (case map_of JWS_CLASSIFICATIONS version of
        Some std_version \<Rightarrow> [std_version]
      | None \<Rightarrow>
          if startswith version ''JWS_3'' then [replace_first (CHR ''_'') '' '' version]
          else
            (case jws_ga version of
               Some found_version \<Rightarrow> [''JWS '' @ found_version]
             | None \<Rightarrow>
                 (case jws_patch version of
                    Some (major_version, patch_version) \<Rightarrow>
                      [''JWS '' @ major_version @ ''.'' @ patch_version]
                  | None \<Rightarrow>
                      (case jws_unit version of
                         Some major_version \<Rightarrow> [''JWS '' @ major_version @ ''.x.x'']
                       | None \<Rightarrow> []))))"

fun jws_item :: "pyval \<Rightarrow> string list res" where
  "jws_item (PStr version) = Return (jws_classify version)"
| "jws_item (PList _) = Raise TypeError"
| "jws_item (PDict _) = Raise TypeError"
| "jws_item _ = Raise AttributeError"

definition jws_get_version :: "pyval \<Rightarrow> string list res" where
  "jws_get_version raw_versions =
     (if raw_versions = PNone then Return []
      else bind_res (py_iter raw_versions) (\<lambda>vs.
        bind_res (map_res jws_item vs) (\<lambda>xss. Return (concat xss))))"

definition detect_jboss_ws :: "pydict \<Rightarrow> pydict \<Rightarrow> pydict res" where
  "detect_jboss_ws source facts =
     bind_res (source_metadata source) (\<lambda>metadata.
     (let subman_consumed = dget facts ''subman_consumed'' (PList []);
          installed_with_rpm = dgetn facts ''jws_installed_with_rpm'';
          has_eula_file = dgetn facts ''jws_has_eula_txt_file'';
          jws_has_cert = dgetn facts ''jws_has_cert'' in
      bind_res (jws_get_version (dgetn facts ''jws_version'')) (\<lambda>version.
      bind_res (product_entitlement_found subman_consumed ''JBoss Web Server'') (\<lambda>entitled.
        let p1 = (if entitled then POTENTIAL else ABSENT);
            r1 = (if entitled then [(''subman_consumed'', subman_consumed)] else []);
            p2 = (if truthy has_eula_file then POTENTIAL else p1);
            r2 = (if truthy has_eula_file then r1 @ [(''jws_has_eula_txt_file'', has_eula_file)] else r1);
            p3 = (case version of
                    [] \<Rightarrow> p2
                  | ver # _ \<Rightarrow> if \<not> contains ''EWS'' ver then PRESENT else POTENTIAL);
            r3 = (if version \<noteq> [] then r2 @ [(''jws_version'', dgetn facts ''jws_version'')] else r2);
            p4 = (if truthy installed_with_rpm then PRESENT else p3);
            r4 = (if truthy installed_with_rpm
                  then r3 @ [(''jws_installed_with_rpm'', installed_with_rpm)] else r3);
            p5 = (if truthy jws_has_cert then PRESENT else p4);
            r5 = (if truthy jws_has_cert then r4 @ [(''jws_has_cert'', jws_has_cert)] else r4)
        in Return [(''name'', PStr ''JBoss Web Server''), (''presence'', PStr (show_presence p5)),
                   (''version'', PList (map PStr version)),
                   (''metadata'', PDict (metadata @
                      [(''raw_fact_key'', option_text (generate_raw_fact_members r5))]))]))))"

section \<open>Lemmas\<close>

text \<open>Between a text and one of its extensions, every text in the order is an extension too.\<close>

lemma prefix_between:
  fixes v u w :: string
  assumes "v \<le> u" and "u \<le> w" and "prefix v w"
  shows "prefix v u"
  using assms
proof (induction v arbitrary: u w)
  case Nil
  then show ?case by simp
next
  case (Cons c v)
  from Cons.prems(1) obtain c1 u1 where u: "u = c1 # u1" by (cases u) auto
  from Cons.prems(3) obtain w1 where w: "w = c # w1" "prefix v w1" by (cases w) auto
  have "c1 = c" using Cons.prems u w by auto
  then show ?case using Cons.IH [of u1 w1] Cons.prems u w by auto
qed

lemma prefix_le: "prefix v w \<Longrightarrow> v \<le> (w :: string)"
proof (induction v arbitrary: w)
  case Nil
  then show ?case by simp
next
  case (Cons c v)
  then show ?case by (cases w) auto
qed

lemma bisect_right_nth:
  assumes "sorted xs" and "i = bisect_right xs x"
  shows "(\<exists>w \<in> set xs. x < w) \<longleftrightarrow> i < length xs"
    and "i < length xs \<Longrightarrow> x < xs ! i \<and> (\<forall>w \<in> set xs. x < w \<longrightarrow> xs ! i \<le> w)"
proof -
  have gt: "x < xs ! i" if "i < length xs"
    using that nth_length_takeWhile [of "\<lambda>y. y \<le> x" xs] assms(2) by (simp add: bisect_right_def)
  have low: "xs ! k \<le> x" if "k < i" for k
    using that takeWhile_nth [of k "\<lambda>y. y \<le> x" xs] nth_mem [of k "takeWhile (\<lambda>y. y \<le> x) xs"]
      set_takeWhileD [of "xs ! k" "\<lambda>y. y \<le> x" xs] assms(2)
    by (simp add: bisect_right_def)
  have least: "xs ! i \<le> w" if i: "i < length xs" and w: "w \<in> set xs" and gt: "x < w" for w
  proof -
    obtain k where k: "k < length xs" "w = xs ! k" using w by (auto simp: in_set_conv_nth)
    then have "i \<le> k" using low [of k] gt by (meson leD not_le)
    then show ?thesis using assms(1) k by (simp add: sorted_nth_mono)
  qed
  show "(\<exists>w \<in> set xs. x < w) \<longleftrightarrow> i < length xs"
  proof
    assume "\<exists>w \<in> set xs. x < w"
    then obtain k where "k < length xs" "x < xs ! k" by (auto simp: in_set_conv_nth)
    then show "i < length xs" using low [of k] by (meson leD le_less_trans not_le)
  next
    assume "i < length xs"
    then show "\<exists>w \<in> set xs. x < w" using gt nth_mem by blast
  qed
  show "x < xs ! i \<and> (\<forall>w \<in> set xs. x < w \<longrightarrow> xs ! i \<le> w)" if "i < length xs"
    using gt [OF that] least [OF that] by blast
qed

lemma dedup_keeps:
  assumes "sorted xs" and "i = bisect_right xs v"
  shows "i < length xs \<and> startswith (xs ! i) v \<longleftrightarrow> (\<exists>w \<in> set xs. strict_prefix v (w :: string))"
proof
  assume "i < length xs \<and> startswith (xs ! i) v"
  then show "\<exists>w \<in> set xs. strict_prefix v w"
    using bisect_right_nth(2) [OF assms] nth_mem [of i xs]
    by (auto simp: startswith_def strict_prefix_def intro: bexI [of _ "xs ! i"])
next
  assume "\<exists>w \<in> set xs. strict_prefix v w"
  then obtain w where w: "w \<in> set xs" "prefix v w" "v \<noteq> w" by (auto simp: strict_prefix_def)
  then have "v < w" using prefix_le [of v w] by simp
  then have i: "i < length xs" using bisect_right_nth(1) [OF assms] w(1) by blast
  with bisect_right_nth(2) [OF assms i] have "v < xs ! i" "xs ! i \<le> w" using w(1) \<open>v < w\<close> by auto
  then show "i < length xs \<and> startswith (xs ! i) v"
    using prefix_between [of v "xs ! i" w] w(2) i by (simp add: startswith_def)
qed

lemma eap_scan_unknown: "eap_presence_scan vs = Return p \<Longrightarrow> p = UNKNOWN"
proof (induction vs rule: eap_presence_scan.induct)
  case (2 v vs)
  have "\<not> startswith (dget EAP_CLASSIFICATIONS v []) ''EAP''"
  proof (cases "map_of EAP_CLASSIFICATIONS v")
    case None
    then show ?thesis by (simp add: startswith_def)
  next
    case (Some c)
    then have "c \<in> snd ` set EAP_CLASSIFICATIONS" by (force dest: map_of_SomeD)
    moreover have "list_all (\<lambda>(_, c). \<not> startswith c ''EAP'') EAP_CLASSIFICATIONS"
      by (simp add: EAP_CLASSIFICATIONS_def startswith_def)
    ultimately show ?thesis using Some by (auto simp: list_all_iff)
  qed
  with 2 show ?case by simp
qed simp_all

lemma set_version_aware_dedup:
  "set (version_aware_dedup vs) = {v \<in> set vs. \<not> (\<exists>w \<in> set vs. strict_prefix v w)}"
  using dedup_keeps [OF sorted_sort refl, of vs]
  by (auto simp: version_aware_dedup_def Let_def)

lemma version_aware_dedup_Nil: "version_aware_dedup vs = [] \<longleftrightarrow> vs = []"
proof
  assume empty: "version_aware_dedup vs = []"
  show "vs = []"
  proof (rule ccontr)
    assume "vs \<noteq> []"
    let ?l = "Max (length ` set vs)"
    have "?l \<in> length ` set vs" using \<open>vs \<noteq> []\<close> by (intro Max_in) auto
    then obtain v where v: "v \<in> set vs" "length v = ?l" by auto
    have "length w \<le> length v" if "w \<in> set vs" for w
      using that v(2) by simp
    then have "\<not> (\<exists>w \<in> set vs. strict_prefix v w)"
      using prefix_length_less by fastforce
    with v(1) have "v \<in> set (version_aware_dedup vs)" by (simp add: set_version_aware_dedup)
    then show False using empty by simp
  qed
qed (simp add: version_aware_dedup_def)

text \<open>The presence values the facts of a system give evidence for.\<close>

definition eap_evidence :: "pydict \<Rightarrow> eap_fact list \<Rightarrow> presence list" where
  "eap_evidence facts fs =
     concat (map (\<lambda>(name, rule, _).
       if truthy (dgetn facts name)
       then (case call_or_value rule (dgetn facts name) of Return p \<Rightarrow> [p] | Raise _ \<Rightarrow> [])
       else []) fs)"

lemma eap_step_presence:
  assumes "eap_step facts fd s = Return s'"
  shows "eap_presence s' = fold max (eap_evidence facts [fd]) (eap_presence s)"
proof -
  obtain name rule ver where fd: "fd = (name, rule, ver)" by (metis surj_pair)
  show ?thesis
    using assms
    by (cases "truthy (dgetn facts name)")
      (auto simp: fd eap_step_def eap_evidence_def Let_def res_simps max_def less_eq_presence_def
        presence_ge_def split: option.splits if_splits)
qed

lemma eap_evidence_Cons: "eap_evidence facts (fd # fs) = eap_evidence facts [fd] @ eap_evidence facts fs"
  by (simp add: eap_evidence_def)

lemma eap_fold_presence:
  "fold_res (eap_step facts) fs s = Return s' \<Longrightarrow>
     eap_presence s' = fold max (eap_evidence facts fs) (eap_presence s)"
proof (induction fs arbitrary: s)
  case Nil
  then show ?case by (simp add: eap_evidence_def)
next
  case (Cons fd fs)
  then obtain s1 where "eap_step facts fd s = Return s1" "fold_res (eap_step facts) fs s1 = Return s'"
    by (auto simp: res_simps)
  with Cons.IH eap_step_presence show ?case
    by (simp add: eap_evidence_Cons [of facts fd fs])
qed

lemma fold_max_Max: "fold max ps (p :: 'a :: linorder) = Max (insert p (set ps))"
  using Max.set_eq_fold [of p ps] by simp

lemma jws_banner_nth: "jws_banner = CHR ''R'' # tl jws_banner"
  by (simp add: jws_banner_def)

section \<open>Properties\<close>

text \<open>
  C27. \<open>version_aware_dedup\<close> keeps exactly the most specific versions: a version of the input stays
  if and only if no other version of the input extends it, although the code only looks at its
  right neighbour in the sorted list.
\<close>

theorem version_aware_dedup_exact:
  "set (version_aware_dedup vs) = {v \<in> set vs. \<not> (\<exists>w \<in> set vs. strict_prefix v w)}
   \<and> distinct (version_aware_dedup vs)"
  using set_version_aware_dedup by (simp add: version_aware_dedup_def Let_def)

text \<open>
  C28. The presence of JBoss EAP is the strongest evidence any fact of the system gives, and at
  least \<open>absent\<close>; only when every version found is a WildFly or JBoss AS one is it \<open>absent\<close>
  whatever the evidence. No WildFly or JBoss AS version is reported.
\<close>

theorem eap_presence_is_strongest:
  assumes "detect_jboss_eap source facts = Return p"
  shows "dgetn p ''presence'' = PStr (show_presence
      (if map_of p ''version'' = Some (PList []) then ABSENT
       else Max (insert ABSENT (set (eap_evidence facts FACTS)))))
    \<and> (\<forall>vs v. map_of p ''version'' = Some (PList vs) \<and> v \<in> set vs \<longrightarrow>
         (\<exists>t. v = PStr t \<and> \<not> startswith (py_lower t) ''wildfly'' \<and> \<not> startswith (py_lower t) ''jbossas''))"
proof -
  let ?s0 = "\<lparr>eap_presence = ABSENT, eap_versions = [], eap_raw_facts = []\<rparr>"
  obtain metadata where m: "source_metadata source = Return metadata"
    using assms by (cases "source_metadata source") (simp_all add: detect_jboss_eap_def)
  obtain s where s: "fold_res (eap_step facts) FACTS ?s0 = Return s"
    using assms m by (cases "fold_res (eap_step facts) FACTS ?s0") (simp_all add: detect_jboss_eap_def)
  let ?vs = "filter (\<lambda>v. \<not> startswith (py_lower v) ''wildfly'' \<and> \<not> startswith (py_lower v) ''jbossas'')
    (eap_versions s)"
  have pres: "eap_presence s = Max (insert ABSENT (set (eap_evidence facts FACTS)))"
    using eap_fold_presence [OF s] by (simp add: fold_max_Max)
  note res = assms [unfolded detect_jboss_eap_def m s bind_res.simps Let_def res.inject, symmetric]
  have ver: "map_of p ''version'' =
      (if eap_versions s = [] then None else Some (PList (map PStr (version_aware_dedup ?vs))))"
    unfolding res by simp
  have p: "dgetn p ''presence'' = PStr (show_presence
      (if eap_versions s \<noteq> [] \<and> ?vs = [] then ABSENT else eap_presence s))"
    unfolding res by (simp add: dget_def)
  have "map_of p ''version'' = Some (PList []) \<longleftrightarrow> eap_versions s \<noteq> [] \<and> ?vs = []"
    unfolding ver by (simp add: version_aware_dedup_Nil)
  then have first: "dgetn p ''presence'' = PStr (show_presence
      (if map_of p ''version'' = Some (PList []) then ABSENT
       else Max (insert ABSENT (set (eap_evidence facts FACTS)))))"
    unfolding p pres by simp
  have sub: "set (version_aware_dedup ?vs) \<subseteq> set ?vs"
    unfolding set_version_aware_dedup by blast
  have "\<exists>t. v = PStr t \<and> \<not> startswith (py_lower t) ''wildfly'' \<and> \<not> startswith (py_lower t) ''jbossas''"
    if "map_of p ''version'' = Some (PList vs)" "v \<in> set vs" for vs v
  proof -
    have "vs = map PStr (version_aware_dedup ?vs)"
      using that(1) unfolding ver by (simp split: if_splits)
    with that(2) have "v \<in> PStr ` set (version_aware_dedup ?vs)" by simp
    then obtain t where "v = PStr t" "t \<in> set ?vs" using sub by blast
    then show ?thesis by simp
  qed
  with first show ?thesis by blast
qed

definition sample_source :: pydict where
  "sample_source = [(''server_id'', PStr ''srv''), (''source_name'', PStr ''lab''),
     (''source_type'', PStr ''network'')]"

theorem eap_presence_is_strongest_witness:
  "\<exists>p. detect_jboss_eap sample_source
        [(''jboss_processes'', PStr ''x''), (''jboss_eap_packages'', PBool True)] = Return p
     \<and> dgetn p ''presence'' = PStr ''present''"
proof -
  let ?f = "[(''jboss_processes'', PStr ''x''), (''jboss_eap_packages'', PBool True)]"
  have run: "\<exists>p. detect_jboss_eap sample_source ?f = Return p \<and> map_of p ''version'' = None"
    by (simp add: detect_jboss_eap_def source_metadata_def sample_source_def ditem_def FACTS_def
        eap_step_def dget_def Let_def presence_ge_def)
  then obtain p where p: "detect_jboss_eap sample_source ?f = Return p" "map_of p ''version'' = None"
    by blast
  have "eap_evidence ?f FACTS = [POTENTIAL, PRESENT]"
    by (simp add: eap_evidence_def FACTS_def dget_def)
  with eap_presence_is_strongest [OF p(1)] p show ?thesis
    by (auto simp: less_eq_presence_def presence_ge_def max_def)
qed

text \<open>
  The manifest of an EAP 5 \<open>run.jar\<close> never counts as evidence for JBoss EAP: the test
  compares the classification with the prefix \<open>EAP\<close>, which no classification has, so the
  presence it gives is never \<open>present\<close> although versions such as 5.1.0 are EAP releases.
\<close>

lemma eap5_manifest_never_present: "versions_eap_presence jar_versions \<noteq> Return PRESENT"
proof
  assume "versions_eap_presence jar_versions = Return PRESENT"
  then have "PRESENT = UNKNOWN"
    using eap_scan_unknown by (auto simp: versions_eap_presence_def res_simps split: if_splits)
  then show False by simp
qed

text \<open>
  Every version \<open>get_version\<close> reports for JBoss Web Server names the product: it starts with
  \<open>JWS \<close> or with \<open>EWS \<close>, and a patch release such as \<open>5.0 SP2\<close> is reported as \<open>JWS 5.0.2\<close>.
\<close>

lemma jws_versions_named:
  "(\<forall>v. v \<in> set (jws_classify version) \<longrightarrow> startswith v ''JWS '' \<or> startswith v ''EWS '')
   \<and> (all_in (\<lambda>c. is_digit c \<or> c = CHR ''.'') major \<and> all_in is_digit patch \<longrightarrow>
        jws_classify (jws_banner @ major @ '' SP'' @ patch) = [''JWS '' @ major @ ''.'' @ patch])"
proof (intro conjI impI allI)
  fix v
  assume "v \<in> set (jws_classify version)"
  moreover have "startswith c ''EWS ''" if "map_of JWS_CLASSIFICATIONS version = Some c" for c
  proof -
    have "list_all (\<lambda>(_, c). startswith c ''EWS '') JWS_CLASSIFICATIONS"
      by (simp add: JWS_CLASSIFICATIONS_def startswith_def)
    then show ?thesis using map_of_SomeD [OF that] by (auto simp: list_all_iff)
  qed
  moreover have "startswith (replace_first (CHR ''_'') '' '' version) ''JWS ''" if "startswith version ''JWS_3''"
    using that by (auto simp: startswith_def prefix_def)
  ultimately show "startswith v ''JWS '' \<or> startswith v ''EWS ''"
    by (auto simp: jws_classify_def startswith_def split: option.splits if_splits)
next
  let ?v = "jws_banner @ major @ '' SP'' @ patch"
  assume m: "all_in (\<lambda>c. is_digit c \<or> c = CHR ''.'') major \<and> all_in is_digit patch"
  have sp: "\<not> is_digit (CHR '' '')" by (simp add: is_digit_def digit_val_def code_def)
  have tw: "takeWhile digit_or_dot (major @ '' SP'' @ patch) = major"
    using m sp by (subst takeWhile_append2) (auto simp: all_in_def list_all_iff)
  have "jws_ga ?v = None"
    using tw by (simp add: jws_ga_def startswith_def Let_def)
  moreover have "jws_patch ?v = Some (major, patch)"
    using tw m by (simp add: jws_patch_def startswith_def Let_def all_in_def)
  moreover have "map_of JWS_CLASSIFICATIONS ?v = None" "\<not> startswith ?v ''JWS_3''"
    by (subst jws_banner_nth, simp add: JWS_CLASSIFICATIONS_def startswith_def)+
  ultimately show "jws_classify ?v = [''JWS '' @ major @ ''.'' @ patch]"
    by (simp add: jws_classify_def)
qed

lemma jws_versions_named_example:
  "jws_classify ''Red Hat JBoss Web Server - Version 5.0 SP2'' = [''JWS 5.0.2'']"
proof -
  have d: "all_in (\<lambda>c. is_digit c \<or> c = CHR ''.'') ''5.0''" "all_in is_digit ''2''"
    by (simp_all add: all_in_def is_digit_def digit_val_def code_def)
  have "jws_classify (jws_banner @ ''5.0'' @ '' SP'' @ ''2'') = [''JWS '' @ ''5.0'' @ ''.'' @ ''2'']"
    using jws_versions_named [of "[]" "''5.0''" "''2''"] d by blast
  then show ?thesis by (simp add: jws_banner_def)
qed

end
