(* ===== verification/Fingerprint_Merge.thy ===== *)
theory Fingerprint_Merge
  imports JBoss_Products
begin

text \<open>
  Merging two fingerprints: \<open>_merge_fingerprint\<close> of \<open>fingerprinter/runner.py\<close>.

  A fingerprint is a dict. Copies made by \<open>deepcopy\<close> need no counterpart, values are not shared.
  A Python \<open>set\<close> of keys is a list without duplicates; the order in which the code walks through
  it does not matter, since it only writes to different keys.

  \<open>fp_ok\<close> is what the engine keeps true of its fingerprints; on such fingerprints a merge
  succeeds, and \<open>merge_spec\<close> says what it returns.
\<close>

type_synonym fingerprint = pydict

definition META_DATA_KEY :: string where "META_DATA_KEY = ''metadata''"
definition ENTITLEMENTS_KEY :: string where "ENTITLEMENTS_KEY = ''entitlements''"
definition PRODUCTS_KEY :: string where "PRODUCTS_KEY = ''products''"
definition SOURCES_KEY :: string where "SOURCES_KEY = ''sources''"
definition GLOBAL_ID_KEY :: string where "GLOBAL_ID_KEY = ''FINGERPRINT_GLOBAL_ID''"

lemmas fp_keys = META_DATA_KEY_def ENTITLEMENTS_KEY_def PRODUCTS_KEY_def SOURCES_KEY_def GLOBAL_ID_KEY_def

section \<open>Merging two fingerprints\<close>

text \<open>The argument \<open>reverse_priority_keys\<close>: absent, a tuple or a set. The code takes a value only
  into account when it is a set.\<close>

datatype key_arg = No_keys | Key_tuple "string list" | Key_set "string list"

fun reverse_keys :: "key_arg \<Rightarrow> string list" where
  "reverse_keys (Key_set ks) = ks"
| "reverse_keys _ = []"

definition has_sudo :: "fingerprint \<Rightarrow> string \<Rightarrow> bool res" where
  "has_sudo fp key =
     bind_res (vget (dget fp META_DATA_KEY (PDict [])) key (PDict [])) (\<lambda>md.
     bind_res (vget md ''has_sudo'' (PBool False)) (\<lambda>v. Return (truthy v)))"

text \<open>Whether the value of a common key is taken from the fingerprint to merge.\<close>

definition takes_merge_value :: "fingerprint \<Rightarrow> fingerprint \<Rightarrow> string \<Rightarrow> bool res" where
  "takes_merge_value priority to_merge key =
     (if dgetn priority key = PNone \<and> dgetn to_merge key \<noteq> PNone then Return True
      else bind_res (has_sudo priority key) (\<lambda>priority_sudo.
           bind_res (has_sudo to_merge key) (\<lambda>to_merge_sudo.
             Return (\<not> priority_sudo \<and> to_merge_sudo))))"

definition keys_to_add :: "fingerprint \<Rightarrow> fingerprint \<Rightarrow> key_arg \<Rightarrow> string list res" where
  "keys_to_add priority to_merge reverse_priority_keys =
     (let new_keys = filter (\<lambda>k. \<not> has_key priority k) (map fst to_merge) @
                     reverse_keys reverse_priority_keys;
          common = filter (\<lambda>k. has_key to_merge k \<and>
                     k \<notin> {ENTITLEMENTS_KEY, META_DATA_KEY, PRODUCTS_KEY}) (map fst priority)
      in bind_res (map_res (\<lambda>k. bind_res (takes_merge_value priority to_merge k) (\<lambda>b.
             Return (if b then [k] else []))) common) (\<lambda>kss.
           Return (remdups (new_keys @ concat kss))))"

definition merge_fact :: "fingerprint \<Rightarrow> string \<Rightarrow> fingerprint \<Rightarrow> fingerprint res" where
  "merge_fact to_merge k priority =
     bind_res (ditem to_merge META_DATA_KEY) (\<lambda>mm.
     bind_res (vitem mm k) (\<lambda>mv.
     bind_res (ditem priority META_DATA_KEY) (\<lambda>pm.
       (case pm of
          PDict d \<Rightarrow>
            Return (AList.update k (dgetn to_merge k)
              (AList.update META_DATA_KEY (PDict (AList.update k mv d)) priority))
        | _ \<Rightarrow> Raise TypeError))))"

definition add_missing :: "pydict \<Rightarrow> pydict \<Rightarrow> pydict" where
  "add_missing new old = fold (\<lambda>(k, v) d. if has_key d k then d else AList.update k v d) new old"

text \<open>The sources of a fingerprint are a dict until the post-processing.\<close>

definition merge_sources :: "fingerprint \<Rightarrow> fingerprint \<Rightarrow> fingerprint res" where
  "merge_sources to_merge priority =
     bind_res (ditem priority SOURCES_KEY) (\<lambda>priority_sources.
     bind_res (ditem to_merge SOURCES_KEY) (\<lambda>to_merge_sources.
       (case (priority_sources, to_merge_sources) of
          (PDict ps, PDict ms) \<Rightarrow>
            Return (AList.update SOURCES_KEY (PDict (add_missing ms ps)) priority)
        | _ \<Rightarrow> Raise TypeError)))"

text \<open>\<open>f"{entitlement.get('name', '_')}:{entitlement.get('entitlement_id', '_')}"\<close>\<close>

definition unique_entitlement_id :: "pyval \<Rightarrow> string res" where
  "unique_entitlement_id entitlement =
     bind_res (vget entitlement ''name'' (PStr ''_'')) (\<lambda>name.
     bind_res (vget entitlement ''entitlement_id'' (PStr ''_'')) (\<lambda>i.
       Return (py_str name @ '':'' @ py_str i)))"

fun unique_entitlements :: "string list \<Rightarrow> pyval list \<Rightarrow> pyval list res" where
  "unique_entitlements seen [] = Return []"
| "unique_entitlements seen (e # es) =
     bind_res (unique_entitlement_id e) (\<lambda>i.
       if i \<in> set seen then unique_entitlements seen es
       else bind_res (unique_entitlements (i # seen) es) (\<lambda>rest. Return (e # rest)))"

definition merge_entitlements :: "fingerprint \<Rightarrow> fingerprint \<Rightarrow> fingerprint res" where
  "merge_entitlements to_merge priority =
     (if truthy (dgetn to_merge ENTITLEMENTS_KEY) then
        bind_res (as_list (dget priority ENTITLEMENTS_KEY (PList []))) (\<lambda>ps.
        bind_res (as_list (dget to_merge ENTITLEMENTS_KEY (PList []))) (\<lambda>ms.
        bind_res (unique_entitlements [] (ps @ ms)) (\<lambda>es.
          Return (AList.update ENTITLEMENTS_KEY (PList es) priority))))
      else Return priority)"

text \<open>\<open>prod["name"]\<close> as the key of a dict.\<close>

definition prod_key :: "pyval \<Rightarrow> pyval res" where
  "prod_key p =
     bind_res (vitem p ''name'') (\<lambda>n. if is_list n \<or> is_dict n then Raise TypeError else Return n)"

definition merge_product ::
  "pyval \<Rightarrow> (pyval \<times> pyval) list \<Rightarrow> (pyval \<times> pyval) list res" where
  "merge_product pr d =
     bind_res (prod_key pr) (\<lambda>n.
       (case map_of d n of
          None \<Rightarrow> Raise AttributeError
        | Some merge_prod \<Rightarrow>
            bind_res (vget merge_prod ''presence'' PNone) (\<lambda>presence.
              if truthy merge_prod \<and> presence = PStr ''absent'' then
                bind_res (vget pr ''presence'' PNone) (\<lambda>p.
                  Return (if p \<noteq> PStr ''absent'' then AList.update n pr d else d))
              else Return d)))"

definition merge_products :: "fingerprint \<Rightarrow> fingerprint \<Rightarrow> fingerprint res" where
  "merge_products to_merge priority =
     (if truthy (dgetn to_merge PRODUCTS_KEY) then
        (if \<not> has_key priority PRODUCTS_KEY
         then Return (AList.update PRODUCTS_KEY (dgetn to_merge PRODUCTS_KEY) priority)
         else
           bind_res (py_iter (dget priority PRODUCTS_KEY (PList []))) (\<lambda>ps.
           bind_res (fold_res (\<lambda>p d. bind_res (prod_key p) (\<lambda>n. Return (AList.update n p d))) ps []) (\<lambda>d0.
           bind_res (py_iter (dget to_merge PRODUCTS_KEY (PList []))) (\<lambda>ms.
           bind_res (fold_res merge_product ms d0) (\<lambda>d.
             Return (AList.update PRODUCTS_KEY (PList (map snd d)) priority))))))
      else Return priority)"

definition merge_fingerprint :: "key_arg \<Rightarrow> fingerprint \<Rightarrow> fingerprint \<Rightarrow> fingerprint res" where
  "merge_fingerprint reverse_priority_keys priority to_merge =
     bind_res (keys_to_add priority to_merge reverse_priority_keys) (\<lambda>ks.
     bind_res (fold_res (merge_fact to_merge) ks priority) (\<lambda>p1.
     bind_res (merge_sources to_merge p1) (\<lambda>p2.
     bind_res (merge_entitlements to_merge p2) (\<lambda>p3.
       merge_products to_merge p3))))"

section \<open>Well-formed fingerprints\<close>

definition special_keys :: "string list" where
  "special_keys = [META_DATA_KEY, SOURCES_KEY, ENTITLEMENTS_KEY, PRODUCTS_KEY, GLOBAL_ID_KEY]"

fun product_name :: "pyval \<Rightarrow> string option" where
  "product_name (PDict d) = (case map_of d ''name'' of Some (PStr n) \<Rightarrow> Some n | _ \<Rightarrow> None)"
| "product_name _ = None"

text \<open>The metadata of one fact names the source it comes from.\<close>

fun meta_entry :: "pyval \<Rightarrow> bool" where
  "meta_entry (PDict d) \<longleftrightarrow> has_key d ''source_type'' \<and> has_key d ''source_name''"
| "meta_entry _ = False"

lemma meta_entry_conv: "meta_entry v \<longleftrightarrow> (\<exists>d. v = PDict d \<and> has_key d ''source_type'' \<and> has_key d ''source_name'')"
  by (cases v) auto

text \<open>
  A fingerprint as the engine builds it: its metadata is a dict with an entry for every
  ordinary fact, its sources are a dict, its entitlements dicts, its products dicts with the given
  names; \<open>g\<close> says whether it carries a global id.
\<close>

definition fp_ok :: "string list \<Rightarrow> bool \<Rightarrow> fingerprint \<Rightarrow> bool" where
  "fp_ok names g fp \<longleftrightarrow> wf_dict fp \<and>
     (case map_of fp META_DATA_KEY of
        Some (PDict md) \<Rightarrow> wf_dict md \<and> list_all (\<lambda>(k, v). meta_entry v \<and> k \<notin> set special_keys) md \<and>
          list_all (\<lambda>k. k \<in> set special_keys \<or> has_key md k) (map fst fp)
      | _ \<Rightarrow> False) \<and>
     (case map_of fp SOURCES_KEY of Some (PDict ss) \<Rightarrow> wf_dict ss | _ \<Rightarrow> False) \<and>
     (case map_of fp ENTITLEMENTS_KEY of Some (PList es) \<Rightarrow> list_all is_dict es | _ \<Rightarrow> False) \<and>
     (case map_of fp PRODUCTS_KEY of
        Some (PList ps) \<Rightarrow> list_all (\<lambda>p. product_name p \<noteq> None) ps \<and>
          set (map product_name ps) = Some ` set names
      | _ \<Rightarrow> False) \<and>
     (case map_of fp GLOBAL_ID_KEY of None \<Rightarrow> \<not> g | Some v \<Rightarrow> g \<and> is_str v)"

text \<open>The metadata of a fingerprint and the sudo flag of a fact, as total functions.\<close>

definition fp_meta :: "fingerprint \<Rightarrow> pydict" where
  "fp_meta fp = (case map_of fp META_DATA_KEY of Some (PDict md) \<Rightarrow> md | _ \<Rightarrow> [])"

definition fp_sources :: "fingerprint \<Rightarrow> pydict" where
  "fp_sources fp = (case map_of fp SOURCES_KEY of Some (PDict ss) \<Rightarrow> ss | _ \<Rightarrow> [])"

definition fp_list :: "string \<Rightarrow> fingerprint \<Rightarrow> pyval list" where
  "fp_list k fp = (case map_of fp k of Some (PList xs) \<Rightarrow> xs | _ \<Rightarrow> [])"

definition sudo_flag :: "fingerprint \<Rightarrow> string \<Rightarrow> bool" where
  "sudo_flag fp k =
     (case map_of (fp_meta fp) k of
        Some (PDict m) \<Rightarrow> truthy (dget m ''has_sudo'' (PBool False))
      | _ \<Rightarrow> False)"

text \<open>The rule for one ordinary fact.\<close>

definition prefers_merge :: "fingerprint \<Rightarrow> fingerprint \<Rightarrow> string \<Rightarrow> bool" where
  "prefers_merge p m k \<longleftrightarrow> has_key m k \<and>
     (\<not> has_key p k \<or> dgetn p k = PNone \<and> dgetn m k \<noteq> PNone \<or> \<not> sudo_flag p k \<and> sudo_flag m k)"

lemma wf_list_all_map_of:
  "wf_dict d \<Longrightarrow> list_all (\<lambda>(k, v). P k v) d \<longleftrightarrow> (\<forall>k v. map_of d k = Some v \<longrightarrow> P k v)"
  by (auto simp: wf_dict_def list_all_iff map_of_eq_Some_iff)

lemma fp_ok_meta:
  assumes "fp_ok N g fp"
  shows "map_of fp META_DATA_KEY = Some (PDict (fp_meta fp))" and "wf_dict (fp_meta fp)"
    and "map_of (fp_meta fp) k = Some v \<Longrightarrow> meta_entry v \<and> k \<notin> set special_keys"
    and "has_key fp k \<Longrightarrow> k \<notin> set special_keys \<Longrightarrow> has_key (fp_meta fp) k"
  using assms
  by (auto simp: fp_ok_def fp_meta_def list_all_iff has_key_def dest: map_of_SomeD
      split: option.splits pyval.splits)

lemma fp_ok_rest:
  assumes "fp_ok N g fp"
  shows "wf_dict fp" and "map_of fp SOURCES_KEY = Some (PDict (fp_sources fp))" and "wf_dict (fp_sources fp)"
    and "map_of fp ENTITLEMENTS_KEY = Some (PList (fp_list ENTITLEMENTS_KEY fp))"
    and "list_all is_dict (fp_list ENTITLEMENTS_KEY fp)"
    and "map_of fp PRODUCTS_KEY = Some (PList (fp_list PRODUCTS_KEY fp))"
    and "list_all (\<lambda>p. product_name p \<noteq> None) (fp_list PRODUCTS_KEY fp)"
    and "set (map product_name (fp_list PRODUCTS_KEY fp)) = Some ` set N"
    and "has_key fp GLOBAL_ID_KEY = g" and "map_of fp GLOBAL_ID_KEY = Some v \<Longrightarrow> is_str v"
  using assms
  by (auto simp: fp_ok_def fp_sources_def fp_list_def has_key_map_of split: option.splits pyval.splits)

text \<open>The converse: what makes a fingerprint well-formed.\<close>

lemma fp_okI:
  assumes "wf_dict fp" and "map_of fp META_DATA_KEY = Some (PDict md)" and "wf_dict md"
    and "\<And>k v. map_of md k = Some v \<Longrightarrow> meta_entry v \<and> k \<notin> set special_keys"
    and "\<And>k. has_key fp k \<Longrightarrow> k \<notin> set special_keys \<Longrightarrow> has_key md k"
    and "map_of fp SOURCES_KEY = Some (PDict ss)" and "wf_dict ss"
    and "map_of fp ENTITLEMENTS_KEY = Some (PList es)" and "list_all is_dict es"
    and "map_of fp PRODUCTS_KEY = Some (PList ps)" and "list_all (\<lambda>p. product_name p \<noteq> None) ps"
    and "set (map product_name ps) = Some ` set N"
    and "has_key fp GLOBAL_ID_KEY = g" and "\<And>v. map_of fp GLOBAL_ID_KEY = Some v \<Longrightarrow> is_str v"
  shows "fp_ok N g fp"
proof -
  have "list_all (\<lambda>(k, v). meta_entry v \<and> k \<notin> set special_keys) md"
    using assms(3,4) by (simp add: wf_list_all_map_of)
  moreover have "list_all (\<lambda>k. k \<in> set special_keys \<or> has_key md k) (map fst fp)"
    using assms(5) by (auto simp: list_all_iff has_key_def)
  moreover have "case map_of fp GLOBAL_ID_KEY of None \<Rightarrow> \<not> g | Some v \<Rightarrow> g \<and> is_str v"
    using assms(13,14) by (auto simp: has_key_map_of split: option.splits)
  ultimately show ?thesis
    using assms by (simp add: fp_ok_def)
qed

section \<open>The stages of a merge\<close>

lemma has_sudo_ok:
  assumes "fp_ok N g fp"
  shows "has_sudo fp k = Return (sudo_flag fp k)"
  using fp_ok_meta(1) [OF assms] fp_ok_meta(3) [OF assms, of k]
  by (cases "map_of (fp_meta fp) k")
    (auto simp: has_sudo_def sudo_flag_def meta_entry_conv dget_def)

lemma takes_merge_value_ok:
  assumes "fp_ok N g p" and "fp_ok N' g' m"
  shows "takes_merge_value p m k =
    Return (dgetn p k = PNone \<and> dgetn m k \<noteq> PNone \<or> \<not> sudo_flag p k \<and> sudo_flag m k)"
  by (auto simp: takes_merge_value_def has_sudo_ok [OF assms(1)] has_sudo_ok [OF assms(2)])

lemma special_not_preferred:
  assumes "fp_ok N g p" and "fp_ok N' g m" and "k \<in> set special_keys"
  shows "\<not> prefers_merge p m k"
proof -
  have nosudo: "\<not> sudo_flag m k"
    using fp_ok_meta(3) [OF assms(2), of k] assms(3)
    by (auto simp: sudo_flag_def split: option.splits pyval.splits)
  have "dgetn p k \<noteq> PNone" if "has_key p k"
    using that assms(3) fp_ok_meta(1) [OF assms(1)] fp_ok_rest [OF assms(1)]
    by (auto simp: special_keys_def has_key_map_of is_str_conv)
  moreover have "has_key m k \<Longrightarrow> has_key p k"
    using assms(3) fp_ok_meta(1) [OF assms(1)] fp_ok_rest [OF assms(1)] fp_ok_rest(9) [OF assms(2)]
    by (auto simp: special_keys_def has_key_map_of)
  ultimately show ?thesis using nosudo by (auto simp: prefers_merge_def)
qed

lemma keys_to_add_ok:
  assumes "fp_ok N g p" and "fp_ok N' g m"
  obtains ks where "keys_to_add p m No_keys = Return ks" and "set ks = {k. prefers_merge p m k}"
    and "distinct ks"
proof -
  let ?take = "\<lambda>k. dgetn p k = PNone \<and> dgetn m k \<noteq> PNone \<or> \<not> sudo_flag p k \<and> sudo_flag m k"
  let ?new = "filter (\<lambda>k. \<not> has_key p k) (map fst m)"
  let ?common = "filter (\<lambda>k. has_key m k \<and> k \<notin> {ENTITLEMENTS_KEY, META_DATA_KEY, PRODUCTS_KEY}) (map fst p)"
  let ?ks = "remdups (?new @ concat (map (\<lambda>k. if ?take k then [k] else []) ?common))"
  have res: "map_res (\<lambda>k. bind_res (takes_merge_value p m k) (\<lambda>b. Return (if b then [k] else []))) ?common
      = Return (map (\<lambda>k. if ?take k then [k] else []) ?common)"
    by (rule map_res_Return_all) (simp add: takes_merge_value_ok [OF assms])
  have 1: "keys_to_add p m No_keys = Return ?ks"
    unfolding keys_to_add_def Let_def reverse_keys.simps append_Nil2 res bind_res.simps ..
  have spec: "k \<notin> {ENTITLEMENTS_KEY, META_DATA_KEY, PRODUCTS_KEY}" if "prefers_merge p m k" for k
    using special_not_preferred [OF assms, of k] that by (auto simp: special_keys_def)
  have "k \<in> set ?ks \<longleftrightarrow> prefers_merge p m k" for k
    using spec [of k] by (auto simp: prefers_merge_def has_key_def split: if_splits)
  then have 2: "set ?ks = {k. prefers_merge p m k}" by blast
  have 3: "distinct ?ks" by simp
  from that [OF 1 2 3] show ?thesis .
qed

text \<open>The loop that copies facts and their metadata.\<close>

lemma merge_facts_loop:
  assumes "map_of m META_DATA_KEY = Some (PDict mm)" and "map_of p META_DATA_KEY = Some (PDict pm)"
    and "\<forall>k \<in> set ks. has_key mm k \<and> k \<noteq> META_DATA_KEY"
  shows "\<exists>r rm. fold_res (merge_fact m) ks p = Return r \<and> map_of r META_DATA_KEY = Some (PDict rm)
    \<and> (\<forall>k. map_of rm k = (if k \<in> set ks then map_of mm k else map_of pm k))
    \<and> (\<forall>k. k \<noteq> META_DATA_KEY \<longrightarrow> map_of r k = (if k \<in> set ks then Some (dgetn m k) else map_of p k))
    \<and> (wf_dict p \<longrightarrow> wf_dict r) \<and> (wf_dict pm \<longrightarrow> wf_dict rm)"
  using assms(2,3)
proof (induction ks arbitrary: p pm)
  case Nil
  then show ?case by auto
next
  case (Cons k ks)
  then obtain mv where mv: "map_of mm k = Some mv" and k: "k \<noteq> META_DATA_KEY"
    by (auto simp: has_key_map_of)
  let ?pm = "AList.update k mv pm"
  let ?p = "AList.update k (dgetn m k) (AList.update META_DATA_KEY (PDict ?pm) p)"
  have step: "merge_fact m k p = Return ?p"
    by (simp add: merge_fact_def ditem_def assms(1) Cons.prems(1) mv)
  have "map_of ?p META_DATA_KEY = Some (PDict ?pm)" using k by (simp add: dict_simps)
  from Cons.IH [OF this] Cons.prems(2) obtain r rm where
    r: "fold_res (merge_fact m) ks ?p = Return r" "map_of r META_DATA_KEY = Some (PDict rm)"
      "\<forall>k. map_of rm k = (if k \<in> set ks then map_of mm k else map_of ?pm k)"
      "\<forall>k. k \<noteq> META_DATA_KEY \<longrightarrow> map_of r k = (if k \<in> set ks then Some (dgetn m k) else map_of ?p k)"
      "wf_dict ?p \<longrightarrow> wf_dict r" "wf_dict ?pm \<longrightarrow> wf_dict rm"
    by auto
  have "wf_dict p \<longrightarrow> wf_dict r" "wf_dict pm \<longrightarrow> wf_dict rm"
    using r(5,6) by auto
  moreover have "\<forall>x. map_of rm x = (if x \<in> set (k # ks) then map_of mm x else map_of pm x)"
    using r(3) mv by (auto simp: dict_simps)
  moreover have "\<forall>x. x \<noteq> META_DATA_KEY \<longrightarrow>
      map_of r x = (if x \<in> set (k # ks) then Some (dgetn m x) else map_of p x)"
    using r(4) by (auto simp: dict_simps)
  ultimately show ?case
    using r(1,2) step by auto
qed

lemma add_missing_map_of:
  "map_of (add_missing new old) k =
     (case map_of old k of Some v \<Rightarrow> Some v | None \<Rightarrow> map_of new k)"
proof (induction new arbitrary: old)
  case Nil
  then show ?case by (simp add: add_missing_def split: option.splits)
next
  case (Cons a new)
  obtain x v where a: "a = (x, v)" by fastforce
  have "map_of (add_missing (a # new) old) k =
    map_of (add_missing new (if has_key old x then old else AList.update x v old)) k"
    by (simp add: add_missing_def a)
  then show ?case
    by (auto simp: Cons.IH a dict_simps has_key_map_of split: option.splits)
qed

lemma add_missing_wf: "wf_dict old \<Longrightarrow> wf_dict (add_missing new old)"
  unfolding add_missing_def
proof (induction new arbitrary: old)
  case Nil
  then show ?case by simp
next
  case (Cons a new)
  have "wf_dict (case a of (k, v) \<Rightarrow> if has_key old k then old else AList.update k v old)"
    using wf_dict_update [OF Cons.prems] Cons.prems by (cases a) simp
  from Cons.IH [OF this] show ?case by (cases a) simp
qed

lemma unique_entitlement_id_ok: "is_dict e \<Longrightarrow> \<exists>i. unique_entitlement_id e = Return i"
  by (auto simp: is_dict_conv unique_entitlement_id_def)

definition entitlement_id :: "pyval \<Rightarrow> string" where
  "entitlement_id e = (case unique_entitlement_id e of Return i \<Rightarrow> i | Raise _ \<Rightarrow> [])"

lemma unique_entitlements_ok:
  assumes "list_all is_dict es"
  shows "\<exists>us. unique_entitlements seen es = Return us \<and> set us \<subseteq> set es
    \<and> entitlement_id ` set us = entitlement_id ` set es - set seen
    \<and> distinct (map entitlement_id us)"
  using assms
proof (induction es arbitrary: seen)
  case Nil
  then show ?case by simp
next
  case (Cons e es)
  from Cons.prems obtain i where i: "unique_entitlement_id e = Return i"
    using unique_entitlement_id_ok [of e] by auto
  then have id: "entitlement_id e = i" by (simp add: entitlement_id_def)
  show ?case
  proof (cases "i \<in> set seen")
    case True
    with Cons.IH [of seen] Cons.prems obtain us where
      "unique_entitlements seen es = Return us" "set us \<subseteq> set es"
      "entitlement_id ` set us = entitlement_id ` set es - set seen" "distinct (map entitlement_id us)"
      by auto
    with True show ?thesis by (auto simp: i id)
  next
    case False
    with Cons.IH [of "i # seen"] Cons.prems obtain us where
      us: "unique_entitlements (i # seen) es = Return us" "set us \<subseteq> set es"
      "entitlement_id ` set us = entitlement_id ` set es - set (i # seen)" "distinct (map entitlement_id us)"
      by auto
    have "entitlement_id ` set (e # us) = entitlement_id ` set (e # es) - set seen"
      using us(3) False id by auto
    moreover have "i \<notin> entitlement_id ` set us" using us(3) by auto
    ultimately show ?thesis using us False by (auto simp: i id)
  qed
qed

text \<open>The dict of products by name.\<close>

definition prod_dict_ok :: "(pyval \<times> pyval) list \<Rightarrow> bool" where
  "prod_dict_ok d \<longleftrightarrow> list_all (\<lambda>(n, p). case product_name p of Some x \<Rightarrow> n = PStr x | None \<Rightarrow> False) d"

lemma prod_key_ok: "product_name p = Some n \<Longrightarrow> prod_key p = Return (PStr n)"
  by (cases p) (auto simp: prod_key_def ditem_def split: option.splits pyval.splits)

lemma set_AList_update: "set (AList.update k v d) \<subseteq> insert (k, v) (set d)"
proof (induction d)
  case Nil
  then show ?case by simp
next
  case (Cons a d)
  then show ?case by (cases a) auto
qed

lemma prod_dict_update:
  assumes "prod_dict_ok d" and "product_name p = Some n"
  shows "prod_dict_ok (AList.update (PStr n) p d)"
proof -
  have "\<forall>x \<in> insert (PStr n, p) (set d).
      (\<lambda>(n, p). case product_name p of Some x \<Rightarrow> n = PStr x | None \<Rightarrow> False) x"
    using assms by (simp add: prod_dict_ok_def list_all_iff)
  then show ?thesis
    using set_AList_update [of "PStr n" p d] unfolding prod_dict_ok_def list_all_iff by blast
qed

lemma keys_AList_update: "fst ` set (AList.update k v d) = insert k (fst ` set d)"
  using dom_update [of k v d] by simp

lemma product_dict_loop:
  assumes "list_all (\<lambda>p. product_name p \<noteq> None) ps" and "prod_dict_ok d"
  shows "\<exists>d'. fold_res (\<lambda>p d. bind_res (prod_key p) (\<lambda>n. Return (AList.update n p d))) ps d = Return d'
    \<and> prod_dict_ok d' \<and> fst ` set d' = fst ` set d \<union> (\<lambda>p. PStr (the (product_name p))) ` set ps"
  using assms
proof (induction ps arbitrary: d)
  case Nil
  then show ?case by simp
next
  case (Cons p ps)
  then obtain n where n: "product_name p = Some n" by auto
  have "prod_dict_ok (AList.update (PStr n) p d)" using Cons.prems n prod_dict_update by blast
  with Cons.IH [OF _ this] Cons.prems obtain d' where
    "fold_res (\<lambda>p d. bind_res (prod_key p) (\<lambda>n. Return (AList.update n p d))) ps (AList.update (PStr n) p d) = Return d'"
    "prod_dict_ok d'"
    "fst ` set d' = fst ` set (AList.update (PStr n) p d) \<union> (\<lambda>p. PStr (the (product_name p))) ` set ps"
    by auto
  then show ?case
    by (simp add: prod_key_ok [OF n] n keys_AList_update)
qed

lemma merge_product_known:
  assumes "product_name p = Some n" and "prod_dict_ok d" and "PStr n \<in> fst ` set d"
  obtains d' where "merge_product p d = Return d'" and "prod_dict_ok d'" and "fst ` set d' = fst ` set d"
proof -
  from assms(3) obtain q where q: "map_of d (PStr n) = Some q"
    by (metis map_of_eq_None_iff not_None_eq)
  then have "product_name q \<noteq> None"
    using assms(2) map_of_SomeD [OF q] by (force simp: prod_dict_ok_def list_all_iff split: option.splits)
  then obtain qd where qd: "q = PDict qd" by (cases q) auto
  obtain pd where pd: "p = PDict pd" using assms(1) by (cases p) auto
  have upd: "prod_dict_ok (AList.update (PStr n) p d) \<and> fst ` set (AList.update (PStr n) p d) = fst ` set d"
    using prod_dict_update [of d p n] assms by (simp add: keys_AList_update insert_absorb)
  have "\<exists>d'. merge_product p d = Return d' \<and> prod_dict_ok d' \<and> fst ` set d' = fst ` set d"
    using upd assms(2) by (simp add: merge_product_def prod_key_ok [OF assms(1)] q qd) (simp add: pd)
  with that show ?thesis by blast
qed

lemma merge_product_unknown:
  "product_name p = Some n \<Longrightarrow> PStr n \<notin> fst ` set d \<Longrightarrow> merge_product p d = Raise AttributeError"
  by (simp add: merge_product_def prod_key_ok map_of_eq_None_iff [THEN iffD2])

lemma merge_products_loop:
  assumes "list_all (\<lambda>p. product_name p \<noteq> None) ms" and "prod_dict_ok d"
    and "(\<lambda>p. PStr (the (product_name p))) ` set ms \<subseteq> fst ` set d"
  shows "\<exists>d'. fold_res merge_product ms d = Return d' \<and> prod_dict_ok d' \<and> fst ` set d' = fst ` set d"
proof (rule fold_res_total [where I = "\<lambda>d'. prod_dict_ok d' \<and> fst ` set d' = fst ` set d"])
  fix p d'
  assume p: "p \<in> set ms" and d': "prod_dict_ok d' \<and> fst ` set d' = fst ` set d"
  obtain n where n: "product_name p = Some n" using p assms(1) by (auto simp: list_all_iff)
  then have "PStr n \<in> fst ` set d'" using p assms(3) d' by force
  with n d' show "\<exists>s'. merge_product p d' = Return s' \<and> prod_dict_ok s' \<and> fst ` set s' = fst ` set d"
    by (metis merge_product_known)
qed (use assms in simp_all)

lemma merge_products_loop_unknown:
  "list_all (\<lambda>p. product_name p \<noteq> None) ms \<Longrightarrow> prod_dict_ok d \<Longrightarrow>
     \<not> (\<lambda>p. PStr (the (product_name p))) ` set ms \<subseteq> fst ` set d \<Longrightarrow>
     fold_res merge_product ms d = Raise AttributeError"
proof (induction ms arbitrary: d)
  case Nil
  then show ?case by simp
next
  case (Cons p ms)
  then obtain n where n: "product_name p = Some n" by auto
  show ?case
  proof (cases "PStr n \<in> fst ` set d")
    case True
    obtain d' where d': "merge_product p d = Return d'" "prod_dict_ok d'" "fst ` set d' = fst ` set d"
      by (rule merge_product_known [OF n Cons.prems(2) True])
    with Cons.IH [OF _ d'(2)] Cons.prems True n show ?thesis by simp
  next
    case False
    then show ?thesis by (simp add: merge_product_unknown [OF n])
  qed
qed

lemma prod_dict_entry:
  "prod_dict_ok d \<Longrightarrow> (n, p) \<in> set d \<Longrightarrow> \<exists>x. product_name p = Some x \<and> n = PStr x"
  by (fastforce simp: prod_dict_ok_def list_all_iff split: option.splits)

lemma prod_dict_names:
  assumes "prod_dict_ok d"
  shows "list_all (\<lambda>p. product_name p \<noteq> None) (map snd d)"
    and "PStr ` the ` set (map product_name (map snd d)) = fst ` set d"
proof -
  show "list_all (\<lambda>p. product_name p \<noteq> None) (map snd d)"
    unfolding list_all_iff using prod_dict_entry [OF assms] by fastforce
  have "PStr (the (product_name (snd a))) = fst a" if "a \<in> set d" for a
    using prod_dict_entry [OF assms, of "fst a" "snd a"] that by fastforce
  then have "(\<lambda>a. PStr (the (product_name (snd a)))) ` set d = fst ` set d"
    by (intro image_cong) simp_all
  then show "PStr ` the ` set (map product_name (map snd d)) = fst ` set d"
    by (simp add: image_image)
qed

text \<open>Each of the last three stages writes one key only.\<close>

definition only_changes :: "string \<Rightarrow> fingerprint \<Rightarrow> fingerprint \<Rightarrow> bool" where
  "only_changes k p q \<longleftrightarrow> (\<forall>x. x \<noteq> k \<longrightarrow> map_of q x = map_of p x) \<and> (wf_dict p \<longrightarrow> wf_dict q)"

lemma only_changes_update [simp]: "only_changes k p (AList.update k v p)"
  by (auto simp: only_changes_def dict_simps)

lemma only_changes_refl [simp]: "only_changes k p p"
  by (simp add: only_changes_def)

lemma merge_sources_ok:
  assumes "map_of p SOURCES_KEY = Some (PDict ps)" and "map_of m SOURCES_KEY = Some (PDict ms)"
  obtains q where "merge_sources m p = Return q" and "only_changes SOURCES_KEY p q"
    and "map_of q SOURCES_KEY = Some (PDict (add_missing ms ps))"
  using that [of "AList.update SOURCES_KEY (PDict (add_missing ms ps)) p"] assms
  by (simp add: merge_sources_def ditem_def dict_simps)

lemma merge_entitlements_ok:
  assumes "map_of p ENTITLEMENTS_KEY = Some (PList ps)" and "map_of m ENTITLEMENTS_KEY = Some (PList ms)"
    and "list_all is_dict ps" and "list_all is_dict ms"
  obtains q es where "merge_entitlements m p = Return q" and "only_changes ENTITLEMENTS_KEY p q"
    and "map_of q ENTITLEMENTS_KEY = Some (PList es)" and "list_all is_dict es"
    and "entitlement_id ` set es = entitlement_id ` set ps \<union> entitlement_id ` set ms"
    and "set es \<subseteq> set ps \<union> set ms" and "ms \<noteq> [] \<Longrightarrow> distinct (map entitlement_id es)"
proof (cases "ms = []")
  case True
  then show ?thesis
    using that [of p ps] assms by (simp add: merge_entitlements_def)
next
  case False
  have "list_all is_dict (ps @ ms)" using assms(3,4) by simp
  from unique_entitlements_ok [OF this, of "[]"] obtain es where
    es: "unique_entitlements [] (ps @ ms) = Return es" "set es \<subseteq> set (ps @ ms)"
      "entitlement_id ` set es = entitlement_id ` set (ps @ ms)" "distinct (map entitlement_id es)"
    by auto
  have d: "list_all is_dict es"
    using es(2) assms(3,4) by (auto simp: list_all_iff)
  have r: "merge_entitlements m p = Return (AList.update ENTITLEMENTS_KEY (PList es) p)"
    using False assms(1,2) es(1) by (simp add: merge_entitlements_def)
  show ?thesis
    using that [OF r _ _ d] es by (simp add: dict_simps image_Un)
qed

lemma merge_products_ok:
  assumes "map_of p PRODUCTS_KEY = Some (PList ps)" and "map_of m PRODUCTS_KEY = Some (PList ms)"
    and "list_all (\<lambda>p. product_name p \<noteq> None) ps" and "list_all (\<lambda>p. product_name p \<noteq> None) ms"
    and "set (map product_name ms) \<subseteq> set (map product_name ps)"
  obtains q qs where "merge_products m p = Return q" and "only_changes PRODUCTS_KEY p q"
    and "map_of q PRODUCTS_KEY = Some (PList qs)" and "list_all (\<lambda>p. product_name p \<noteq> None) qs"
    and "set (map product_name qs) = set (map product_name ps)"
proof (cases "ms = []")
  case True
  then show ?thesis
    using that [of p ps] assms by (simp add: merge_products_def)
next
  case False
  let ?n = "\<lambda>p. PStr (the (product_name p))"
  have "prod_dict_ok []" by (simp add: prod_dict_ok_def)
  from product_dict_loop [OF assms(3) this] obtain d0 where
    d0: "fold_res (\<lambda>p d. bind_res (prod_key p) (\<lambda>n. Return (AList.update n p d))) ps [] = Return d0"
      "prod_dict_ok d0" "fst ` set d0 = ?n ` set ps"
    by auto
  have "?n ` set ms \<subseteq> ?n ` set ps" using assms(5) by (auto simp: image_subset_iff image_iff) (metis)
  with merge_products_loop [OF assms(4) d0(2)] d0(3) obtain d where
    d: "fold_res merge_product ms d0 = Return d" "prod_dict_ok d" "fst ` set d = ?n ` set ps"
    by auto
  have r: "merge_products m p = Return (AList.update PRODUCTS_KEY (PList (map snd d)) p)"
    using False assms(1,2) d0(1) d(1) by (simp add: merge_products_def has_key_map_of)
  have "PStr ` the ` set (map product_name (map snd d)) = PStr ` the ` set (map product_name ps)"
    using prod_dict_names(2) [OF d(2)] d(3) by (simp add: image_image)
  then have "the ` set (map product_name (map snd d)) = the ` set (map product_name ps)"
    by (simp add: inj_image_eq_iff inj_def)
  then have "Some ` the ` set (map product_name (map snd d)) = Some ` the ` set (map product_name ps)"
    by simp
  moreover have "Some ` the ` set (map product_name xs) = set (map product_name xs)"
    if "list_all (\<lambda>p. product_name p \<noteq> None) xs" for xs
    using that by (force simp: list_all_iff image_iff)
  ultimately have names: "set (map product_name (map snd d)) = set (map product_name ps)"
    using prod_dict_names(1) [OF d(2)] assms(3) by metis
  show ?thesis
    using that [OF r _ _ prod_dict_names(1) [OF d(2)] names] by (simp add: dict_simps)
qed

lemma special_distinct:
  "distinct special_keys" "META_DATA_KEY \<in> set special_keys" "SOURCES_KEY \<in> set special_keys"
  "ENTITLEMENTS_KEY \<in> set special_keys" "PRODUCTS_KEY \<in> set special_keys" "GLOBAL_ID_KEY \<in> set special_keys"
  by (simp_all add: special_keys_def fp_keys)

lemma special_differ:
  "META_DATA_KEY \<noteq> SOURCES_KEY" "META_DATA_KEY \<noteq> ENTITLEMENTS_KEY" "META_DATA_KEY \<noteq> PRODUCTS_KEY"
  "META_DATA_KEY \<noteq> GLOBAL_ID_KEY" "SOURCES_KEY \<noteq> ENTITLEMENTS_KEY" "SOURCES_KEY \<noteq> PRODUCTS_KEY"
  "SOURCES_KEY \<noteq> GLOBAL_ID_KEY" "ENTITLEMENTS_KEY \<noteq> PRODUCTS_KEY" "ENTITLEMENTS_KEY \<noteq> GLOBAL_ID_KEY"
  "PRODUCTS_KEY \<noteq> GLOBAL_ID_KEY"
  by (simp_all add: fp_keys)

text \<open>What a merge returns, key by key.\<close>

definition merge_spec :: "fingerprint \<Rightarrow> fingerprint \<Rightarrow> fingerprint \<Rightarrow> bool" where
  "merge_spec p m r \<longleftrightarrow>
     (\<forall>k. k \<notin> set special_keys \<longrightarrow>
        map_of r k = (if prefers_merge p m k then map_of m k else map_of p k) \<and>
        map_of (fp_meta r) k =
          (if prefers_merge p m k then map_of (fp_meta m) k else map_of (fp_meta p) k)) \<and>
     (\<forall>k. map_of (fp_sources r) k =
        (case map_of (fp_sources p) k of Some v \<Rightarrow> Some v | None \<Rightarrow> map_of (fp_sources m) k)) \<and>
     entitlement_id ` set (fp_list ENTITLEMENTS_KEY r) =
       entitlement_id ` set (fp_list ENTITLEMENTS_KEY p) \<union> entitlement_id ` set (fp_list ENTITLEMENTS_KEY m) \<and>
     map_of r GLOBAL_ID_KEY = map_of p GLOBAL_ID_KEY"

text \<open>The facts stage: the chosen keys are copied, the special keys are left alone.\<close>

definition facts_merged :: "fingerprint \<Rightarrow> fingerprint \<Rightarrow> fingerprint \<Rightarrow> bool" where
  "facts_merged p m r \<longleftrightarrow> wf_dict r \<and> wf_dict (fp_meta r) \<and>
     map_of r META_DATA_KEY = Some (PDict (fp_meta r)) \<and>
     (\<forall>k. map_of (fp_meta r) k =
        (if prefers_merge p m k then map_of (fp_meta m) k else map_of (fp_meta p) k)) \<and>
     (\<forall>k. k \<noteq> META_DATA_KEY \<longrightarrow> map_of r k = (if prefers_merge p m k then map_of m k else map_of p k))"

lemma merge_facts_ok:
  assumes p: "fp_ok N g p" and m: "fp_ok N' g m"
  obtains ks r where "keys_to_add p m No_keys = Return ks" and "fold_res (merge_fact m) ks p = Return r"
    and "facts_merged p m r"
proof -
  obtain ks where ks: "keys_to_add p m No_keys = Return ks" "set ks = {k. prefers_merge p m k}"
    by (rule keys_to_add_ok [OF p m])
  have "\<forall>k \<in> set ks. has_key (fp_meta m) k \<and> k \<noteq> META_DATA_KEY"
    using ks(2) special_not_preferred [OF p m] fp_ok_meta(4) [OF m] special_distinct(2)
    by (auto simp: prefers_merge_def)
  from merge_facts_loop [OF fp_ok_meta(1) [OF m] fp_ok_meta(1) [OF p] this] obtain r rm where
    r: "fold_res (merge_fact m) ks p = Return r" "map_of r META_DATA_KEY = Some (PDict rm)"
      "\<forall>k. map_of rm k = (if k \<in> set ks then map_of (fp_meta m) k else map_of (fp_meta p) k)"
      "\<forall>k. k \<noteq> META_DATA_KEY \<longrightarrow> map_of r k = (if k \<in> set ks then Some (dgetn m k) else map_of p k)"
      "wf_dict r" "wf_dict rm"
    using fp_ok_rest(1) [OF p] fp_ok_meta(2) [OF p] by auto
  have rm: "fp_meta r = rm" using r(2) by (simp add: fp_meta_def)
  have "Some (dgetn m k) = map_of m k" if "prefers_merge p m k" for k
    using that by (auto simp: prefers_merge_def has_key_map_of)
  then have "facts_merged p m r"
    using r ks(2) unfolding facts_merged_def rm by simp
  with that ks(1) r(1) show ?thesis by blast
qed

text \<open>The other stages on top of the merged facts.\<close>

definition lists_merged :: "fingerprint \<Rightarrow> fingerprint \<Rightarrow> fingerprint \<Rightarrow> fingerprint \<Rightarrow> bool" where
  "lists_merged p m q r \<longleftrightarrow> (wf_dict q \<longrightarrow> wf_dict r) \<and>
     (\<forall>k. k \<notin> {SOURCES_KEY, ENTITLEMENTS_KEY, PRODUCTS_KEY} \<longrightarrow> map_of r k = map_of q k) \<and>
     map_of r SOURCES_KEY = Some (PDict (add_missing (fp_sources m) (fp_sources p))) \<and>
     map_of r ENTITLEMENTS_KEY = Some (PList (fp_list ENTITLEMENTS_KEY r)) \<and>
     list_all is_dict (fp_list ENTITLEMENTS_KEY r) \<and>
     entitlement_id ` set (fp_list ENTITLEMENTS_KEY r) =
       entitlement_id ` set (fp_list ENTITLEMENTS_KEY p) \<union> entitlement_id ` set (fp_list ENTITLEMENTS_KEY m) \<and>
     map_of r PRODUCTS_KEY = Some (PList (fp_list PRODUCTS_KEY r)) \<and>
     list_all (\<lambda>p. product_name p \<noteq> None) (fp_list PRODUCTS_KEY r) \<and>
     set (map product_name (fp_list PRODUCTS_KEY r)) = set (map product_name (fp_list PRODUCTS_KEY p))"

lemma merge_lists_ok:
  assumes p: "fp_ok N g p" and m: "fp_ok N' g m" and sub: "set N' \<subseteq> set N"
    and q: "\<And>k. k \<in> {SOURCES_KEY, ENTITLEMENTS_KEY, PRODUCTS_KEY} \<Longrightarrow> map_of q k = map_of p k"
  obtains r where "bind_res (merge_sources m q) (\<lambda>p2. bind_res (merge_entitlements m p2) (merge_products m)) = Return r"
    and "lists_merged p m q r"
proof -
  note pr = fp_ok_rest [OF p] and mr = fp_ok_rest [OF m]
  have qs: "map_of q SOURCES_KEY = Some (PDict (fp_sources p))" using q pr(2) by simp
  obtain p2 where p2: "merge_sources m q = Return p2" "only_changes SOURCES_KEY q p2"
    "map_of p2 SOURCES_KEY = Some (PDict (add_missing (fp_sources m) (fp_sources p)))"
    by (rule merge_sources_ok [OF qs mr(2)])
  have p2e: "map_of p2 ENTITLEMENTS_KEY = Some (PList (fp_list ENTITLEMENTS_KEY p))"
    using p2(2) q pr(4) special_differ by (simp add: only_changes_def)
  obtain p3 es where p3: "merge_entitlements m p2 = Return p3" "only_changes ENTITLEMENTS_KEY p2 p3"
    "map_of p3 ENTITLEMENTS_KEY = Some (PList es)" "list_all is_dict es"
    "entitlement_id ` set es = entitlement_id ` set (fp_list ENTITLEMENTS_KEY p) \<union>
       entitlement_id ` set (fp_list ENTITLEMENTS_KEY m)"
    by (rule merge_entitlements_ok [OF p2e mr(4) pr(5) mr(5)])
  have p3p: "map_of p3 PRODUCTS_KEY = Some (PList (fp_list PRODUCTS_KEY p))"
    using p3(2) p2(2) q pr(6) special_differ by (simp add: only_changes_def)
  have names: "set (map product_name (fp_list PRODUCTS_KEY m)) \<subseteq> set (map product_name (fp_list PRODUCTS_KEY p))"
    using pr(8) mr(8) sub by auto
  obtain r ps where r: "merge_products m p3 = Return r" "only_changes PRODUCTS_KEY p3 r"
    "map_of r PRODUCTS_KEY = Some (PList ps)" "list_all (\<lambda>p. product_name p \<noteq> None) ps"
    "set (map product_name ps) = set (map product_name (fp_list PRODUCTS_KEY p))"
    by (rule merge_products_ok [OF p3p mr(6) pr(7) mr(7) names])
  have re: "map_of r ENTITLEMENTS_KEY = Some (PList es)"
    using p3(3) r(2) special_differ by (simp add: only_changes_def)
  have lists: "fp_list ENTITLEMENTS_KEY r = es" "fp_list PRODUCTS_KEY r = ps"
    using re r(3) by (simp_all add: fp_list_def)
  have "lists_merged p m q r"
    using p2(2,3) p3(2,4,5) r re special_differ unfolding lists_merged_def lists
    by (simp add: only_changes_def)
  with that show ?thesis using p2(1) p3(1) r(1) by simp
qed

lemma merge_ok:
  assumes p: "fp_ok N g p" and m: "fp_ok N' g m" and sub: "set N' \<subseteq> set N"
  obtains r where "merge_fingerprint No_keys p m = Return r" and "fp_ok N g r" and "merge_spec p m r"
proof -
  note pr = fp_ok_rest [OF p]
  have special: "\<not> prefers_merge p m k" if "k \<in> set special_keys" for k
    using special_not_preferred [OF p m that] .
  obtain ks q where ks: "keys_to_add p m No_keys = Return ks" "fold_res (merge_fact m) ks p = Return q"
    and fm: "facts_merged p m q"
    by (rule merge_facts_ok [OF p m])
  have "map_of q k = map_of p k" if "k \<in> {SOURCES_KEY, ENTITLEMENTS_KEY, PRODUCTS_KEY}" for k
  proof -
    have "k \<in> set special_keys" "k \<noteq> META_DATA_KEY" using that special_distinct special_differ by auto
    then show ?thesis using fm special by (simp add: facts_merged_def)
  qed
  then obtain r where r: "bind_res (merge_sources m q) (\<lambda>p2. bind_res (merge_entitlements m p2) (merge_products m)) = Return r"
    and lm: "lists_merged p m q r"
    by (rule merge_lists_ok [OF p m sub])
  have run: "merge_fingerprint No_keys p m = Return r"
    using r by (simp add: merge_fingerprint_def ks)
  have meta: "map_of r META_DATA_KEY = Some (PDict (fp_meta q))"
    using lm fm special_differ by (simp add: lists_merged_def facts_merged_def)
  have ord: "map_of r k = (if prefers_merge p m k then map_of m k else map_of p k)" if "k \<notin> set special_keys" for k
  proof -
    have "k \<notin> {SOURCES_KEY, ENTITLEMENTS_KEY, PRODUCTS_KEY}" "k \<noteq> META_DATA_KEY"
      using that special_distinct by auto
    then show ?thesis using lm fm by (simp add: lists_merged_def facts_merged_def)
  qed
  have gid: "map_of r GLOBAL_ID_KEY = map_of p GLOBAL_ID_KEY"
    using lm fm special [OF special_distinct(6)] special_differ
    by (simp add: lists_merged_def facts_merged_def)
  have ok: "fp_ok N g r"
  proof (rule fp_okI [OF _ meta, where es = "fp_list ENTITLEMENTS_KEY r" and ps = "fp_list PRODUCTS_KEY r"
        and ss = "add_missing (fp_sources m) (fp_sources p)"])
    show "meta_entry v \<and> k \<notin> set special_keys" if "map_of (fp_meta q) k = Some v" for k v
      using that fm fp_ok_meta(3) [OF p, of k v] fp_ok_meta(3) [OF m, of k v]
      by (auto simp: facts_merged_def split: if_splits)
    show "has_key (fp_meta q) k" if "has_key r k" "k \<notin> set special_keys" for k
      using that ord [OF that(2)] fm fp_ok_meta(4) [OF p, of k] fp_ok_meta(4) [OF m, of k]
      by (auto simp: facts_merged_def has_key_map_of prefers_merge_def split: if_splits)
  qed (use lm fm pr(8,9,10) add_missing_wf [OF pr(3)] gid in
      \<open>auto simp: lists_merged_def facts_merged_def has_key_map_of\<close>)
  have "fp_meta r = fp_meta q" "fp_sources r = add_missing (fp_sources m) (fp_sources p)"
    using meta lm by (simp_all add: fp_meta_def fp_sources_def lists_merged_def)
  then have "merge_spec p m r"
    using ord gid lm fm unfolding merge_spec_def lists_merged_def facts_merged_def
    by (simp add: add_missing_map_of)
  with run ok show ?thesis using that by blast
qed

lemma merge_products_unknown:
  assumes "map_of p PRODUCTS_KEY = Some (PList ps)" and "map_of m PRODUCTS_KEY = Some (PList ms)"
    and "list_all (\<lambda>p. product_name p \<noteq> None) ps" and "list_all (\<lambda>p. product_name p \<noteq> None) ms"
    and "\<not> set (map product_name ms) \<subseteq> set (map product_name ps)"
  shows "merge_products m p = Raise AttributeError"
proof -
  let ?n = "\<lambda>p. PStr (the (product_name p))"
  have "prod_dict_ok []" by (simp add: prod_dict_ok_def)
  from product_dict_loop [OF assms(3) this] obtain d where
    d: "fold_res (\<lambda>p d. bind_res (prod_key p) (\<lambda>n. Return (AList.update n p d))) ps [] = Return d"
      "prod_dict_ok d" "fst ` set d = ?n ` set ps"
    by auto
  from assms(5) obtain x where x: "x \<in> set ms" "product_name x \<notin> product_name ` set ps"
    unfolding set_map by blast
  have same: "product_name x = product_name y" if "y \<in> set ps" "?n x = ?n y" for y
  proof -
    have "product_name x \<noteq> None" "product_name y \<noteq> None"
      using assms(3,4) x(1) that(1) by (simp_all add: list_all_iff)
    then show ?thesis using that(2) by (metis option.collapse pyval.inject(4))
  qed
  have "?n x \<notin> ?n ` set ps"
  proof
    assume "?n x \<in> ?n ` set ps"
    then obtain y where "y \<in> set ps" "?n x = ?n y" by (rule imageE)
    with same x(2) show False by blast
  qed
  then have "\<not> ?n ` set ms \<subseteq> fst ` set d" using imageI [OF x(1), of ?n] unfolding d(3) by blast
  note fails = merge_products_loop_unknown [OF assms(4) d(2) this]
  have "ms \<noteq> []" using x(1) by (cases ms) simp_all
  then show ?thesis
    using assms(1,2) d(1) fails by (simp add: merge_products_def has_key_map_of)
qed

section \<open>Samples\<close>

definition sample_fp :: "string \<Rightarrow> int \<Rightarrow> string list \<Rightarrow> fingerprint" where
  "sample_fp src cpus products =
     [(META_DATA_KEY, PDict [(''cpu_count'', PDict
        [(''source_type'', PStr src), (''source_name'', PStr src), (''has_sudo'', PBool False)])]),
      (''cpu_count'', PInt cpus), (SOURCES_KEY, PDict [(src, PDict [])]), (ENTITLEMENTS_KEY, PList []),
      (PRODUCTS_KEY, PList (map (\<lambda>n. PDict [(''name'', PStr n), (''presence'', PStr ''absent'')]) products))]"

lemma sample_fps_ok:
  "fp_ok [''JBoss EAP''] False (sample_fp ''network'' 4 [''JBoss EAP''])"
  "fp_ok [] False (sample_fp ''vcenter'' 8 [])"
  "\<not> sudo_flag (sample_fp ''vcenter'' 8 []) ''cpu_count''"
  by (simp_all add: fp_ok_def sample_fp_def fp_keys wf_dict_def special_keys_def has_key_def
      sudo_flag_def fp_meta_def dget_def)

section \<open>Properties\<close>

text \<open>
  C3. Merging two well-formed fingerprints whose products have names the first one knows never
  fails and gives a well-formed fingerprint: every fact and its metadata come from the second
  fingerprint exactly where the first lacks it, holds \<open>None\<close> against a value, or was collected
  without sudo against with sudo; the sources and the entitlements are united.
\<close>

theorem merge_implements_spec:
  assumes "fp_ok names g priority" and "fp_ok names' g to_merge" and "set names' \<subseteq> set names"
  shows "returns (\<lambda>r. fp_ok names g r \<and> merge_spec priority to_merge r) (merge_fingerprint No_keys priority to_merge)"
proof -
  obtain r where "merge_fingerprint No_keys priority to_merge = Return r" "fp_ok names g r" "merge_spec priority to_merge r"
    by (rule merge_ok [OF assms])
  then show ?thesis by simp
qed

theorem merge_implements_spec_witness:
  "returns (\<lambda>r. map_of r ''cpu_count'' = Some (PInt 4) \<and> map_of (fp_sources r) ''vcenter'' = Some (PDict []))
     (merge_fingerprint No_keys (sample_fp ''network'' 4 [''JBoss EAP'']) (sample_fp ''vcenter'' 8 []))"
proof -
  let ?p = "sample_fp ''network'' 4 [''JBoss EAP'']" and ?m = "sample_fp ''vcenter'' 8 []"
  from merge_implements_spec [OF sample_fps_ok(1,2)] obtain r where
    r: "merge_fingerprint No_keys ?p ?m = Return r" "merge_spec ?p ?m r"
    by (auto simp: returns_conv)
  have s: "''cpu_count'' \<notin> set special_keys" "\<not> prefers_merge ?p ?m ''cpu_count''"
    "map_of ?p ''cpu_count'' = Some (PInt 4)" "map_of (fp_sources ?p) ''vcenter'' = None"
    "map_of (fp_sources ?m) ''vcenter'' = Some (PDict [])"
    using sample_fps_ok(3)
    by (simp_all add: special_keys_def fp_keys prefers_merge_def sample_fp_def has_key_def dget_def fp_sources_def)
  show ?thesis using r s unfolding merge_spec_def by simp
qed

text \<open>
  \<open>reverse_priority_keys\<close> given as a tuple, as the engine gives it, has no effect: a fact both
  fingerprints hold keeps the value of the first one (unless only the second was collected with
  sudo), even for a key of the tuple.
\<close>

lemma reverse_priority_tuple_ignored:
  assumes "fp_ok names g priority" and "fp_ok names' g to_merge" and "set names' \<subseteq> set names"
    and "k \<in> set ks" and "k \<notin> set special_keys" and "dgetn priority k \<noteq> PNone"
    and "sudo_flag priority k \<or> \<not> sudo_flag to_merge k"
  shows "returns (\<lambda>r. dgetn r k = dgetn priority k) (merge_fingerprint (Key_tuple ks) priority to_merge)"
proof -
  have same: "merge_fingerprint (Key_tuple ks) priority to_merge = merge_fingerprint No_keys priority to_merge"
    by (simp add: merge_fingerprint_def keys_to_add_def)
  obtain r where r: "merge_fingerprint No_keys priority to_merge = Return r" "merge_spec priority to_merge r"
    by (rule merge_ok [OF assms(1-3)])
  have "\<not> prefers_merge priority to_merge k"
    using assms(6,7) by (auto simp: prefers_merge_def has_key_map_of dget_def split: option.splits)
  then have "map_of r k = map_of priority k" using r(2) assms(5) by (simp add: merge_spec_def)
  then show ?thesis by (simp add: same r(1) dget_def)
qed

lemma reverse_priority_tuple_ignored_example:
  "returns (\<lambda>r. dgetn r ''cpu_count'' = PInt 4)
     (merge_fingerprint (Key_tuple [''cpu_count'']) (sample_fp ''network'' 4 [''JBoss EAP'']) (sample_fp ''vcenter'' 8 []))
   \<and> returns (\<lambda>r. dgetn r ''cpu_count'' = PInt 8)
     (merge_fingerprint (Key_set [''cpu_count'']) (sample_fp ''network'' 4 [''JBoss EAP'']) (sample_fp ''vcenter'' 8 []))"
proof -
  have v: "dgetn (sample_fp ''network'' 4 [''JBoss EAP'']) ''cpu_count'' = PInt 4" "''cpu_count'' \<notin> set special_keys"
    by (simp_all add: sample_fp_def fp_keys special_keys_def dget_def)
  have "returns (\<lambda>r. dgetn r ''cpu_count'' = PInt 8)
     (merge_fingerprint (Key_set [''cpu_count'']) (sample_fp ''network'' 4 [''JBoss EAP'']) (sample_fp ''vcenter'' 8 []))"
    by code_simp
  moreover have "returns (\<lambda>r. dgetn r ''cpu_count'' = PInt 4)
     (merge_fingerprint (Key_tuple [''cpu_count'']) (sample_fp ''network'' 4 [''JBoss EAP'']) (sample_fp ''vcenter'' 8 []))"
    using reverse_priority_tuple_ignored [OF sample_fps_ok(1,2), of "''cpu_count''" "[''cpu_count'']"] v sample_fps_ok(3)
    by simp
  ultimately show ?thesis by blast
qed

text \<open>
  Merging a fingerprint with a product the first one does not list raises an \<open>AttributeError\<close>:
  the code looks the product up by name and uses the missing entry.
\<close>

lemma merge_new_product_fails:
  assumes "fp_ok names g priority" and "fp_ok names' g to_merge" and "\<not> set names' \<subseteq> set names"
  shows "merge_fingerprint No_keys priority to_merge = Raise AttributeError"
proof -
  note pr = fp_ok_rest [OF assms(1)] and mr = fp_ok_rest [OF assms(2)]
  obtain ks q where ks: "keys_to_add priority to_merge No_keys = Return ks" "fold_res (merge_fact to_merge) ks priority = Return q"
    and fm: "facts_merged priority to_merge q"
    by (rule merge_facts_ok [OF assms(1,2)])
  have q: "map_of q k = map_of priority k" if "k \<in> set special_keys" "k \<noteq> META_DATA_KEY" for k
    using fm special_not_preferred [OF assms(1,2) that(1)] that(2) by (simp add: facts_merged_def)
  have qs: "map_of q SOURCES_KEY = Some (PDict (fp_sources priority))"
    using q pr(2) special_distinct special_differ by simp
  obtain p2 where p2: "merge_sources to_merge q = Return p2" "only_changes SOURCES_KEY q p2"
    by (rule merge_sources_ok [OF qs mr(2)])
  have "map_of p2 ENTITLEMENTS_KEY = Some (PList (fp_list ENTITLEMENTS_KEY priority))"
    using p2(2) q pr(4) special_distinct special_differ by (simp add: only_changes_def)
  then obtain p3 where p3: "merge_entitlements to_merge p2 = Return p3" "only_changes ENTITLEMENTS_KEY p2 p3"
    by (rule merge_entitlements_ok [OF _ mr(4) pr(5) mr(5)])
  have p3p: "map_of p3 PRODUCTS_KEY = Some (PList (fp_list PRODUCTS_KEY priority))"
    using p3(2) p2(2) q pr(6) special_distinct special_differ by (simp add: only_changes_def)
  have "\<not> set (map product_name (fp_list PRODUCTS_KEY to_merge)) \<subseteq> set (map product_name (fp_list PRODUCTS_KEY priority))"
    using pr(8) mr(8) assms(3) by auto
  from merge_products_unknown [OF p3p mr(6) pr(7) mr(7) this] show ?thesis
    by (simp add: merge_fingerprint_def ks p2(1) p3(1))
qed

lemma merge_new_product_fails_example:
  "merge_fingerprint No_keys (sample_fp ''vcenter'' 8 []) (sample_fp ''network'' 4 [''JBoss EAP'']) =
     Raise AttributeError"
  using merge_new_product_fails [OF sample_fps_ok(2,1)] by simp

end
