(* ===== verification/Fingerprint_Dedup.thy ===== *)
theory Fingerprint_Dedup
  imports Fingerprint_Merge "HOL-Library.Multiset"
begin

text \<open>
  De-duplicating one list of fingerprints and merging two lists: \<open>_remove_duplicate_fingerprints\<close>,
  \<open>_create_index_for_fingerprints\<close>, \<open>_merge_matching_fingerprints\<close> and
  \<open>_merge_fingerprints_from_source_types\<close> of \<open>fingerprinter/runner.py\<close>.

  \<open>uuid.uuid4()\<close> is a supply \<open>uuid :: nat \<Rightarrow> string\<close> with a counter. The loops are proved correct
  for every merge that satisfies the contract \<open>fingerprint_merger\<close>, which \<open>merge_fingerprint\<close>
  does.
\<close>

section \<open>De-duplication\<close>

type_synonym fp_index = "(pyval \<times> fingerprint) list"

definition dedup_step ::
  "(fingerprint \<Rightarrow> fingerprint \<Rightarrow> fingerprint res) \<Rightarrow> string \<Rightarrow> fingerprint
     \<Rightarrow> fingerprint list \<times> fp_index \<Rightarrow> (fingerprint list \<times> fp_index) res" where
  "dedup_step merge id_key fp s =
     (case s of (no_id, unique) \<Rightarrow>
        (let v = dgetn fp id_key
         in if truthy v then
              bind_res (as_key v) (\<lambda>k.
                (case map_of unique k of
                   Some existing \<Rightarrow>
                     if existing \<noteq> [] then
                       bind_res (merge existing fp) (\<lambda>m. Return (no_id, AList.update k m unique))
                     else Return (no_id, AList.update k fp unique)
                 | None \<Rightarrow> Return (no_id, AList.update k fp unique)))
            else Return (no_id @ [fp], unique)))"

definition dedup_pass ::
  "(fingerprint \<Rightarrow> fingerprint \<Rightarrow> fingerprint res) \<Rightarrow> string \<Rightarrow> fingerprint list \<Rightarrow> fingerprint list res"
where
  "dedup_pass merge id_key fps =
     bind_res (fold_res (dedup_step merge id_key) fps ([], [])) (\<lambda>(no_id, unique).
       Return (no_id @ map snd unique))"

definition remove_duplicate_fingerprints ::
  "string list \<Rightarrow> bool \<Rightarrow> fingerprint list \<Rightarrow> fingerprint list res" where
  "remove_duplicate_fingerprints id_key_list remove_key fps =
     (if fps = [] then Return fps
      else fold_res (\<lambda>id_key result_list.
        bind_res (dedup_pass (merge_fingerprint No_keys) id_key result_list) (\<lambda>r.
          Return (if remove_key then map (AList.delete id_key) r else r))) id_key_list fps)"

section \<open>Indexing\<close>

definition index_one :: "fingerprint \<Rightarrow> pyval \<Rightarrow> fp_index \<Rightarrow> fp_index res" where
  "index_one fp v idx =
     bind_res (as_key v) (\<lambda>k.
       Return (if map_of idx k = None then AList.update k fp idx else idx))"

definition index_step ::
  "string \<Rightarrow> fingerprint \<Rightarrow> fp_index \<times> fingerprint list \<Rightarrow> (fp_index \<times> fingerprint list) res" where
  "index_step id_key fp s =
     (case s of (idx, no_key) \<Rightarrow>
        (let v = dgetn fp id_key
         in if truthy v then
              (case v of
                 PList xs \<Rightarrow> bind_res (fold_res (index_one fp) xs idx) (\<lambda>i. Return (i, no_key))
               | _ \<Rightarrow> bind_res (index_one fp v idx) (\<lambda>i. Return (i, no_key)))
            else Return (idx, no_key @ [fp])))"

fun add_global_ids :: "(nat \<Rightarrow> string) \<Rightarrow> nat \<Rightarrow> fingerprint list \<Rightarrow> fingerprint list" where
  "add_global_ids uuid n [] = []"
| "add_global_ids uuid n (fp # fps) =
     AList.update GLOBAL_ID_KEY (PStr (uuid n)) fp # add_global_ids uuid (n + 1) fps"

definition create_index_for_fingerprints ::
  "(nat \<Rightarrow> string) \<Rightarrow> nat \<Rightarrow> string \<Rightarrow> fingerprint list \<Rightarrow> (fp_index \<times> fingerprint list) res" where
  "create_index_for_fingerprints uuid n id_key fps =
     fold_res (index_step id_key) (add_global_ids uuid n fps) ([], [])"

section \<open>Merging lists of fingerprints\<close>

record match_state =
  ms_base :: fp_index
  ms_matched :: "fingerprint list"
  ms_no_match :: "fingerprint list"
  ms_count :: nat

definition match_step :: "key_arg \<Rightarrow> pyval \<times> fingerprint \<Rightarrow> match_state \<Rightarrow> match_state res" where
  "match_step rpk c s =
     (case c of (k, candidate) \<Rightarrow>
        (case map_of (ms_base s) k of
           Some base_value \<Rightarrow>
             if base_value \<noteq> [] then
               bind_res (merge_fingerprint rpk base_value candidate) (\<lambda>m.
                 Return (s\<lparr>ms_base := AList.delete k (ms_base s),
                           ms_matched := ms_matched s @ [m], ms_count := ms_count s + 1\<rparr>))
             else Return (s\<lparr>ms_base := AList.delete k (ms_base s),
                            ms_no_match := ms_no_match s @ [candidate]\<rparr>)
         | None \<Rightarrow> Return (s\<lparr>ms_no_match := ms_no_match s @ [candidate]\<rparr>)))"

definition merge_matching_fingerprints ::
  "(nat \<Rightarrow> string) \<Rightarrow> nat \<Rightarrow> key_arg \<Rightarrow> string \<Rightarrow> fingerprint list \<Rightarrow> string \<Rightarrow> fingerprint list
     \<Rightarrow> (nat \<times> fingerprint list \<times> fingerprint list) res" where
  "merge_matching_fingerprints uuid n rpk base_key base_list candidate_key candidate_list =
     bind_res (create_index_for_fingerprints uuid n base_key base_list) (\<lambda>(base_dict, base_no_key).
     bind_res (create_index_for_fingerprints uuid (n + length base_list) candidate_key candidate_list)
       (\<lambda>(candidate_dict, candidate_no_key).
     bind_res (fold_res (match_step rpk) candidate_dict
         \<lparr>ms_base = base_dict, ms_matched = [], ms_no_match = [], ms_count = 0\<rparr>) (\<lambda>s.
     bind_res (remove_duplicate_fingerprints [GLOBAL_ID_KEY] True
         (base_no_key @ ms_matched s @ map snd (ms_base s))) (\<lambda>base_result.
     bind_res (remove_duplicate_fingerprints [GLOBAL_ID_KEY] True
         (candidate_no_key @ ms_no_match s)) (\<lambda>no_match.
       Return (ms_count s, base_result, no_match))))))"

fun merge_by_keys ::
  "(nat \<Rightarrow> string) \<Rightarrow> nat \<Rightarrow> key_arg \<Rightarrow> (string \<times> string) list \<Rightarrow> nat \<times> fingerprint list \<times> fingerprint list
     \<Rightarrow> (nat \<times> fingerprint list \<times> fingerprint list) res" where
  "merge_by_keys uuid n rpk [] s = Return s"
| "merge_by_keys uuid n rpk ((base_key, candidate_key) # keys) (n_merged, result, to_merge) =
     bind_res (merge_matching_fingerprints uuid n rpk base_key result candidate_key to_merge)
       (\<lambda>(c, result', to_merge').
         merge_by_keys uuid (n + length result + length to_merge) rpk keys
           (n_merged + c, result', to_merge'))"

definition merge_fingerprints_from_source_types ::
  "(nat \<Rightarrow> string) \<Rightarrow> nat \<Rightarrow> key_arg \<Rightarrow> (string \<times> string) list \<Rightarrow> fingerprint list \<Rightarrow> fingerprint list
     \<Rightarrow> (nat \<times> fingerprint list) res" where
  "merge_fingerprints_from_source_types uuid n rpk merge_keys_list base_list merge_list =
     (if merge_list = [] then Return (0, base_list)
      else if base_list = [] then Return (0, merge_list)
      else bind_res (merge_by_keys uuid n rpk merge_keys_list (0, base_list, merge_list))
        (\<lambda>(n_merged, result, to_merge). Return (n_merged, result @ to_merge)))"

section \<open>De-duplication with any merge\<close>

lemma update_absent: "v \<notin> fst ` set d \<Longrightarrow> AList.update v x d = d @ [(v, x)]"
  by (induction d) auto

text \<open>
  What the de-duplication needs of a merge: it succeeds on well-formed fingerprints and gives a
  well-formed one, it loses no source, and the value of a plain key comes from one of the two.
\<close>

locale fingerprint_merger =
  fixes merge :: "fingerprint \<Rightarrow> fingerprint \<Rightarrow> fingerprint res"
    and ok :: "fingerprint \<Rightarrow> bool"
    and srcs :: "fingerprint \<Rightarrow> string set"
    and plain :: "string \<Rightarrow> bool"
  assumes merge_total: "ok p \<Longrightarrow> ok m \<Longrightarrow> \<exists>r. merge p m = Return r \<and> ok r \<and> srcs r = srcs p \<union> srcs m"
    and merge_value: "ok p \<Longrightarrow> ok m \<Longrightarrow> merge p m = Return r \<Longrightarrow> plain k \<Longrightarrow>
      dgetn r k = dgetn p k \<or> dgetn r k = dgetn m k"
    and ok_nonempty: "ok p \<Longrightarrow> p \<noteq> []"
begin

definition index_ok :: "string \<Rightarrow> fp_index \<Rightarrow> bool" where
  "index_ok k un \<longleftrightarrow> wf_dict un \<and> list_all (\<lambda>(v, f). ok f \<and> dgetn f k = v \<and> truthy v) un"

definition sources_of :: "fingerprint list \<Rightarrow> string set" where
  "sources_of fps = \<Union> (srcs ` set fps)"

lemma index_ok_update:
  "index_ok k un \<Longrightarrow> ok f \<Longrightarrow> truthy (dgetn f k) \<Longrightarrow> index_ok k (AList.update (dgetn f k) f un)"
  using set_AList_update [of "dgetn f k" f un] wf_dict_update [of un "dgetn f k" f]
  by (fastforce simp: index_ok_def list_all_iff)

lemma index_ok_entry:
  "index_ok k un \<Longrightarrow> map_of un v = Some f \<Longrightarrow> ok f \<and> dgetn f k = v \<and> truthy v"
  by (auto simp: index_ok_def list_all_iff dest!: map_of_SomeD)

lemma update_sources:
  assumes "wf_dict un" and "srcs f = srcs' \<union> (case map_of un v of None \<Rightarrow> {} | Some e \<Rightarrow> srcs e)"
  shows "sources_of (map snd (AList.update v f un)) = sources_of (map snd un) \<union> srcs'"
proof -
  have mem: "g \<in> snd ` set (AList.update v f un) \<longleftrightarrow> g = f \<or> (\<exists>x. x \<noteq> v \<and> map_of un x = Some g)" for g
  proof -
    have "g \<in> snd ` set (AList.update v f un) \<longleftrightarrow> (\<exists>x. map_of (AList.update v f un) x = Some g)"
      using wf_dict_update [OF assms(1), of v f] by (force simp: wf_dict_def)
    then show ?thesis by (auto simp: dict_simps split: if_splits)
  qed
  have old: "g \<in> snd ` set un \<longleftrightarrow> (\<exists>x. map_of un x = Some g)" for g
    using assms(1) by (force simp: wf_dict_def)
  have "s \<in> sources_of (map snd (AList.update v f un)) \<longleftrightarrow> s \<in> sources_of (map snd un) \<union> srcs'" for s
  proof -
    have "s \<in> sources_of (map snd (AList.update v f un)) \<longleftrightarrow>
        s \<in> srcs f \<or> (\<exists>x g. x \<noteq> v \<and> map_of un x = Some g \<and> s \<in> srcs g)"
      using mem by (auto simp: sources_of_def simp del: set_map) (metis set_map)+
    also have "\<dots> \<longleftrightarrow> s \<in> srcs' \<or> (\<exists>x g. map_of un x = Some g \<and> s \<in> srcs g)"
    proof (cases "map_of un v")
      case None
      then have "x \<noteq> v" if "map_of un x = Some g" for x g using that by auto
      then show ?thesis using assms(2) None by auto
    next
      case (Some e)
      have "(\<exists>x g. map_of un x = Some g \<and> s \<in> srcs g) \<longleftrightarrow>
          s \<in> srcs e \<or> (\<exists>x g. x \<noteq> v \<and> map_of un x = Some g \<and> s \<in> srcs g)"
        using Some by (metis option.inject)
      then show ?thesis using assms(2) Some by auto
    qed
    also have "\<dots> \<longleftrightarrow> s \<in> sources_of (map snd un) \<union> srcs'"
      using old by (auto simp: sources_of_def simp del: set_map) (metis set_map)+
    finally show ?thesis .
  qed
  then show ?thesis by blast
qed

lemma dedup_step_ok:
  assumes "index_ok k un" and "ok fp" and "plain k"
    and "truthy (dgetn fp k) \<Longrightarrow> \<not> is_list (dgetn fp k) \<and> \<not> is_dict (dgetn fp k)"
  shows "\<exists>no' un'. dedup_step merge k fp (no, un) = Return (no', un') \<and> index_ok k un'
    \<and> no' = no @ (if truthy (dgetn fp k) then [] else [fp])
    \<and> fst ` set un' = fst ` set un \<union> (if truthy (dgetn fp k) then {dgetn fp k} else {})
    \<and> sources_of (no' @ map snd un') = sources_of (no @ map snd un) \<union> srcs fp"
proof (cases "truthy (dgetn fp k)")
  case False
  then show ?thesis using assms(1) by (auto simp: dedup_step_def sources_of_def)
next
  case True
  let ?v = "dgetn fp k"
  have key: "as_key ?v = Return ?v" using assms(4) [OF True] by (simp add: as_key_def)
  have wf: "wf_dict un" using assms(1) by (simp add: index_ok_def)
  obtain f where step: "dedup_step merge k fp (no, un) = Return (no, AList.update ?v f un)"
    and f: "ok f" "dgetn f k = ?v" "srcs f = srcs fp \<union> (case map_of un ?v of None \<Rightarrow> {} | Some e \<Rightarrow> srcs e)"
  proof (cases "map_of un ?v")
    case None
    with that [of fp] True key assms(2) show ?thesis by (simp add: dedup_step_def Let_def)
  next
    case (Some e)
    from index_ok_entry [OF assms(1) Some] have e: "ok e" "dgetn e k = ?v" by auto
    from merge_total [OF e(1) assms(2)] obtain r where
      r: "merge e fp = Return r" "ok r" "srcs r = srcs e \<union> srcs fp" by blast
    have "dgetn r k = ?v" using merge_value [OF e(1) assms(2) r(1) assms(3)] e(2) by auto
    with that [of r] True key Some r ok_nonempty [OF e(1)] show ?thesis
      by (auto simp: dedup_step_def Let_def)
  qed
  have "index_ok k (AList.update ?v f un)"
    using index_ok_update [OF assms(1) f(1)] True f(2) by simp
  moreover have "sources_of (no @ map snd (AList.update ?v f un)) = sources_of (no @ map snd un) \<union> srcs fp"
    using update_sources [OF wf f(3)] by (auto simp: sources_of_def)
  ultimately show ?thesis
    using step True by (auto simp: keys_AList_update)
qed

lemma dedup_fold_ok:
  assumes "list_all ok fps" and "index_ok k un" and "plain k"
    and "\<forall>fp \<in> set fps. truthy (dgetn fp k) \<longrightarrow> \<not> is_list (dgetn fp k) \<and> \<not> is_dict (dgetn fp k)"
  shows "\<exists>un'. fold_res (dedup_step merge k) fps (no, un) =
      Return (no @ filter (\<lambda>fp. \<not> truthy (dgetn fp k)) fps, un') \<and> index_ok k un'
    \<and> fst ` set un' = fst ` set un \<union> {v. truthy v \<and> (\<exists>fp \<in> set fps. dgetn fp k = v)}
    \<and> sources_of (no @ filter (\<lambda>fp. \<not> truthy (dgetn fp k)) fps @ map snd un') =
        sources_of (no @ map snd un) \<union> sources_of fps"
  using assms
proof (induction fps arbitrary: no un)
  case Nil
  then show ?case by (auto simp: sources_of_def)
next
  case (Cons fp fps)
  from dedup_step_ok [of k un fp no] Cons.prems obtain no1 un1 where
    s: "dedup_step merge k fp (no, un) = Return (no1, un1)" "index_ok k un1"
      "no1 = no @ (if truthy (dgetn fp k) then [] else [fp])"
      "fst ` set un1 = fst ` set un \<union> (if truthy (dgetn fp k) then {dgetn fp k} else {})"
      "sources_of (no1 @ map snd un1) = sources_of (no @ map snd un) \<union> srcs fp"
    by auto
  from Cons.IH [of un1 no1] Cons.prems s(2) obtain un' where
    r: "fold_res (dedup_step merge k) fps (no1, un1) =
        Return (no1 @ filter (\<lambda>fp. \<not> truthy (dgetn fp k)) fps, un')" "index_ok k un'"
      "fst ` set un' = fst ` set un1 \<union> {v. truthy v \<and> (\<exists>fp \<in> set fps. dgetn fp k = v)}"
      "sources_of (no1 @ filter (\<lambda>fp. \<not> truthy (dgetn fp k)) fps @ map snd un') =
        sources_of (no1 @ map snd un1) \<union> sources_of fps"
    by auto
  have "fst ` set un' = fst ` set un \<union> {v. truthy v \<and> (\<exists>f \<in> set (fp # fps). dgetn f k = v)}"
    using r(3) s(4) by auto
  moreover have "sources_of (no1 @ map snd un1) \<union> sources_of fps =
      sources_of (no @ map snd un) \<union> sources_of (fp # fps)"
    using s(5) by (auto simp: sources_of_def)
  ultimately show ?case
    using r s(1,3) by (auto simp: s(3))
qed

text \<open>One pass over a list: it cannot fail, no source and no id is lost, and no two results share
  an id.\<close>

lemma dedup_pass_ok:
  assumes "list_all ok fps" and "plain k"
    and "\<forall>fp \<in> set fps. truthy (dgetn fp k) \<longrightarrow> \<not> is_list (dgetn fp k) \<and> \<not> is_dict (dgetn fp k)"
  obtains r where "dedup_pass merge k fps = Return r" and "list_all ok r"
    and "distinct (filter truthy (map (\<lambda>f. dgetn f k) r))"
    and "set (filter truthy (map (\<lambda>f. dgetn f k) r)) = set (filter truthy (map (\<lambda>f. dgetn f k) fps))"
    and "filter (\<lambda>f. \<not> truthy (dgetn f k)) r = filter (\<lambda>f. \<not> truthy (dgetn f k)) fps"
    and "sources_of r = sources_of fps"
proof -
  let ?no = "filter (\<lambda>f. \<not> truthy (dgetn f k)) fps"
  have "index_ok k []" by (simp add: index_ok_def)
  from dedup_fold_ok [OF assms(1) this assms(2,3), of "[]"] obtain un where
    un: "fold_res (dedup_step merge k) fps ([], []) = Return (?no, un)" "index_ok k un"
      "fst ` set un = {v. truthy v \<and> (\<exists>fp \<in> set fps. dgetn fp k = v)}"
      "sources_of (?no @ map snd un) = sources_of fps"
    by (auto simp: sources_of_def)
  have entry: "dgetn f k = v \<and> truthy v \<and> ok f" if "(v, f) \<in> set un" for v f
    using that un(2) by (auto simp: index_ok_def list_all_iff)
  have ids: "map (\<lambda>f. dgetn f k) (map snd un) = map fst un"
    using entry by auto
  have tr: "filter truthy (map (\<lambda>f. dgetn f k) (map snd un)) = map fst un"
    unfolding ids using entry by (auto simp: filter_id_conv)
  have none: "filter truthy (map (\<lambda>f. dgetn f k) ?no) = []"
    by (simp add: filter_empty_conv)
  have res: "dedup_pass merge k fps = Return (?no @ map snd un)"
    by (simp add: dedup_pass_def un(1))
  show ?thesis
  proof (rule that [OF res])
    show "list_all ok (?no @ map snd un)"
      using assms(1) entry by (auto simp: list_all_iff)
    show "distinct (filter truthy (map (\<lambda>f. dgetn f k) (?no @ map snd un)))"
      using un(2) tr none by (simp add: index_ok_def wf_dict_def)
    show "set (filter truthy (map (\<lambda>f. dgetn f k) (?no @ map snd un))) =
        set (filter truthy (map (\<lambda>f. dgetn f k) fps))"
      using tr none un(3) by auto
    show "filter (\<lambda>f. \<not> truthy (dgetn f k)) (?no @ map snd un) = ?no"
      using entry by (auto simp: filter_empty_conv)
  qed (rule un(4))
qed

text \<open>The values under another key: merging never makes one occur more often.\<close>

definition vals :: "string \<Rightarrow> fingerprint list \<Rightarrow> pyval multiset" where
  "vals k fps = mset (filter truthy (map (\<lambda>f. dgetn f k) fps))"

lemma vals_simps [simp]:
  "vals k [] = {#}" "vals k (fps @ gps) = vals k fps + vals k gps"
  by (simp_all add: vals_def)

lemma vals_Cons: "vals k (f # fps) = vals k [f] + vals k fps"
  by (simp add: vals_def)

lemma vals_update:
  "wf_dict un \<Longrightarrow> map_of un v = Some e \<Longrightarrow>
     vals k (map snd (AList.update v f un)) + vals k [e] = vals k (map snd un) + vals k [f]"
proof (induction un)
  case Nil
  then show ?case by simp
next
  case (Cons a un)
  obtain x g where a: "a = (x, g)" by fastforce
  show ?case
  proof (cases "x = v")
    case True
    then show ?thesis using Cons.prems(2) a by (simp add: vals_Cons [of _ _ "map snd un"])
  next
    case False
    then have "vals k (map snd (AList.update v f un)) + vals k [e] = vals k (map snd un) + vals k [f]"
      using Cons a by (simp add: wf_dict_def)
    then show ?thesis
      using False a by (simp add: vals_Cons [of _ _ "map snd un"] vals_Cons [of _ _ "map snd (AList.update v f un)"]
          add.assoc)
  qed
qed

lemma dedup_step_vals:
  assumes "index_ok k un" and "ok fp" and "plain k'" and "dedup_step merge k fp (no, un) = Return (no', un')"
  shows "vals k' (no' @ map snd un') \<subseteq># vals k' (no @ map snd un) + vals k' [fp]"
proof (cases "truthy (dgetn fp k)")
  case False
  then show ?thesis using assms(4) by (auto simp: dedup_step_def Let_def)
next
  case True
  then have key: "as_key (dgetn fp k) = Return (dgetn fp k)"
    using assms(4) by (auto simp: dedup_step_def Let_def res_simps as_key_def split: if_splits)
  show ?thesis
  proof (cases "map_of un (dgetn fp k)")
    case None
    then have "dgetn fp k \<notin> fst ` set un" by (simp add: map_of_eq_None_iff)
    moreover have "no' = no" "un' = AList.update (dgetn fp k) fp un"
      using assms(4) True key None by (auto simp: dedup_step_def Let_def)
    ultimately show ?thesis by (simp add: update_absent add.assoc)
  next
    case (Some e)
    from index_ok_entry [OF assms(1) Some] have e: "ok e" by simp
    obtain r where r: "merge e fp = Return r" using merge_total [OF e assms(2)] by blast
    have res: "no' = no" "un' = AList.update (dgetn fp k) r un"
      using assms(4) True key Some r ok_nonempty [OF e] by (auto simp: dedup_step_def Let_def)
    have "vals k' [r] = vals k' [e] \<or> vals k' [r] = vals k' [fp]"
      using merge_value [OF e assms(2) r assms(3)] by (auto simp: vals_def)
    moreover have "vals k' (map snd un') + vals k' [e] = vals k' (map snd un) + vals k' [r]"
      using vals_update [OF _ Some] assms(1) res(2) by (simp add: index_ok_def)
    ultimately have "vals k' (map snd un') \<subseteq># vals k' (map snd un) + vals k' [fp]"
      by (metis add_right_cancel mset_subset_eq_add_left)
    then show ?thesis by (simp add: res(1) add.assoc)
  qed
qed

lemma dedup_fold_vals:
  assumes "plain k" and "plain k'"
  shows "list_all ok fps \<Longrightarrow> index_ok k un \<Longrightarrow>
    \<forall>fp \<in> set fps. truthy (dgetn fp k) \<longrightarrow> \<not> is_list (dgetn fp k) \<and> \<not> is_dict (dgetn fp k) \<Longrightarrow>
    fold_res (dedup_step merge k) fps (no, un) = Return (no', un') \<Longrightarrow>
    vals k' (no' @ map snd un') \<subseteq># vals k' (no @ map snd un) + vals k' fps"
proof (induction fps arbitrary: no un)
  case Nil
  then show ?case by simp
next
  case (Cons fp fps)
  have fp: "ok fp" "truthy (dgetn fp k) \<Longrightarrow> \<not> is_list (dgetn fp k) \<and> \<not> is_dict (dgetn fp k)"
    using Cons.prems(1,3) by simp_all
  from dedup_step_ok [OF Cons.prems(2) fp(1) assms(1) fp(2), of no] obtain no1 un1 where
    s: "dedup_step merge k fp (no, un) = Return (no1, un1)" "index_ok k un1" by blast
  have "vals k' (no' @ map snd un') \<subseteq># vals k' (no1 @ map snd un1) + vals k' fps"
    using Cons.IH [OF _ s(2)] Cons.prems s(1) by simp
  also have "\<dots> \<subseteq># vals k' (no @ map snd un) + vals k' [fp] + vals k' fps"
    using dedup_step_vals [OF Cons.prems(2) fp(1) assms(2) s(1)] by simp
  also have "\<dots> = vals k' (no @ map snd un) + vals k' (fp # fps)"
    by (simp add: vals_Cons [of _ fp fps] add.assoc)
  finally show ?case .
qed

lemma dedup_pass_vals:
  assumes "list_all ok fps" and "plain k" and "plain k'" and "dedup_pass merge k fps = Return r"
    and "\<forall>fp \<in> set fps. truthy (dgetn fp k) \<longrightarrow> \<not> is_list (dgetn fp k) \<and> \<not> is_dict (dgetn fp k)"
  shows "vals k' r \<subseteq># vals k' fps"
proof -
  from assms(4) obtain no un where f: "fold_res (dedup_step merge k) fps ([], []) = Return (no, un)" "r = no @ map snd un"
    by (auto simp: dedup_pass_def res_simps)
  have "index_ok k []" by (simp add: index_ok_def)
  from dedup_fold_vals [OF assms(2,3,1) this assms(5) f(1)] show ?thesis by (simp add: f(2))
qed

end

text \<open>The keys a fingerprint is identified by hold a text or nothing.\<close>

fun scalar :: "pyval \<Rightarrow> bool" where
  "scalar (PList _) = False"
| "scalar (PDict _) = False"
| "scalar _ = True"

lemma scalar_conv: "scalar v \<longleftrightarrow> \<not> is_list v \<and> \<not> is_dict v"
  by (cases v) auto

definition plain_key :: "string \<Rightarrow> bool" where
  "plain_key k \<longleftrightarrow> k \<notin> {META_DATA_KEY, SOURCES_KEY, ENTITLEMENTS_KEY, PRODUCTS_KEY}"

text \<open>A well-formed fingerprint whose plain values satisfy \<open>P\<close>.\<close>

definition fp_keyed :: "(string \<Rightarrow> pyval \<Rightarrow> bool) \<Rightarrow> string list \<Rightarrow> bool \<Rightarrow> fingerprint \<Rightarrow> bool" where
  "fp_keyed P N g fp \<longleftrightarrow> fp_ok N g fp \<and> (\<forall>k. plain_key k \<longrightarrow> P k (dgetn fp k))"

definition source_keys :: "fingerprint \<Rightarrow> string set" where
  "source_keys fp = set (map fst (fp_sources fp))"

lemma merge_spec_value:
  "merge_spec p m r \<Longrightarrow> plain_key k \<Longrightarrow> dgetn r k = dgetn p k \<or> dgetn r k = dgetn m k"
  by (cases "k = GLOBAL_ID_KEY") (auto simp: merge_spec_def plain_key_def special_keys_def dget_def)

lemma merge_spec_sources: "merge_spec p m r \<Longrightarrow> source_keys r = source_keys p \<union> source_keys m"
proof -
  assume spec: "merge_spec p m r"
  have "k \<in> source_keys f \<longleftrightarrow> map_of (fp_sources f) k \<noteq> None" for k f
    by (simp add: source_keys_def map_of_eq_None_iff)
  with spec show ?thesis
    by (auto simp: merge_spec_def set_eq_iff split: option.splits)
qed

lemma merge_keyed:
  assumes "fp_keyed P N g p" and "fp_keyed P N' g m" and "set N' \<subseteq> set N"
  obtains r where "merge_fingerprint No_keys p m = Return r" and "fp_keyed P N g r" and "merge_spec p m r"
proof -
  from assms have ok: "fp_ok N g p" "fp_ok N' g m" by (simp_all add: fp_keyed_def)
  obtain r where r: "merge_fingerprint No_keys p m = Return r" "fp_ok N g r" "merge_spec p m r"
    by (rule merge_ok [OF ok assms(3)])
  have "P k (dgetn r k)" if "plain_key k" for k
    using assms(1,2) that merge_spec_value [OF r(3) that] unfolding fp_keyed_def by metis
  with r show ?thesis using that by (simp add: fp_keyed_def)
qed

interpretation merger: fingerprint_merger "merge_fingerprint No_keys" "fp_keyed P N g" source_keys plain_key
  for P N g
proof
  fix p m
  assume ok: "fp_keyed P N g p" "fp_keyed P N g m"
  obtain r where r: "merge_fingerprint No_keys p m = Return r" "fp_keyed P N g r" "merge_spec p m r"
    by (rule merge_keyed [OF ok order_refl])
  then show "\<exists>r. merge_fingerprint No_keys p m = Return r \<and> fp_keyed P N g r
      \<and> source_keys r = source_keys p \<union> source_keys m"
    using merge_spec_sources [OF r(3)] by blast
  show "dgetn r' k = dgetn p k \<or> dgetn r' k = dgetn m k"
    if "merge_fingerprint No_keys p m = Return r'" "plain_key k" for r' k
    using merge_spec_value [OF r(3) that(2)] that(1) r(1) by simp
next
  fix p
  assume "fp_keyed P N g p"
  then show "p \<noteq> []" by (auto simp: fp_keyed_def fp_ok_def)
qed

lemma distinct_submset: "mset xs \<subseteq># mset ys \<Longrightarrow> distinct ys \<Longrightarrow> distinct xs"
proof -
  assume sub: "mset xs \<subseteq># mset ys" and d: "distinct ys"
  have "count (mset ys) a = (if a \<in> set ys then 1 else 0)" for a
    using d by (simp only: distinct_count_atmost_1)
  then have "count (mset xs) a \<le> 1" for a
    using mset_subset_eq_count [OF sub, of a] by (metis le0 order_trans order_refl)
  moreover have "1 \<le> count (mset xs) a" if "a \<in> set xs" for a
    using that count_greater_zero_iff [of "mset xs" a] by simp
  ultimately show ?thesis
    unfolding distinct_count_atmost_1 by (simp add: le_antisym count_eq_zero_iff)
qed

lemma dedup_pass_keyed:
  assumes "list_all (fp_keyed P N g) fps" and "plain_key k" and "\<forall>fp \<in> set fps. scalar (dgetn fp k)"
  obtains r where "dedup_pass (merge_fingerprint No_keys) k fps = Return r" and "list_all (fp_keyed P N g) r"
    and "distinct (filter truthy (map (\<lambda>f. dgetn f k) r))"
    and "\<forall>k'. plain_key k' \<and> distinct (filter truthy (map (\<lambda>f. dgetn f k') fps)) \<longrightarrow>
      distinct (filter truthy (map (\<lambda>f. dgetn f k') r))"
    and "\<Union> (source_keys ` set r) = \<Union> (source_keys ` set fps)"
proof -
  have sc: "\<forall>fp \<in> set fps. truthy (dgetn fp k) \<longrightarrow> \<not> is_list (dgetn fp k) \<and> \<not> is_dict (dgetn fp k)"
    using assms(3) by (simp add: scalar_conv)
  obtain r where r: "dedup_pass (merge_fingerprint No_keys) k fps = Return r" "list_all (fp_keyed P N g) r"
    "distinct (filter truthy (map (\<lambda>f. dgetn f k) r))" "merger.sources_of r = merger.sources_of fps"
    by (rule merger.dedup_pass_ok [OF assms(1,2) sc])
  have "distinct (filter truthy (map (\<lambda>f. dgetn f k') r))"
    if "plain_key k'" "distinct (filter truthy (map (\<lambda>f. dgetn f k') fps))" for k'
    using merger.dedup_pass_vals [OF assms(1,2) that(1) r(1) sc] that(2) distinct_submset
    unfolding merger.vals_def by blast
  with that [OF r(1-3)] r(4) show ?thesis by (simp add: merger.sources_of_def)
qed

text \<open>All passes of a de-duplication.\<close>

lemma remove_duplicates_keyed:
  assumes "list_all (fp_keyed P N g) fps" and "\<forall>k \<in> set ids. plain_key k \<and> (\<forall>v. P k v \<longrightarrow> scalar v)"
  shows "\<exists>r. remove_duplicate_fingerprints ids False fps = Return r \<and> list_all (fp_keyed P N g) r
    \<and> \<Union> (source_keys ` set r) = \<Union> (source_keys ` set fps)
    \<and> list_all (\<lambda>k. distinct (filter truthy (map (\<lambda>f. dgetn f k) r))) ids"
proof (cases "fps = []")
  case True
  then show ?thesis by (simp add: remove_duplicate_fingerprints_def list_all_iff)
next
  case False
  let ?f = "\<lambda>id_key result_list. bind_res (dedup_pass (merge_fingerprint No_keys) id_key result_list) (\<lambda>r. Return r)"
  let ?D = "\<lambda>fps k. distinct (filter truthy (map (\<lambda>f. dgetn f k) fps))"
  have "\<exists>r. fold_res ?f ids fps = Return r \<and> list_all (fp_keyed P N g) r
    \<and> \<Union> (source_keys ` set r) = \<Union> (source_keys ` set fps) \<and> list_all (?D r) ids
    \<and> (\<forall>k. plain_key k \<and> ?D fps k \<longrightarrow> ?D r k)"
    using assms
  proof (induction ids arbitrary: fps)
    case Nil
    then show ?case by simp
  next
    case (Cons i ids)
    from Cons.prems have i: "plain_key i" "\<forall>fp \<in> set fps. scalar (dgetn fp i)"
      by (auto simp: list_all_iff fp_keyed_def)
    obtain r1 where r1: "dedup_pass (merge_fingerprint No_keys) i fps = Return r1" "list_all (fp_keyed P N g) r1"
      "?D r1 i" "\<forall>k. plain_key k \<and> ?D fps k \<longrightarrow> ?D r1 k"
      "\<Union> (source_keys ` set r1) = \<Union> (source_keys ` set fps)"
      by (rule dedup_pass_keyed [OF Cons.prems(1) i])
    have "\<forall>k \<in> set ids. plain_key k \<and> (\<forall>v. P k v \<longrightarrow> scalar v)" using Cons.prems(2) by simp
    from Cons.IH [OF r1(2) this] obtain r where
      r: "fold_res ?f ids r1 = Return r" "list_all (fp_keyed P N g) r"
      "\<Union> (source_keys ` set r) = \<Union> (source_keys ` set r1)" "list_all (?D r) ids"
      "\<forall>k. plain_key k \<and> ?D r1 k \<longrightarrow> ?D r k"
      by (elim exE conjE) (rule that)
    have "list_all (?D r) (i # ids)" using r(4,5) r1(3) i(1) by simp
    moreover have "\<forall>k. plain_key k \<and> ?D fps k \<longrightarrow> ?D r k" using r(5) r1(4) by simp
    ultimately show ?case using r(1-3) r1(1,5) by (intro exI [of _ r]) simp
  qed
  with False show ?thesis by (auto simp: remove_duplicate_fingerprints_def)
qed

section \<open>Global ids and the index\<close>

lemma plain_global [simp]: "plain_key GLOBAL_ID_KEY"
  by (simp add: plain_key_def fp_keys)

lemma fp_list_cong: "map_of f k = map_of f' k \<Longrightarrow> fp_list k f = fp_list k f'"
  by (simp add: fp_list_def)

lemma fp_ok_same_keys:
  assumes "fp_ok N g fp" and "wf_dict fp'" and "\<And>k. k \<noteq> GLOBAL_ID_KEY \<Longrightarrow> map_of fp' k = map_of fp k"
    and "has_key fp' GLOBAL_ID_KEY = g'" and "\<And>v. map_of fp' GLOBAL_ID_KEY = Some v \<Longrightarrow> is_str v"
  shows "fp_ok N g' fp'"
proof -
  note m = fp_ok_meta [OF assms(1)] and r = fp_ok_rest [OF assms(1)]
  have same: "map_of fp' META_DATA_KEY = map_of fp META_DATA_KEY" "map_of fp' SOURCES_KEY = map_of fp SOURCES_KEY"
    "map_of fp' ENTITLEMENTS_KEY = map_of fp ENTITLEMENTS_KEY" "map_of fp' PRODUCTS_KEY = map_of fp PRODUCTS_KEY"
    using assms(3) special_differ by metis+
  have keys: "has_key (fp_meta fp) k" if "has_key fp' k" "k \<notin> set special_keys" for k
    using that assms(3) [of k] m(4) [of k] special_distinct(6) by (metis has_key_map_of)
  show ?thesis
    by (rule fp_okI [OF assms(2) _ m(2) m(3) keys _ r(3) _ r(5) _ r(7,8) assms(4,5)])
      (simp_all add: same m(1) r(2,4,6))
qed

lemma add_global_id_ok:
  assumes "fp_keyed P N g fp" and "\<forall>u. P GLOBAL_ID_KEY (PStr u)"
  shows "fp_keyed P N True (AList.update GLOBAL_ID_KEY (PStr u) fp)"
proof -
  let ?fp = "AList.update GLOBAL_ID_KEY (PStr u) fp"
  from assms(1) have ok: "fp_ok N g fp" by (simp add: fp_keyed_def)
  have "fp_ok N True ?fp"
    by (rule fp_ok_same_keys [OF ok]) (use wf_dict_update [OF fp_ok_rest(1) [OF ok]] in \<open>simp_all add: has_key_map_of dict_simps\<close>)
  moreover have "P k (dgetn ?fp k)" if "plain_key k" for k
    using that assms by (simp add: fp_keyed_def dict_simps)
  ultimately show ?thesis by (simp add: fp_keyed_def)
qed

lemma remove_global_id_ok:
  assumes "fp_keyed P N g fp" and "P GLOBAL_ID_KEY PNone"
  shows "fp_keyed P N False (AList.delete GLOBAL_ID_KEY fp)"
proof -
  let ?fp = "AList.delete GLOBAL_ID_KEY fp"
  from assms(1) have ok: "fp_ok N g fp" by (simp add: fp_keyed_def)
  have "fp_ok N False ?fp"
    by (rule fp_ok_same_keys [OF ok])
      (use wf_dict_delete [OF fp_ok_rest(1) [OF ok]] in \<open>simp_all add: has_key_map_of map_of_AList_delete\<close>)
  moreover have "P k (dgetn ?fp k)" if "plain_key k" for k
    using that assms by (simp add: fp_keyed_def dget_def map_of_AList_delete)
  ultimately show ?thesis by (simp add: fp_keyed_def)
qed

lemma add_global_ids_ok:
  "list_all (fp_keyed P N g) fps \<Longrightarrow> \<forall>u. P GLOBAL_ID_KEY (PStr u) \<Longrightarrow>
     list_all (fp_keyed P N True) (add_global_ids uuid n fps)"
  by (induction fps arbitrary: n) (auto intro!: add_global_id_ok)

text \<open>The keys under which a fingerprint is indexed: the elements of a list, or the value itself.\<close>

fun index_keys :: "pyval \<Rightarrow> pyval list" where
  "index_keys (PList xs) = xs"
| "index_keys v = (if truthy v then [v] else [])"

definition indexable :: "pyval \<Rightarrow> bool" where
  "indexable v \<longleftrightarrow> list_all scalar (index_keys v)"

lemma index_step_keys:
  "index_step k fp (idx, no) =
     (if index_keys (dgetn fp k) = [] then Return (idx, no @ [fp])
      else bind_res (fold_res (index_one fp) (index_keys (dgetn fp k)) idx) (\<lambda>i. Return (i, no)))"
proof -
  have one: "bind_res (index_one fp v idx) (fold_res (index_one fp) []) = index_one fp v idx" for v
    by (cases "index_one fp v idx") simp_all
  show ?thesis by (cases "dgetn fp k") (simp_all add: index_step_def Let_def one)
qed

lemma index_one_ok:
  assumes "scalar v"
  shows "index_one fp v idx = Return (if v \<in> fst ` set idx then idx else idx @ [(v, fp)])"
proof -
  have "map_of idx v = None \<longleftrightarrow> v \<notin> fst ` set idx" by (simp add: map_of_eq_None_iff)
  moreover have "AList.update v fp idx = idx @ [(v, fp)]" if "v \<notin> fst ` set idx"
    using that by (rule update_absent)
  ultimately show ?thesis using assms by (simp add: index_one_def as_key_def scalar_conv)
qed

text \<open>What indexing one fingerprint adds: entries for it under new keys only, and at least one when
  none of its keys is taken.\<close>

lemma index_list_ok:
  "list_all scalar xs \<Longrightarrow> wf_dict idx \<Longrightarrow>
     \<exists>new. fold_res (index_one fp) xs idx = Return (idx @ new) \<and> wf_dict (idx @ new) \<and> snd ` set new \<subseteq> {fp}
       \<and> fst ` set (idx @ new) = fst ` set idx \<union> set xs"
proof (induction xs arbitrary: idx)
  case Nil
  then show ?case by simp
next
  case (Cons x xs)
  let ?new = "if x \<in> fst ` set idx then [] else [(x, fp)]"
  have one: "index_one fp x idx = Return (idx @ ?new)"
    using Cons.prems index_one_ok [of x fp idx] by simp
  have "wf_dict (idx @ ?new)" using Cons.prems(2) by (simp add: wf_dict_def)
  from Cons.IH [OF _ this] Cons.prems(1) obtain new where
    new: "fold_res (index_one fp) xs (idx @ ?new) = Return ((idx @ ?new) @ new)"
      "wf_dict ((idx @ ?new) @ new)" "snd ` set new \<subseteq> {fp}"
      "fst ` set ((idx @ ?new) @ new) = fst ` set (idx @ ?new) \<union> set xs"
    by auto
  have "snd ` set (?new @ new) \<subseteq> {fp}" using new(3) by simp
  moreover have "fst ` set (idx @ ?new @ new) = fst ` set idx \<union> set (x # xs)"
    using new(4) by (auto simp: image_Un)
  ultimately show ?case using one new(1,2) by (intro exI [of _ "?new @ new"]) simp
qed

fun disjoint_keys :: "string \<Rightarrow> fingerprint list \<Rightarrow> bool" where
  "disjoint_keys k [] = True"
| "disjoint_keys k (fp # fps) \<longleftrightarrow>
     (\<forall>g \<in> set fps. set (index_keys (dgetn fp k)) \<inter> set (index_keys (dgetn g k)) = {}) \<and> disjoint_keys k fps"

lemma index_fold_ok:
  "\<forall>fp \<in> set fps. indexable (dgetn fp k) \<Longrightarrow> wf_dict idx \<Longrightarrow>
     \<exists>i no'. fold_res (index_step k) fps (idx, no) = Return (i, no') \<and> wf_dict i
       \<and> snd ` set i \<union> set no' \<subseteq> set fps \<union> snd ` set idx \<union> set no
       \<and> (disjoint_keys k fps \<and> (\<forall>fp \<in> set fps. set (index_keys (dgetn fp k)) \<inter> fst ` set idx = {}) \<longrightarrow>
            snd ` set i \<union> set no' = set fps \<union> snd ` set idx \<union> set no)"
proof (induction fps arbitrary: idx no)
  case Nil
  then show ?case by simp
next
  case (Cons fp fps)
  let ?ks = "index_keys (dgetn fp k)"
  obtain new no1 where s: "index_step k fp (idx, no) = Return (idx @ new, no1)" "wf_dict (idx @ new)"
    "snd ` set new \<union> set no1 \<subseteq> insert fp (set no)" "set no \<subseteq> set no1"
    "fst ` set (idx @ new) = fst ` set idx \<union> set ?ks"
    "set ?ks \<inter> fst ` set idx = {} \<longrightarrow> snd ` set new \<union> set no1 = insert fp (set no)"
  proof (cases "?ks = []")
    case True
    with that [of "[]" "no @ [fp]"] Cons.prems(2) show ?thesis by (auto simp: index_step_keys)
  next
    case False
    have "list_all scalar ?ks" using Cons.prems(1) by (simp add: indexable_def)
    from index_list_ok [OF this Cons.prems(2), of fp] obtain new where
      n: "fold_res (index_one fp) ?ks idx = Return (idx @ new)" "wf_dict (idx @ new)"
        "snd ` set new \<subseteq> {fp}" "fst ` set (idx @ new) = fst ` set idx \<union> set ?ks" by blast
    have "snd ` set new = {fp}" if d: "set ?ks \<inter> fst ` set idx = {}"
    proof -
      obtain x where x: "x \<in> set ?ks" using False by (cases ?ks) auto
      then have "x \<in> fst ` set new" using d n(4) unfolding set_append image_Un by blast
      then show ?thesis using n(3) by auto
    qed
    then show ?thesis using that [of new no] n False by (auto simp: index_step_keys)
  qed
  have "\<forall>fp \<in> set fps. indexable (dgetn fp k)" using Cons.prems(1) by simp
  from Cons.IH [OF this s(2), of no1] obtain i no' where
    r: "fold_res (index_step k) fps (idx @ new, no1) = Return (i, no')" "wf_dict i"
      "snd ` set i \<union> set no' \<subseteq> set fps \<union> snd ` set (idx @ new) \<union> set no1"
      "disjoint_keys k fps \<and> (\<forall>fp \<in> set fps. set (index_keys (dgetn fp k)) \<inter> fst ` set (idx @ new) = {}) \<longrightarrow>
        snd ` set i \<union> set no' = set fps \<union> snd ` set (idx @ new) \<union> set no1"
    by (elim exE conjE) (rule that)
  have run: "fold_res (index_step k) (fp # fps) (idx, no) = Return (i, no')"
    using s(1) r(1) by simp
  have sub: "snd ` set i \<union> set no' \<subseteq> set (fp # fps) \<union> snd ` set idx \<union> set no"
    using s(3) r(3) unfolding set_append image_Un list.set by blast
  have "snd ` set i \<union> set no' = set (fp # fps) \<union> snd ` set idx \<union> set no"
    if "disjoint_keys k (fp # fps)" "\<forall>fp \<in> set (fp # fps). set (index_keys (dgetn fp k)) \<inter> fst ` set idx = {}"
  proof -
    have "\<forall>g \<in> set fps. set (index_keys (dgetn g k)) \<inter> fst ` set (idx @ new) = {}"
      unfolding s(5) using that by (simp add: Int_Un_distrib Int_commute)
    with that(1) r(4) have "snd ` set i \<union> set no' = set fps \<union> snd ` set (idx @ new) \<union> set no1"
      by simp
    then show ?thesis using s(6) that(2) by (auto simp: image_Un)
  qed
  with run sub r(2) show ?case by blast
qed

section \<open>Merging two lists\<close>

definition all_sources :: "fingerprint list \<Rightarrow> string set" where
  "all_sources fps = \<Union> (source_keys ` set fps)"

lemma all_sources_simps [simp]:
  "all_sources [] = {}"
  "all_sources (f # fps) = source_keys f \<union> all_sources fps"
  "all_sources (fps @ gps) = all_sources fps \<union> all_sources gps"
  by (auto simp: all_sources_def)

lemma source_keys_other_key [simp]:
  "k \<noteq> SOURCES_KEY \<Longrightarrow> source_keys (AList.update k v fp) = source_keys fp"
  "k \<noteq> SOURCES_KEY \<Longrightarrow> source_keys (AList.delete k fp) = source_keys fp"
  by (simp_all add: source_keys_def fp_sources_def dict_simps map_of_AList_delete)

lemma global_id_not_sources [simp]: "GLOBAL_ID_KEY \<noteq> SOURCES_KEY"
  by (simp add: fp_keys)

lemma add_global_ids_sources [simp]: "all_sources (add_global_ids uuid n fps) = all_sources fps"
  by (induction fps arbitrary: n) simp_all

lemma merge_tuple_keys: "reverse_keys rpk = [] \<Longrightarrow> merge_fingerprint rpk p m = merge_fingerprint No_keys p m"
  by (simp add: merge_fingerprint_def keys_to_add_def)

text \<open>Values a fingerprint may hold under its plain keys: a global id is a text, and every key that
  the lists are merged by can be indexed.\<close>

definition matchable :: "string list \<Rightarrow> (string \<Rightarrow> pyval \<Rightarrow> bool) \<Rightarrow> bool" where
  "matchable ks P \<longleftrightarrow> (\<forall>u. P GLOBAL_ID_KEY (PStr u)) \<and> P GLOBAL_ID_KEY PNone \<and>
     (\<forall>v. P GLOBAL_ID_KEY v \<longrightarrow> scalar v) \<and>
     (\<forall>k \<in> set ks. plain_key k \<and> k \<noteq> GLOBAL_ID_KEY \<and> (\<forall>v. P k v \<longrightarrow> indexable v))"

lemma disjoint_keys_ids:
  assumes "k \<noteq> GLOBAL_ID_KEY"
  shows "disjoint_keys k (add_global_ids uuid n fps) \<longleftrightarrow> disjoint_keys k fps"
proof (induction fps arbitrary: n)
  case Nil
  then show ?case by simp
next
  case (Cons fp fps)
  have "(\<lambda>g. index_keys (dgetn g k)) ` set (add_global_ids uuid m fps) = (\<lambda>g. index_keys (dgetn g k)) ` set fps"
    for m fps
    using assms by (induction fps arbitrary: m) (simp_all add: dict_simps)
  from this [of "n + 1" fps] have
    "(\<forall>g \<in> set (add_global_ids uuid (n + 1) fps). Q (index_keys (dgetn g k))) \<longleftrightarrow>
     (\<forall>g \<in> set fps. Q (index_keys (dgetn g k)))" for Q
    by (metis (no_types, lifting) imageE imageI)
  from this [of "\<lambda>ks. set (index_keys (dgetn fp k)) \<inter> set ks = {}"] Cons.IH assms show ?case
    by (simp add: dict_simps)
qed

lemma create_index_ok:
  assumes "list_all (fp_keyed P N False) fps" and "matchable ks P" and "k \<in> set ks"
  obtains i no where "create_index_for_fingerprints uuid n k fps = Return (i, no)" and "wf_dict i"
    and "list_all (fp_keyed P N True) (map snd i @ no)"
    and "disjoint_keys k fps \<Longrightarrow> all_sources (map snd i @ no) = all_sources fps"
proof -
  let ?fps = "add_global_ids uuid n fps"
  have ok: "list_all (fp_keyed P N True) ?fps"
    using add_global_ids_ok [OF assms(1)] assms(2) by (simp add: matchable_def)
  have k: "plain_key k" "k \<noteq> GLOBAL_ID_KEY" using assms(2,3) by (simp_all add: matchable_def)
  have ix: "\<forall>fp \<in> set ?fps. indexable (dgetn fp k)"
    using ok k(1) assms(2,3) by (simp add: list_all_iff fp_keyed_def matchable_def)
  have wf: "wf_dict ([] :: fp_index)" by (simp add: wf_dict_def)
  from index_fold_ok [OF ix wf, of "[]"] obtain i no where
    i: "fold_res (index_step k) ?fps ([], []) = Return (i, no)" "wf_dict i"
      "snd ` set i \<union> set no \<subseteq> set ?fps \<union> snd ` set ([] :: fp_index) \<union> set []"
      "disjoint_keys k ?fps \<and> (\<forall>fp \<in> set ?fps. set (index_keys (dgetn fp k)) \<inter> fst ` set ([] :: fp_index) = {}) \<longrightarrow>
         snd ` set i \<union> set no = set ?fps \<union> snd ` set ([] :: fp_index) \<union> set []"
    by (elim exE conjE) (rule that)
  have "list_all (fp_keyed P N True) (map snd i @ no)"
    using ok i(3) by (auto simp: list_all_iff)
  moreover have "all_sources (map snd i @ no) = all_sources fps" if "disjoint_keys k fps"
  proof -
    have "set (map snd i @ no) = set ?fps" using i(4) that disjoint_keys_ids [OF k(2)] by simp
    then have "all_sources (map snd i @ no) = all_sources ?fps" unfolding all_sources_def by simp
    then show ?thesis by simp
  qed
  ultimately show ?thesis
    using that [of i no] i(1,2) by (simp add: create_index_for_fingerprints_def)
qed

definition match_ok :: "(string \<Rightarrow> pyval \<Rightarrow> bool) \<Rightarrow> string list \<Rightarrow> string list \<Rightarrow> match_state \<Rightarrow> bool" where
  "match_ok P N N' s \<longleftrightarrow> wf_dict (ms_base s) \<and> list_all (fp_keyed P N True) (map snd (ms_base s) @ ms_matched s) \<and>
     list_all (fp_keyed P N' True) (ms_no_match s)"

definition match_sources :: "match_state \<Rightarrow> string set" where
  "match_sources s = all_sources (map snd (ms_base s) @ ms_matched s @ ms_no_match s)"

lemma delete_sources:
  assumes "wf_dict d" and "map_of d k = Some f"
  shows "all_sources (map snd d) = source_keys f \<union> all_sources (map snd (AList.delete k d))"
proof -
  have del: "set (AList.delete k d) = {a \<in> set d. fst a \<noteq> k}"
    by (auto simp: AList.delete_eq)
  have same: "snd a = f" if "a \<in> set d" "fst a = k" for a
    using that assms unfolding wf_dict_def by (metis map_of_is_SomeI option.inject prod.collapse)
  have "snd ` set d = insert f (snd ` {a \<in> set d. fst a \<noteq> k})"
  proof (intro equalityI subsetI)
    fix x
    assume "x \<in> snd ` set d"
    then show "x \<in> insert f (snd ` {a \<in> set d. fst a \<noteq> k})" using same by auto
  next
    fix x
    assume "x \<in> insert f (snd ` {a \<in> set d. fst a \<noteq> k})"
    then show "x \<in> snd ` set d" using imageI [OF map_of_SomeD [OF assms(2)], of snd] by auto
  qed
  then have "snd ` set d = insert f (snd ` set (AList.delete k d))" unfolding del .
  then show ?thesis by (simp add: all_sources_def)
qed

lemma match_step_ok:
  assumes "match_ok P N N' s" and "fp_keyed P N' True c" and "set N' \<subseteq> set N" and "reverse_keys rpk = []"
  shows "\<exists>s'. match_step rpk (k, c) s = Return s' \<and> match_ok P N N' s' \<and>
    match_sources s' = match_sources s \<union> source_keys c"
proof (cases "map_of (ms_base s) k")
  case None
  then show ?thesis using assms(1,2) by (auto simp: match_step_def match_ok_def match_sources_def)
next
  case (Some b)
  have wf: "wf_dict (ms_base s)" using assms(1) by (simp add: match_ok_def)
  have b: "fp_keyed P N True b"
    using assms(1) map_of_SomeD [OF Some] by (force simp: match_ok_def list_all_iff)
  then have "b \<noteq> []" by (auto simp: fp_keyed_def fp_ok_def)
  obtain r where r: "merge_fingerprint No_keys b c = Return r" "fp_keyed P N True r" "merge_spec b c r"
    by (rule merge_keyed [OF b assms(2,3)])
  let ?s = "s\<lparr>ms_base := AList.delete k (ms_base s), ms_matched := ms_matched s @ [r], ms_count := ms_count s + 1\<rparr>"
  have "match_step rpk (k, c) s = Return ?s"
    using Some \<open>b \<noteq> []\<close> r(1) merge_tuple_keys [OF assms(4)] by (simp add: match_step_def)
  moreover have "set (AList.delete k (ms_base s)) \<subseteq> set (ms_base s)"
    by (auto simp: AList.delete_eq)
  then have "match_ok P N N' ?s"
    using assms(1) r(2) wf_dict_delete [OF wf, of k] by (auto simp: match_ok_def list_all_iff)
  moreover have "match_sources ?s = match_sources s \<union> source_keys c"
    using delete_sources [OF wf Some] merge_spec_sources [OF r(3)] by (auto simp: match_sources_def)
  ultimately show ?thesis by blast
qed

lemma match_fold_ok:
  assumes "set N' \<subseteq> set N" and "reverse_keys rpk = []"
  shows "match_ok P N N' s \<Longrightarrow> list_all (fp_keyed P N' True) (map snd cs) \<Longrightarrow>
    \<exists>s'. fold_res (match_step rpk) cs s = Return s' \<and> match_ok P N N' s' \<and>
      match_sources s' = match_sources s \<union> all_sources (map snd cs)"
proof (induction cs arbitrary: s)
  case Nil
  then show ?case by simp
next
  case (Cons a cs)
  obtain k c where a: "a = (k, c)" by fastforce
  from Cons.prems a have "fp_keyed P N' True c" by simp
  from match_step_ok [OF Cons.prems(1) this assms] obtain s1 where
    s1: "match_step rpk a s = Return s1" "match_ok P N N' s1" "match_sources s1 = match_sources s \<union> source_keys c"
    unfolding a by blast
  from Cons.IH [OF s1(2)] Cons.prems(2) obtain s' where
    "fold_res (match_step rpk) cs s1 = Return s'" "match_ok P N N' s'"
    "match_sources s' = match_sources s1 \<union> all_sources (map snd cs)" by auto
  with s1 a show ?case by auto
qed

lemma remove_global_ids_ok:
  assumes "list_all (fp_keyed P N True) fps" and "matchable ks P"
  obtains r where "remove_duplicate_fingerprints [GLOBAL_ID_KEY] True fps = Return r"
    and "list_all (fp_keyed P N False) r" and "all_sources r = all_sources fps"
proof (cases "fps = []")
  case True
  then show ?thesis using that [of "[]"] by (simp add: remove_duplicate_fingerprints_def)
next
  case False
  have "\<forall>fp \<in> set fps. scalar (dgetn fp GLOBAL_ID_KEY)"
    using assms by (simp add: list_all_iff fp_keyed_def matchable_def)
  from dedup_pass_keyed [OF assms(1) plain_global this] obtain r where
    r: "dedup_pass (merge_fingerprint No_keys) GLOBAL_ID_KEY fps = Return r" "list_all (fp_keyed P N True) r"
      "\<Union> (source_keys ` set r) = \<Union> (source_keys ` set fps)" .
  let ?r = "map (AList.delete GLOBAL_ID_KEY) r"
  have "list_all (fp_keyed P N False) ?r"
    using r(2) assms(2) remove_global_id_ok [of P N True] by (simp add: list_all_iff matchable_def)
  moreover have "all_sources ?r = all_sources fps"
    using r(3) by (simp add: all_sources_def image_image)
  ultimately show ?thesis
    using that [of ?r] False r(1) by (simp add: remove_duplicate_fingerprints_def)
qed

lemma merge_matching_ok:
  assumes "list_all (fp_keyed P N False) bs" and "list_all (fp_keyed P N' False) cs" and "set N' \<subseteq> set N"
    and "matchable ks P" and "bk \<in> set ks" and "ck \<in> set ks" and "reverse_keys rpk = []"
  obtains c r t where "merge_matching_fingerprints uuid n rpk bk bs ck cs = Return (c, r, t)"
    and "list_all (fp_keyed P N False) r" and "list_all (fp_keyed P N' False) t"
    and "disjoint_keys bk bs \<Longrightarrow> disjoint_keys ck cs \<Longrightarrow> all_sources (r @ t) = all_sources (bs @ cs)"
proof -
  obtain bi bn where b: "create_index_for_fingerprints uuid n bk bs = Return (bi, bn)" "wf_dict bi"
    "list_all (fp_keyed P N True) (map snd bi @ bn)"
    "disjoint_keys bk bs \<Longrightarrow> all_sources (map snd bi @ bn) = all_sources bs"
    by (rule create_index_ok [OF assms(1,4,5)]) blast
  obtain ci cn where c: "create_index_for_fingerprints uuid (n + length bs) ck cs = Return (ci, cn)" "wf_dict ci"
    "list_all (fp_keyed P N' True) (map snd ci @ cn)"
    "disjoint_keys ck cs \<Longrightarrow> all_sources (map snd ci @ cn) = all_sources cs"
    by (rule create_index_ok [OF assms(2,4,6)]) blast
  let ?s0 = "\<lparr>ms_base = bi, ms_matched = [], ms_no_match = [], ms_count = 0\<rparr>"
  have s0: "match_ok P N N' ?s0" using b(2,3) by (simp add: match_ok_def)
  have cs: "list_all (fp_keyed P N' True) (map snd ci)" using c(3) by simp
  from match_fold_ok [OF assms(3,7) s0 cs] obtain s where
    s: "fold_res (match_step rpk) ci ?s0 = Return s" "match_ok P N N' s"
      "match_sources s = match_sources ?s0 \<union> all_sources (map snd ci)" by blast
  have l1: "list_all (fp_keyed P N True) (bn @ ms_matched s @ map snd (ms_base s))"
    using s(2) b(3) by (simp add: match_ok_def)
  have l2: "list_all (fp_keyed P N' True) (cn @ ms_no_match s)"
    using s(2) c(3) by (simp add: match_ok_def)
  obtain r where r: "remove_duplicate_fingerprints [GLOBAL_ID_KEY] True (bn @ ms_matched s @ map snd (ms_base s)) = Return r"
    "list_all (fp_keyed P N False) r" "all_sources r = all_sources (bn @ ms_matched s @ map snd (ms_base s))"
    by (rule remove_global_ids_ok [OF l1 assms(4)])
  obtain t where t: "remove_duplicate_fingerprints [GLOBAL_ID_KEY] True (cn @ ms_no_match s) = Return t"
    "list_all (fp_keyed P N' False) t" "all_sources t = all_sources (cn @ ms_no_match s)"
    by (rule remove_global_ids_ok [OF l2 assms(4)])
  have "merge_matching_fingerprints uuid n rpk bk bs ck cs = Return (ms_count s, r, t)"
    unfolding merge_matching_fingerprints_def b(1) c(1) bind_res.simps prod.case s(1) r(1) t(1) ..
  moreover have "all_sources (r @ t) = all_sources (bs @ cs)" if "disjoint_keys bk bs" "disjoint_keys ck cs"
    using r(3) t(3) s(3) b(4) [OF that(1)] c(4) [OF that(2)] by (auto simp: match_sources_def)
  ultimately show ?thesis using that r(2) t(2) by blast
qed

lemma merge_by_keys_ok:
  assumes "set N' \<subseteq> set N" and "matchable ks P" and "reverse_keys rpk = []"
  shows "list_all (fp_keyed P N False) bs \<Longrightarrow> list_all (fp_keyed P N' False) cs \<Longrightarrow>
    \<forall>(bk, ck) \<in> set kl. bk \<in> set ks \<and> ck \<in> set ks \<Longrightarrow>
    \<exists>c r t. merge_by_keys uuid n rpk kl (c0, bs, cs) = Return (c, r, t) \<and>
      list_all (fp_keyed P N False) r \<and> list_all (fp_keyed P N' False) t"
proof (induction kl arbitrary: n c0 bs cs)
  case Nil
  then show ?case by simp
next
  case (Cons a kl)
  obtain bk ck where a: "a = (bk, ck)" by fastforce
  with Cons.prems(3) have k: "bk \<in> set ks" "ck \<in> set ks" by auto
  obtain c r t where r: "merge_matching_fingerprints uuid n rpk bk bs ck cs = Return (c, r, t)"
    "list_all (fp_keyed P N False) r" "list_all (fp_keyed P N' False) t"
    by (rule merge_matching_ok [OF Cons.prems(1,2) assms(1,2) k assms(3)]) blast
  have "\<forall>(bk, ck) \<in> set kl. bk \<in> set ks \<and> ck \<in> set ks" using Cons.prems(3) by simp
  from Cons.IH [OF r(2,3) this] r(1) show ?case by (simp add: a)
qed

lemma merge_source_types_ok:
  assumes "list_all (fp_keyed P N False) bs" and "list_all (fp_keyed P N' False) cs" and "set N' \<subseteq> set N"
    and "matchable ks P" and "\<forall>(bk, ck) \<in> set kl. bk \<in> set ks \<and> ck \<in> set ks" and "reverse_keys rpk = []"
  obtains c r t where "merge_fingerprints_from_source_types uuid n rpk kl bs cs = Return (c, r @ t)"
    and "list_all (fp_keyed P N False) r" and "list_all (fp_keyed P N' False) t"
proof -
  consider "cs = []" | "cs \<noteq> []" "bs = []" | "cs \<noteq> []" "bs \<noteq> []" by blast
  then show ?thesis
  proof cases
    case 1
    then show ?thesis
      using that [of 0 bs "[]"] assms(1) by (simp add: merge_fingerprints_from_source_types_def)
  next
    case 2
    then show ?thesis
      using that [of 0 "[]" cs] assms(2) by (simp add: merge_fingerprints_from_source_types_def)
  next
    case 3
    from merge_by_keys_ok [OF assms(3,4,6,1,2,5), of uuid n 0] obtain c r t where
      "merge_by_keys uuid n rpk kl (0, bs, cs) = Return (c, r, t)"
      "list_all (fp_keyed P N False) r" "list_all (fp_keyed P N' False) t" by blast
    with 3 that [of c r t] show ?thesis by (simp add: merge_fingerprints_from_source_types_def)
  qed
qed

section \<open>Samples\<close>

definition sample_system :: "string \<Rightarrow> (string \<times> pyval) list \<Rightarrow> fingerprint" where
  "sample_system src facts =
     [(META_DATA_KEY, PDict (map (\<lambda>(k, _). (k, PDict
        [(''source_type'', PStr src), (''source_name'', PStr src), (''has_sudo'', PBool False)])) facts)),
      (SOURCES_KEY, PDict [(src, PDict [])]), (ENTITLEMENTS_KEY, PList []), (PRODUCTS_KEY, PList [])] @ facts"

definition sample_uuids :: "nat \<Rightarrow> string" where
  "sample_uuids n = ''id-'' @ show_nat n"

section \<open>Properties\<close>

text \<open>
  C4. De-duplicating a list of well-formed fingerprints by identifiers that are texts or missing never
  fails: the results are well-formed, no source is lost, and for every one of the identifying keys
  no two results share a value, although a later key merges fingerprints again.
\<close>

theorem dedup_unique_ids:
  assumes "list_all (fp_ok names g) fps" and "list_all plain_key ids"
    and "list_all (\<lambda>fp. list_all (\<lambda>k. scalar (dgetn fp k)) ids) fps"
  shows "returns (\<lambda>r. list_all (fp_ok names g) r \<and> all_sources r = all_sources fps \<and>
      list_all (\<lambda>k. distinct (filter truthy (map (\<lambda>fp. dgetn fp k) r))) ids)
    (remove_duplicate_fingerprints ids False fps)"
proof -
  let ?P = "\<lambda>k v. k \<in> set ids \<longrightarrow> scalar v"
  have "list_all (fp_keyed ?P names g) fps"
    using assms(1,3) by (simp add: list_all_iff fp_keyed_def)
  moreover have "\<forall>k \<in> set ids. plain_key k \<and> (\<forall>v. ?P k v \<longrightarrow> scalar v)"
    using assms(2) by (simp add: list_all_iff)
  ultimately obtain r where r: "remove_duplicate_fingerprints ids False fps = Return r" "list_all (fp_keyed ?P names g) r"
    "\<Union> (source_keys ` set r) = \<Union> (source_keys ` set fps)"
    "list_all (\<lambda>k. distinct (filter truthy (map (\<lambda>f. dgetn f k) r))) ids"
    using remove_duplicates_keyed by blast
  have "list_all (fp_ok names g) r" using r(2) by (simp add: list_all_iff fp_keyed_def)
  with r show ?thesis by (simp add: all_sources_def)
qed

theorem dedup_unique_ids_witness:
  "returns (\<lambda>r. all_sources r = {''a'', ''b'', ''c''} \<and>
      distinct (filter truthy (map (\<lambda>fp. dgetn fp ''bios_uuid'') r)))
    (remove_duplicate_fingerprints [''bios_uuid''] False
      [sample_system ''a'' [(''bios_uuid'', PStr ''1'')], sample_system ''b'' [(''bios_uuid'', PStr ''1'')],
       sample_system ''c'' [(''bios_uuid'', PNone)]])"
proof -
  let ?fps = "[sample_system ''a'' [(''bios_uuid'', PStr ''1'')], sample_system ''b'' [(''bios_uuid'', PStr ''1'')],
       sample_system ''c'' [(''bios_uuid'', PNone)]]"
  have "list_all (fp_ok [] False) ?fps" "list_all plain_key [''bios_uuid'']"
    "list_all (\<lambda>fp. list_all (\<lambda>k. scalar (dgetn fp k)) [''bios_uuid'']) ?fps" "all_sources ?fps = {''a'', ''b'', ''c''}"
    by code_simp+
  with dedup_unique_ids [of "[]" False ?fps "[''bios_uuid'']"] show ?thesis
    by (auto simp: returns_conv)
qed

text \<open>
  C25. Merging two lists by a pair of keys loses no source when, in each list, no two fingerprints
  share a value under the key of that list: every source of an input is in one of the two results,
  the merged and the unmatched fingerprints, which are well-formed and free of internal ids.
\<close>

theorem merge_lists_keep_sources:
  assumes "list_all (fp_ok names False) base_list" and "list_all (fp_ok names' False) candidate_list"
    and "set names' \<subseteq> set names" and "list_all (\<lambda>k. plain_key k \<and> k \<noteq> GLOBAL_ID_KEY) [base_key, candidate_key]"
    and "list_all (\<lambda>fp. indexable (dgetn fp base_key) \<and> indexable (dgetn fp candidate_key)) (base_list @ candidate_list)"
    and "disjoint_keys base_key base_list" and "disjoint_keys candidate_key candidate_list"
  shows "returns (\<lambda>(_, result, unmatched). list_all (fp_ok names False) result \<and> list_all (fp_ok names' False) unmatched \<and>
      all_sources (result @ unmatched) = all_sources (base_list @ candidate_list))
    (merge_matching_fingerprints uuid n No_keys base_key base_list candidate_key candidate_list)"
proof -
  let ?P = "\<lambda>k v. (k \<in> {base_key, candidate_key} \<longrightarrow> indexable v) \<and> (k = GLOBAL_ID_KEY \<longrightarrow> v = PNone \<or> is_str v)"
  have gid: "dgetn fp GLOBAL_ID_KEY = PNone" if "fp_ok N False fp" for N fp
    using fp_ok_rest(9) [OF that] by (simp add: has_key_map_of)
  have l: "list_all (fp_keyed ?P names False) base_list" "list_all (fp_keyed ?P names' False) candidate_list"
    using assms(1,2,5) by (auto simp: list_all_iff fp_keyed_def dest: gid)
  have m: "matchable [base_key, candidate_key] ?P"
    using assms(4) by (auto simp: matchable_def is_str_conv)
  have k: "base_key \<in> set [base_key, candidate_key]" "candidate_key \<in> set [base_key, candidate_key]"
    "reverse_keys No_keys = []"
    by simp_all
  obtain c r t where r: "merge_matching_fingerprints uuid n No_keys base_key base_list candidate_key candidate_list = Return (c, r, t)"
    "list_all (fp_keyed ?P names False) r" "list_all (fp_keyed ?P names' False) t"
    "all_sources (r @ t) = all_sources (base_list @ candidate_list)"
    by (rule merge_matching_ok [OF l assms(3) m k]) (use assms(6,7) in blast)
  have "list_all (fp_ok names False) r" "list_all (fp_ok names' False) t"
    using r(2,3) by (auto simp: list_all_iff fp_keyed_def)
  with r(1,4) show ?thesis by simp
qed

theorem merge_lists_keep_sources_witness:
  "returns (\<lambda>(_, result, unmatched). all_sources (result @ unmatched) = {''n'', ''s''})
    (merge_matching_fingerprints sample_uuids 0 No_keys
      ''mac_addresses'' [sample_system ''n'' [(''mac_addresses'', PList [PStr ''aa'', PStr ''bb''])]]
      ''mac_addresses'' [sample_system ''s'' [(''mac_addresses'', PList [PStr ''bb''])]])"
proof -
  let ?n = "[sample_system ''n'' [(''mac_addresses'', PList [PStr ''aa'', PStr ''bb''])]]"
  let ?s = "[sample_system ''s'' [(''mac_addresses'', PList [PStr ''bb''])]]"
  have "list_all (fp_ok [] False) ?n" "list_all (fp_ok [] False) ?s"
    "list_all (\<lambda>k. plain_key k \<and> k \<noteq> GLOBAL_ID_KEY) [''mac_addresses'', ''mac_addresses'']"
    "list_all (\<lambda>fp. indexable (dgetn fp ''mac_addresses'') \<and> indexable (dgetn fp ''mac_addresses'')) (?n @ ?s)"
    "all_sources (?n @ ?s) = {''n'', ''s''}"
    by code_simp+
  with merge_lists_keep_sources [of "[]" ?n "[]" ?s "''mac_addresses''" "''mac_addresses''" sample_uuids 0]
  show ?thesis by (auto simp: returns_conv)
qed



end
