(* ===== verification/Fingerprint_Facts.thy ===== *)
theory Fingerprint_Facts
  imports Fingerprint_Dedup
begin

text \<open>
  From the raw facts of one system to its fingerprint: the functions \<open>_process_..._fact\<close> of
  \<open>fingerprinter/runner.py\<close> for the six kinds of sources, and the helpers that add facts,
  entitlements and products.

  A source and a raw fact are dicts. \<open>fact_value\<close> and \<open>fact_formatter\<close> of
  \<open>_add_fact_to_fingerprint\<close> are options, \<open>None\<close> standing for an argument that is not given. A
  function that adds many facts one after the other is a loop over the list of its calls.
\<close>

section \<open>Adding facts\<close>

type_synonym formatter = "pyval \<Rightarrow> pyval res"

definition add_fact_to_fingerprint ::
  "pydict \<Rightarrow> string \<Rightarrow> pydict \<Rightarrow> string \<Rightarrow> pyval option \<Rightarrow> formatter option \<Rightarrow> fingerprint \<Rightarrow> fingerprint res"
where
  "add_fact_to_fingerprint source raw_fact_key raw_fact fingerprint_key fact_value fact_formatter fingerprint =
     (if fact_value = None \<and> fact_formatter = None then Raise AssertionError
      else if fact_value \<noteq> None \<and> fact_formatter \<noteq> None then Raise AssertionError
      else
        bind_res (deepget (PDict raw_fact) raw_fact_key) (\<lambda>raw_fact_value.
        bind_res (case fact_value of
                    Some v \<Rightarrow> Return v
                  | None \<Rightarrow> (case fact_formatter of Some f \<Rightarrow> f raw_fact_value | None \<Rightarrow> Return raw_fact_value))
          (\<lambda>actual_fact_value.
        bind_res (source_metadata source) (\<lambda>md.
        bind_res (ditem fingerprint META_DATA_KEY) (\<lambda>meta.
          (case meta of
             PDict m \<Rightarrow>
               Return (AList.update META_DATA_KEY
                 (PDict (AList.update fingerprint_key
                   (PDict (md @ [(''raw_fact_key'', PStr raw_fact_key),
                                 (''has_sudo'', dget raw_fact ''user_has_sudo'' (PBool False))])) m))
                 (AList.update fingerprint_key actual_fact_value fingerprint))
           | _ \<Rightarrow> Raise TypeError))))))"

text \<open>One call: the raw fact key, the fingerprint key, the value and the formatter.\<close>

type_synonym fact_call = "string \<times> string \<times> pyval option \<times> formatter option"

definition add_facts :: "pydict \<Rightarrow> pydict \<Rightarrow> fact_call list \<Rightarrow> fingerprint \<Rightarrow> fingerprint res" where
  "add_facts source raw_fact =
     fold_res (\<lambda>(raw_key, key, v, f). add_fact_to_fingerprint source raw_key raw_fact key v f)"

definition pure :: "(pyval \<Rightarrow> pyval) \<Rightarrow> formatter" where
  "pure f v = Return (f v)"

definition add_products_to_fingerprint :: "pydict \<Rightarrow> pydict \<Rightarrow> fingerprint \<Rightarrow> fingerprint res" where
  "add_products_to_fingerprint source raw_fact fingerprint =
     bind_res (detect_jboss_eap source raw_fact) (\<lambda>eap.
     bind_res (detect_jboss_fuse source raw_fact) (\<lambda>fuse.
     bind_res (detect_jboss_ws source raw_fact) (\<lambda>jws.
       Return (AList.update PRODUCTS_KEY (PList [PDict eap, PDict fuse, PDict jws]) fingerprint))))"

text \<open>The entitlement of a fingerprint from a raw one, if it has a name or an id.\<close>

definition fingerprint_entitlement :: "pydict \<Rightarrow> string \<Rightarrow> pyval \<Rightarrow> pyval list res" where
  "fingerprint_entitlement source raw_fact_key entitlement =
     bind_res (vget entitlement ''name'' PNone) (\<lambda>name.
     bind_res (vget entitlement ''entitlement_id'' PNone) (\<lambda>i.
       let f_ent = (if truthy name then [(''name'', name)] else []) @
                   (if truthy i then [(''entitlement_id'', i)] else [])
       in if f_ent = [] then Return []
          else bind_res (source_metadata source) (\<lambda>md.
            Return [PDict (f_ent @ [(META_DATA_KEY, PDict (md @ [(''raw_fact_key'', PStr raw_fact_key)]))])])))"

definition add_entitlements_to_fingerprint ::
  "pydict \<Rightarrow> string \<Rightarrow> pydict \<Rightarrow> fingerprint \<Rightarrow> fingerprint res" where
  "add_entitlements_to_fingerprint source raw_fact_key raw_fact fingerprint =
     (case dgetn raw_fact raw_fact_key of
        PList xs \<Rightarrow>
          bind_res (map_res (fingerprint_entitlement source raw_fact_key) xs) (\<lambda>ess.
            Return (AList.update ENTITLEMENTS_KEY (PList (concat ess)) fingerprint))
      | _ \<Rightarrow> Return (AList.update ENTITLEMENTS_KEY (PList []) fingerprint))"

section \<open>Values computed from raw facts\<close>

fun first_date :: "string \<Rightarrow> string list \<Rightarrow> pyval option" where
  "first_date s [] = None"
| "first_date s (pattern # patterns) =
     (case strptime_date s pattern of Some v \<Rightarrow> Some v | None \<Rightarrow> first_date s patterns)"

text \<open>The message about a date that cannot be parsed reads two keys of the source.\<close>

definition multi_format_dateparse :: "pyval \<Rightarrow> pyval \<Rightarrow> string list \<Rightarrow> pyval res" where
  "multi_format_dateparse source date_value patterns =
     (if truthy date_value then
        bind_res (strip_suffix_value date_value '' UTC'') (\<lambda>raw_date_value.
          (case first_date raw_date_value patterns of
             Some v \<Rightarrow> Return v
           | None \<Rightarrow>
               bind_res (vitem source ''source_type'') (\<lambda>_.
               bind_res (vitem source ''source_name'') (\<lambda>_. Return PNone))))
      else Return PNone)"

definition VIRTUALIZED :: pyval where "VIRTUALIZED = PStr ''virtualized''"
definition BARE_METAL :: pyval where "BARE_METAL = PStr ''bare_metal''"
definition HYPERVISOR :: pyval where "HYPERVISOR = PStr ''hypervisor''"
definition UNKNOWN_TYPE :: pyval where "UNKNOWN_TYPE = PStr ''unknown''"

definition fingerprint_network_infrastructure_type :: "pydict \<Rightarrow> (string \<times> pyval) res" where
  "fingerprint_network_infrastructure_type raw_fact =
     bind_res (deepget (PDict raw_fact) ''virt_what__value'') (\<lambda>virt_what.
     bind_res (deepget (PDict raw_fact) ''hostnamectl__value__chassis'') (\<lambda>hostnamectl_chassis.
       Return
         (if truthy virt_what then (''virt_what'', VIRTUALIZED)
          else if truthy (dget raw_fact ''subman_virt_is_guest'' (PBool False))
            then (''subman_virt_is_guest'', VIRTUALIZED)
          else if hostnamectl_chassis \<in> {PStr ''vm'', PStr ''container''} then (''hostnamectl'', VIRTUALIZED)
          else if truthy hostnamectl_chassis then (''hostnamectl'', BARE_METAL)
          else (''virt_what'', UNKNOWN_TYPE))))"

definition strip_chars :: "string \<Rightarrow> string \<Rightarrow> string" where
  "strip_chars cs s = rev (dropWhile (\<lambda>c. c \<in> set cs) (rev (dropWhile (\<lambda>c. c \<in> set cs) s)))"

fun format_cert :: "pyval \<Rightarrow> int res" where
  "format_cert (PStr s) = py_int (PStr (strip_chars ''.pem'' s))"
| "format_cert _ = Raise AttributeError"

definition format_certs :: "pyval \<Rightarrow> int list" where
  "format_certs redhat_certs =
     (case bind_res (py_iter redhat_certs) (\<lambda>cs. map_res format_cert (filter truthy cs)) of
        Return is \<Rightarrow> is
      | Raise _ \<Rightarrow> [])"

section \<open>Network\<close>

definition network_calls :: "pyval \<Rightarrow> fact_call list" where
  "network_calls ifconfig_ip_addresses =
     [(''uname_hostname'', ''name'', None, Some (pure str_or_none)),
      (''uname_processor'', ''architecture'', None, Some (pure str_or_none)),
      (''redhat_packages_gpg_num_rh_packages'', ''redhat_package_count'', None, Some int_or_none),
      (''redhat_packages_certs'', ''redhat_certs'', None, Some (pure str_or_none)),
      (''redhat_packages_gpg_is_redhat'', ''is_redhat'', None, Some (pure convert_to_bool_or_none)),
      (''etc_machine_id'', ''etc_machine_id'', None, Some (pure str_or_none)),
      (''etc_release_name'', ''os_name'', None, Some (pure str_or_none)),
      (''etc_release_version'', ''os_version'', None, Some (pure str_or_none)),
      (''etc_release_release'', ''os_release'', None, Some (pure str_or_none)),
      (''installed_products'', ''installed_products'', None, Some (pure list_of_dicts)),
      (if ifconfig_ip_addresses \<noteq> PNone then ''ifconfig_ip_addresses'' else ''ip_address_show_ipv4'',
       ''ip_addresses'', None, Some (pure list_or_none)),
      (''cpu_count'', ''cpu_count'', None, Some int_or_none),
      (''dmi_system_uuid'', ''bios_uuid'', None, Some (pure str_or_none)),
      (''subscription_manager_id'', ''subscription_manager_id'', None, Some (pure str_or_none)),
      (''cpu_socket_count'', ''cpu_socket_count'', None, Some int_or_none),
      (''cpu_core_count'', ''cpu_core_count'', None, Some float_or_none),
      (''cpu_core_per_socket'', ''cpu_core_per_socket'', None, Some int_or_none),
      (''cpu_hyperthreading'', ''cpu_hyperthreading'', None, Some (pure convert_to_bool_or_none)),
      (''date_machine_id'', ''date_machine_id'', None, Some (pure str_or_none)),
      (''date_anaconda_log'', ''date_anaconda_log'', None, Some (pure str_or_none)),
      (''date_filesystem_create'', ''date_filesystem_create'', None, Some (pure str_or_none)),
      (''insights_client_id'', ''insights_client_id'', None, Some (pure str_or_none)),
      (''cloud_provider'', ''cloud_provider'', None, Some (pure str_or_none)),
      (''system_user_count'', ''system_user_count'', None, Some int_or_none),
      (''system_purpose_json'', ''system_purpose'', None, Some (pure dict_or_none)),
      (''system_purpose_json__role'', ''system_role'', None, Some (pure str_or_none)),
      (''system_purpose_json__addons'', ''system_addons'', None, Some (pure str_or_none)),
      (''system_purpose_json__service_level_agreement'', ''system_service_level_agreement'',
       None, Some (pure str_or_none)),
      (''system_purpose_json__usage'', ''system_usage_type'', None, Some (pure str_or_none)),
      (''virt_type'', ''virtualized_type'', None, Some (pure str_or_none)),
      (''system_memory_bytes'', ''system_memory_bytes'', None, Some int_or_none)]"

definition process_network_fact :: "pydict \<Rightarrow> pydict \<Rightarrow> fingerprint res" where
  "process_network_fact source raw_fact =
     bind_res (deepget (PDict raw_fact) ''ifconfig_ip_addresses'') (\<lambda>ips.
     bind_res (add_facts source raw_fact (network_calls ips) [(META_DATA_KEY, PDict [])]) (\<lambda>fp1.
     bind_res (deepget (PDict raw_fact) ''ifconfig_mac_addresses'') (\<lambda>macs.
     bind_res (add_fact_to_fingerprint source
         (if macs \<noteq> PNone then ''ifconfig_mac_addresses'' else ''ip_address_show_mac'') raw_fact
         ''mac_addresses'' None (Some format_mac_addresses) fp1) (\<lambda>fp2.
     bind_res (if truthy (dgetn raw_fact ''connection_timestamp'')
               then multi_format_dateparse (PDict source) (dgetn raw_fact ''connection_timestamp'') [''%Y%m%d%H%M%S'']
               else Return PNone) (\<lambda>last_checkin.
     bind_res (add_fact_to_fingerprint source ''connection_timestamp'' raw_fact
         ''system_last_checkin_date'' (Some last_checkin) None fp2) (\<lambda>fp3.
     bind_res (fingerprint_network_infrastructure_type raw_fact) (\<lambda>(raw_fact_key, fact_value).
     bind_res (add_fact_to_fingerprint source raw_fact_key raw_fact
         ''infrastructure_type'' (Some fact_value) None fp3) (\<lambda>fp4.
     bind_res (add_entitlements_to_fingerprint source ''subman_consumed'' raw_fact fp4) (\<lambda>fp5.
       add_products_to_fingerprint source raw_fact fp5)))))))))"

section \<open>vCenter\<close>

definition vcenter_calls :: "pydict \<Rightarrow> fact_call list" where
  "vcenter_calls raw_fact =
     [(if truthy (dgetn raw_fact ''vm.dns_name'') then ''vm.dns_name'' else ''vm.name'',
       ''name'', None, Some (pure str_or_none)),
      (''vm.os'', ''os_release'', None, Some (pure str_or_none)),
      (''vm.os'', ''is_redhat'', None, Some is_redhat_from_vm_os),
      (''vcenter_source'', ''infrastructure_type'', Some VIRTUALIZED, None),
      (''vm.mac_addresses'', ''mac_addresses'', None, Some format_mac_addresses),
      (''vm.ip_addresses'', ''ip_addresses'', None, Some (pure list_or_none)),
      (''vm.cpu_count'', ''cpu_count'', None, Some int_or_none),
      (''uname_processor'', ''architecture'', None, Some (pure str_or_none)),
      (''vm.state'', ''vm_state'', None, Some (pure str_or_none)),
      (''vm.uuid'', ''vm_uuid'', None, Some (pure str_or_none))]"

definition vcenter_host_calls :: "fact_call list" where
  "vcenter_host_calls =
     [(''vm.dns_name'', ''vm_dns_name'', None, Some (pure str_or_none)),
      (''vm.host.name'', ''virtual_host_name'', None, Some (pure str_or_none)),
      (''vm.host.uuid'', ''virtual_host_uuid'', None, Some (pure str_or_none)),
      (''vm.host.cpu_count'', ''vm_host_socket_count'', None, Some int_or_none),
      (''vm.host.cpu_cores'', ''vm_host_core_count'', None, Some int_or_none),
      (''vm.datacenter'', ''vm_datacenter'', None, Some (pure str_or_none)),
      (''vm.cluster'', ''vm_cluster'', None, Some (pure str_or_none)),
      (''vm.memory_size'', ''system_memory_bytes'', None, Some gigabytes_to_bytes)]"

definition process_vcenter_fact :: "pydict \<Rightarrow> pydict \<Rightarrow> fingerprint res" where
  "process_vcenter_fact source raw_fact =
     bind_res (add_facts source raw_fact (vcenter_calls raw_fact) [(META_DATA_KEY, PDict [])]) (\<lambda>fp1.
     bind_res (if truthy (dgetn raw_fact ''vm.last_check_in'')
               then multi_format_dateparse (PDict source) (dgetn raw_fact ''vm.last_check_in'') [''%Y-%m-%d %H:%M:%S'']
               else Return PNone) (\<lambda>last_checkin.
     bind_res (add_fact_to_fingerprint source ''vm.last_check_in'' raw_fact
         ''system_last_checkin_date'' (Some last_checkin) None fp1) (\<lambda>fp2.
     bind_res (add_facts source raw_fact vcenter_host_calls fp2) (\<lambda>fp3.
       Return (AList.update PRODUCTS_KEY (PList []) (AList.update ENTITLEMENTS_KEY (PList []) fp3))))))"

section \<open>Satellite\<close>

definition rhel_versions :: "(string \<times> string) list" where
  "rhel_versions =
     [(''4Server'', ''Red Hat Enterprise Linux 4 Server''), (''5Server'', ''Red Hat Enterprise Linux 5 Server''),
      (''6Server'', ''Red Hat Enterprise Linux 6 Server''), (''7Server'', ''Red Hat Enterprise Linux 7 Server''),
      (''8Server'', ''Red Hat Enterprise Linux 8 Server'')]"

text \<open>\<open>satellite_os_release in rhel_versions\<close> and the lookup.\<close>

fun rhel_version_of :: "pyval \<Rightarrow> string option res" where
  "rhel_version_of (PStr s) = Return (map_of rhel_versions s)"
| "rhel_version_of (PList _) = Raise TypeError"
| "rhel_version_of (PDict _) = Raise TypeError"
| "rhel_version_of _ = Return None"

text \<open>The raw fact behind \<open>is_redhat\<close>, its value and the release when it is a known one.\<close>

definition satellite_redhat :: "pydict \<Rightarrow> (string \<times> bool \<times> string option) res" where
  "satellite_redhat raw_fact =
     (let satellite_os_name = default_getter raw_fact ''os_name'' (PStr '''') in
      if \<not> truthy satellite_os_name then
        bind_res (rhel_version_of (dget raw_fact ''os_release'' (PStr ''''))) (\<lambda>rhel_version.
          Return (''os_release'', rhel_version \<noteq> None, rhel_version))
      else
        (case satellite_os_name of
           PStr s \<Rightarrow>
             Return (''os_name'', filter (\<lambda>c. c \<noteq> CHR '' '') (py_lower s)
               \<in> {''rhel'', ''redhat'', ''redhatenterpriselinux''}, None)
         | _ \<Rightarrow> Raise AttributeError))"

definition virt_who_name :: "string \<Rightarrow> bool" where
  "virt_who_name name \<longleftrightarrow> startswith name ''virt-who-'' \<and>
     list_ex (\<lambda>n. endswith name (''-'' @ show_nat n)) [1..<10]"

definition satellite_infrastructure :: "pydict \<Rightarrow> (string \<times> pyval) res" where
  "satellite_infrastructure raw_fact =
     (let is_virtualized = default_getter raw_fact ''is_virtualized'' (PStr '''');
          infrastructure_type =
            (if truthy is_virtualized then VIRTUALIZED
             else if is_virtualized = PBool False then BARE_METAL
             else UNKNOWN_TYPE)
      in case default_getter raw_fact ''hostname'' (PStr '''') of
           PStr name \<Rightarrow>
             Return (if virt_who_name name then (''hostname'', HYPERVISOR)
                     else (''is_virtualized'', infrastructure_type))
         | _ \<Rightarrow> Raise AttributeError)"

definition satellite_calls :: "fact_call list" where
  "satellite_calls =
     [(''os_version'', ''os_version'', None, Some (pure str_or_none)),
      (''mac_addresses'', ''mac_addresses'', None, Some format_mac_addresses),
      (''ip_addresses'', ''ip_addresses'', None, Some (pure list_or_none)),
      (''cores'', ''cpu_count'', None, Some int_or_none),
      (''architecture'', ''architecture'', None, Some (pure str_or_none)),
      (''uuid'', ''subscription_manager_id'', None, Some (pure str_or_none)),
      (''virt_type'', ''virtualized_type'', None, Some (pure str_or_none)),
      (''virtual_host_name'', ''virtual_host_name'', None, Some (pure str_or_none)),
      (''virtual_host_uuid'', ''virtual_host_uuid'', None, Some (pure str_or_none))]"

definition process_satellite_fact :: "pydict \<Rightarrow> pydict \<Rightarrow> fingerprint res" where
  "process_satellite_fact source raw_fact =
     bind_res (add_facts source raw_fact
         [(''hostname'', ''name'', None, Some (pure str_or_none)),
          (''os_name'', ''os_name'', None, Some (pure str_or_none))] [(META_DATA_KEY, PDict [])]) (\<lambda>fp1.
     bind_res (satellite_redhat raw_fact) (\<lambda>(redhat_key, is_redhat, rhel_version).
     bind_res (add_facts source raw_fact
         ([(redhat_key, ''is_redhat'', Some (PBool is_redhat), None),
           (case rhel_version of
              Some v \<Rightarrow> (''os_release'', ''os_release'', Some (PStr v), None)
            | None \<Rightarrow> (''os_release'', ''os_release'', None, Some (pure str_or_none)))] @ satellite_calls) fp1) (\<lambda>fp2.
     bind_res (satellite_infrastructure raw_fact) (\<lambda>(metadata_source, infrastructure_type).
     bind_res (add_facts source raw_fact
         [(metadata_source, ''infrastructure_type'', Some infrastructure_type, None),
          (''cores'', ''cpu_core_count'', None, Some float_or_none),
          (''num_sockets'', ''cpu_socket_count'', None, Some int_or_none)] fp2) (\<lambda>fp3.
     bind_res (let reg_time = dgetn raw_fact ''registration_time'' in
               if truthy reg_time then bind_res (strip_suffix_value reg_time '' UTC'') (\<lambda>s. Return (PStr s))
               else Return reg_time) (\<lambda>reg_time.
     bind_res (add_fact_to_fingerprint source ''registration_time'' raw_fact
         ''registration_time'' (Some reg_time) None fp3) (\<lambda>fp4.
     bind_res (let last_checkin = dgetn raw_fact ''last_checkin_time'' in
               if truthy last_checkin
               then multi_format_dateparse (PDict source) last_checkin [''%Y-%m-%d %H:%M:%S'', ''%Y-%m-%d %H:%M:%S %z'']
               else Return last_checkin) (\<lambda>last_checkin.
     bind_res (add_fact_to_fingerprint source ''last_checkin_time'' raw_fact
         ''system_last_checkin_date'' (Some last_checkin) None fp4) (\<lambda>fp5.
     bind_res (add_entitlements_to_fingerprint source ''entitlements'' raw_fact fp5) (\<lambda>fp6.
       add_products_to_fingerprint source raw_fact fp6))))))))))"

section \<open>OpenShift, Ansible and RHACS\<close>

definition bare_fingerprint :: fingerprint where
  "bare_fingerprint = [(META_DATA_KEY, PDict []), (ENTITLEMENTS_KEY, PList []), (PRODUCTS_KEY, PList [])]"

definition process_openshift_fact :: "pydict \<Rightarrow> pydict \<Rightarrow> fingerprint res" where
  "process_openshift_fact source raw_fact =
     add_facts source raw_fact
       [(''node__name'', ''name'', None, Some (pure str_or_none)),
        (''node__capacity__cpu'', ''cpu_count'', None, Some int_or_none),
        (''node__architecture'', ''architecture'', None, Some convert_architecture),
        (''node__machine_id'', ''etc_machine_id'', None, Some (pure str_or_none)),
        (''node__addresses'', ''ip_addresses'', None, Some extract_ip_addresses),
        (''node__creation_timestamp'', ''system_creation_date'', None, Some (pure date_or_none)),
        (''node__cluster_uuid'', ''vm_cluster'', None, Some (pure str_or_none)),
        (''node__labels'', ''system_role'', None, Some infer_node_role)] bare_fingerprint"

definition process_ansible_fact :: "pydict \<Rightarrow> pydict \<Rightarrow> fingerprint res" where
  "process_ansible_fact source raw_fact =
     add_facts source raw_fact
       [(''instance_details__system_name'', ''name'', None, Some (pure str_or_none)),
        (''instance_details__version'', ''os_version'', None, Some (pure str_or_none))] bare_fingerprint"

definition process_rhacs_fact :: "pydict \<Rightarrow> pydict \<Rightarrow> fingerprint res" where
  "process_rhacs_fact source raw_fact =
     add_facts source raw_fact [(''N/A'', ''name'', Some (PStr ''collected-from-rhacs''), None)] bare_fingerprint"

section \<open>Drafts of fingerprints\<close>

text \<open>
  The keys systems are identified by and the dates they are described by, and what they hold: an
  identifier is a text or missing, a date a text or empty; the MAC addresses are whatever the raw fact is, or its texts in lower case when it is a list.
\<close>

definition id_keys :: "string list" where
  "id_keys = [''subscription_manager_id'', ''bios_uuid'', ''vm_uuid'', GLOBAL_ID_KEY]"

definition date_keys :: "string list" where
  "date_keys = [''date_filesystem_create'', ''date_anaconda_log'', ''registration_time'', ''date_machine_id'',
     ''creation_timestamp'']"

definition MAC_KEY :: string where "MAC_KEY = ''mac_addresses''"

definition fact_value_ok :: "string \<Rightarrow> pyval \<Rightarrow> bool" where
  "fact_value_ok k v \<longleftrightarrow> (k \<in> set id_keys \<longrightarrow> v = PNone \<or> is_str v) \<and>
     (k \<in> set date_keys \<longrightarrow> \<not> truthy v \<or> is_str v) \<and>
     (k = MAC_KEY \<longrightarrow> is_dict v \<or> indexable v)"

text \<open>A fingerprint under construction: metadata for every fact, no global id.\<close>

definition fp_draft :: "fingerprint \<Rightarrow> bool" where
  "fp_draft fp \<longleftrightarrow> wf_dict fp \<and>
     (\<exists>md. map_of fp META_DATA_KEY = Some (PDict md) \<and> wf_dict md \<and>
        (\<forall>k v. map_of md k = Some v \<longrightarrow> meta_entry v \<and> k \<notin> set special_keys) \<and>
        (\<forall>k. has_key fp k \<and> k \<notin> set special_keys \<longrightarrow> has_key md k)) \<and>
     \<not> has_key fp GLOBAL_ID_KEY \<and> (\<forall>k. plain_key k \<longrightarrow> fact_value_ok k (dgetn fp k))"

definition same_lists :: "fingerprint \<Rightarrow> fingerprint \<Rightarrow> bool" where
  "same_lists fp fp' \<longleftrightarrow> map_of fp' ENTITLEMENTS_KEY = map_of fp ENTITLEMENTS_KEY \<and>
     map_of fp' PRODUCTS_KEY = map_of fp PRODUCTS_KEY"

fun call_ok :: "fact_call \<Rightarrow> bool" where
  "call_ok (raw_key, key, v, f) \<longleftrightarrow> key \<notin> set special_keys \<and>
     (\<forall>w. v = Some w \<longrightarrow> fact_value_ok key w) \<and>
     (\<forall>g x. f = Some g \<longrightarrow> if_returns (fact_value_ok key) (g x))"

lemma fact_value_free:
  "k \<notin> set id_keys \<Longrightarrow> k \<notin> set date_keys \<Longrightarrow> k \<noteq> MAC_KEY \<Longrightarrow> fact_value_ok k v"
  "k \<notin> set id_keys \<Longrightarrow> k \<notin> set date_keys \<Longrightarrow> k \<noteq> MAC_KEY \<Longrightarrow> if_returns (fact_value_ok k) m"
  by (auto simp: fact_value_ok_def intro: if_returns_TrueI)

lemma text_fact: "k \<noteq> MAC_KEY \<Longrightarrow> if_returns (fact_value_ok k) (pure str_or_none v)"
  using str_or_none_cases [of v] by (auto simp: pure_def fact_value_ok_def)

lemma mac_fact: "if_returns (fact_value_ok MAC_KEY) (format_mac_addresses v)"
proof -
  have low: "is_str y" if "lower_item x = Return y" for x y
    using that by (cases x) auto
  have "list_all scalar ys" if "map_res lower_item xs = Return ys" for xs ys
  proof -
    have "is_str y" if "y \<in> set ys" for y
      using map_res_set [OF \<open>map_res lower_item xs = Return ys\<close> that] low by blast
    then show ?thesis by (force simp: list_all_iff is_str_conv)
  qed
  moreover have "MAC_KEY \<notin> set id_keys" "MAC_KEY \<notin> set date_keys"
    by (simp_all add: MAC_KEY_def id_keys_def date_keys_def fp_keys)
  ultimately show ?thesis
    by (cases v) (auto simp: fact_value_ok_def indexable_def if_returns_def res_simps split: res.splits)
qed

lemma source_metadata_entry: "source_metadata s = Return md \<Longrightarrow> meta_entry (PDict (md @ xs))"
  by (auto simp: source_metadata_def res_simps has_key_def)

lemma draft_update:
  assumes "fp_draft fp" and "k \<notin> set special_keys" and "fact_value_ok k v"
    and "map_of fp META_DATA_KEY = Some (PDict m)" and "meta_entry (PDict md)"
  shows "fp_draft (AList.update META_DATA_KEY (PDict (AList.update k (PDict md) m)) (AList.update k v fp))"
proof -
  let ?fp = "AList.update META_DATA_KEY (PDict (AList.update k (PDict md) m)) (AList.update k v fp)"
  from assms(1,4) have m: "wf_dict fp" "wf_dict m" "\<forall>k v. map_of m k = Some v \<longrightarrow> meta_entry v \<and> k \<notin> set special_keys"
    "\<forall>k. has_key fp k \<and> k \<notin> set special_keys \<longrightarrow> has_key m k" "\<not> has_key fp GLOBAL_ID_KEY"
    "\<forall>k. plain_key k \<longrightarrow> fact_value_ok k (dgetn fp k)"
    by (auto simp: fp_draft_def)
  have k: "k \<noteq> META_DATA_KEY" "k \<noteq> GLOBAL_ID_KEY" using assms(2) by (auto simp: special_keys_def)
  have 1: "wf_dict ?fp" "wf_dict (AList.update k (PDict md) m)" using m(1,2) by blast+
  have 2: "map_of ?fp META_DATA_KEY = Some (PDict (AList.update k (PDict md) m))" by (simp add: dict_simps)
  have 3: "\<forall>x v. map_of (AList.update k (PDict md) m) x = Some v \<longrightarrow> meta_entry v \<and> x \<notin> set special_keys"
    using m(3) assms(2,5) by (simp add: dict_simps)
  have 4: "\<forall>x. has_key ?fp x \<and> x \<notin> set special_keys \<longrightarrow> has_key (AList.update k (PDict md) m) x"
    using m(4) special_distinct(2) by (auto simp: dict_simps)
  have 5: "\<not> has_key ?fp GLOBAL_ID_KEY" using m(5) k special_differ by (simp add: dict_simps)
  have 6: "\<forall>x. plain_key x \<longrightarrow> fact_value_ok x (dgetn ?fp x)"
    using m(6) assms(3) by (simp add: dict_simps plain_key_def)
  show ?thesis unfolding fp_draft_def using 1 2 3 4 5 6 by blast
qed

lemma add_fact_draft:
  assumes "fp_draft fp" and "call_ok (raw_key, key, v, f)"
  shows "if_returns (\<lambda>fp'. fp_draft fp' \<and> same_lists fp fp')
    (add_fact_to_fingerprint source raw_key raw_fact key v f fp)"
proof -
  have k: "key \<noteq> META_DATA_KEY" "key \<noteq> ENTITLEMENTS_KEY" "key \<noteq> PRODUCTS_KEY"
    using assms(2) by (auto simp: special_keys_def)
  have val: "if_returns (fact_value_ok key)
      (case v of Some v \<Rightarrow> Return v | None \<Rightarrow> (case f of Some f \<Rightarrow> f x | None \<Rightarrow> Return x))"
    if "\<not> (v = None \<and> f = None)" for x
    using assms(2) that by (auto split: option.splits)
  show ?thesis
  proof (cases "add_fact_to_fingerprint source raw_key raw_fact key v f fp")
    case (Return fp')
    then have given: "\<not> (v = None \<and> f = None)" by (auto simp: add_fact_to_fingerprint_def split: if_splits)
    from assms(1) obtain m where m: "map_of fp META_DATA_KEY = Some (PDict m)"
      by (auto simp: fp_draft_def)
    then have "ditem fp META_DATA_KEY = Return (PDict m)" by (simp add: ditem_Return_iff)
    with Return obtain x w md where
      w: "(case v of Some v \<Rightarrow> Return v | None \<Rightarrow> (case f of Some f \<Rightarrow> f x | None \<Rightarrow> Return x)) = Return w"
      and fp': "fp' = AList.update META_DATA_KEY (PDict (AList.update key (PDict md) m)) (AList.update key w fp)"
      and md: "meta_entry (PDict md)"
      by (auto simp: add_fact_to_fingerprint_def res_simps simp del: meta_entry.simps
          intro: source_metadata_entry split: if_splits)
    have "fp_draft fp'"
      unfolding fp' using draft_update [OF assms(1) _ _ m md] assms(2) val [OF given, of x] w by simp
    moreover have "same_lists fp fp'"
      using k special_differ by (simp add: same_lists_def fp' dict_simps)
    ultimately show ?thesis by (simp add: Return)
  qed simp
qed

lemma add_facts_draft:
  assumes "fp_draft fp" and "list_all call_ok calls"
  shows "if_returns (\<lambda>fp'. fp_draft fp' \<and> same_lists fp fp') (add_facts source raw_fact calls fp)"
  unfolding add_facts_def
proof (rule if_returns_fold)
  fix c s
  assume "c \<in> set calls" and s: "fp_draft s \<and> same_lists fp s"
  with assms(2) have "call_ok c" by (simp add: list_all_iff)
  obtain raw_key key v f where c: "c = (raw_key, key, v, f)" by (metis prod_cases4)
  from \<open>call_ok c\<close> have "if_returns (\<lambda>fp'. fp_draft fp' \<and> same_lists s fp')
      (add_fact_to_fingerprint source raw_key raw_fact key v f s)"
    using s c add_fact_draft by blast
  then show "if_returns (\<lambda>s. fp_draft s \<and> same_lists fp s)
      ((\<lambda>(raw_key, key, v, f). add_fact_to_fingerprint source raw_key raw_fact key v f) c s)"
    unfolding c prod.case by (rule if_returns_mono) (use s in \<open>simp add: same_lists_def\<close>)
qed (use assms(1) in \<open>simp add: same_lists_def\<close>)

section \<open>Every processor builds a well-formed fingerprint\<close>

definition PRODUCT_NAMES :: "string list" where
  "PRODUCT_NAMES = [''JBoss EAP'', ''JBoss Fuse'', ''JBoss Web Server'']"

text \<open>A finished draft: entitlements and products are there, the products with the given names.\<close>

definition fp_system :: "string list \<Rightarrow> fingerprint \<Rightarrow> bool" where
  "fp_system N fp \<longleftrightarrow> fp_draft fp \<and>
     (\<exists>es. map_of fp ENTITLEMENTS_KEY = Some (PList es) \<and> list_all is_dict es) \<and>
     (\<exists>ps. map_of fp PRODUCTS_KEY = Some (PList ps) \<and> list_all (\<lambda>p. product_name p \<noteq> None) ps \<and>
        set (map product_name ps) = Some ` set N)"

lemma draft_start: "fp_draft [(META_DATA_KEY, PDict [])]"
  by (auto simp: fp_draft_def wf_dict_def has_key_def special_keys_def fp_keys plain_key_def fact_value_ok_def
      dget_def indexable_def)

lemma draft_special:
  assumes "fp_draft fp" and "k \<in> {ENTITLEMENTS_KEY, PRODUCTS_KEY}"
  shows "fp_draft (AList.update k v fp)"
proof -
  from assms(1) obtain m where m: "map_of fp META_DATA_KEY = Some (PDict m)" "wf_dict fp" "wf_dict m"
    "\<forall>k v. map_of m k = Some v \<longrightarrow> meta_entry v \<and> k \<notin> set special_keys"
    "\<forall>k. has_key fp k \<and> k \<notin> set special_keys \<longrightarrow> has_key m k" "\<not> has_key fp GLOBAL_ID_KEY"
    "\<forall>k. plain_key k \<longrightarrow> fact_value_ok k (dgetn fp k)"
    by (auto simp: fp_draft_def)
  have k: "k \<in> set special_keys" "k \<noteq> META_DATA_KEY" "k \<noteq> GLOBAL_ID_KEY" "\<not> plain_key k"
    using assms(2) special_differ by (auto simp: special_keys_def plain_key_def)
  have "wf_dict (AList.update k v fp)" using m(2) by blast
  moreover have "map_of (AList.update k v fp) META_DATA_KEY = Some (PDict m)"
    using m(1) k(2) by (simp add: dict_simps)
  moreover have "\<forall>x. has_key (AList.update k v fp) x \<and> x \<notin> set special_keys \<longrightarrow> has_key m x"
    using m(5) k(1) by (auto simp: dict_simps)
  moreover have "\<not> has_key (AList.update k v fp) GLOBAL_ID_KEY" using m(6) k(3) by (simp add: dict_simps)
  moreover have "\<forall>x. plain_key x \<longrightarrow> fact_value_ok x (dgetn (AList.update k v fp) x)"
    using m(7) k(4) by (auto simp: dict_simps)
  ultimately show ?thesis unfolding fp_draft_def using m(3,4) by blast
qed

lemma if_returns_bindI:
  "if_returns Q m \<Longrightarrow> (\<And>x. Q x \<Longrightarrow> if_returns R (f x)) \<Longrightarrow> if_returns R (bind_res m f)"
  by (cases m) simp_all

lemma product_names:
  "if_returns (\<lambda>d. product_name (PDict d) = Some ''JBoss EAP'') (detect_jboss_eap source raw_fact)"
  "if_returns (\<lambda>d. product_name (PDict d) = Some ''JBoss Fuse'') (detect_jboss_fuse source raw_fact)"
  "if_returns (\<lambda>d. product_name (PDict d) = Some ''JBoss Web Server'') (detect_jboss_ws source raw_fact)"
proof -
  show "if_returns (\<lambda>d. product_name (PDict d) = Some ''JBoss EAP'') (detect_jboss_eap source raw_fact)"
    by (auto simp: detect_jboss_eap_def Let_def intro!: if_returns_TrueI)
  have fuse: "product_name (PDict (fuse_product md p vs raw)) = Some ''JBoss Fuse''" for md p vs raw
    by (simp add: fuse_product_def)
  show "if_returns (\<lambda>d. product_name (PDict d) = Some ''JBoss Fuse'') (detect_jboss_fuse source raw_fact)"
    unfolding detect_jboss_fuse_def Let_def
    by (auto simp del: product_name.simps simp: fuse intro!: if_returns_TrueI split: prod.splits)
  show "if_returns (\<lambda>d. product_name (PDict d) = Some ''JBoss Web Server'') (detect_jboss_ws source raw_fact)"
    by (auto simp: detect_jboss_ws_def Let_def intro!: if_returns_TrueI)
qed

lemma add_entitlements_draft:
  assumes "fp_draft fp"
  shows "if_returns (\<lambda>fp'. fp_draft fp' \<and> (\<exists>es. map_of fp' ENTITLEMENTS_KEY = Some (PList es) \<and> list_all is_dict es))
    (add_entitlements_to_fingerprint source raw_key raw_fact fp)"
proof -
  have one: "list_all is_dict es" if "fingerprint_entitlement source raw_key e = Return es" for e es
    using that by (auto simp: fingerprint_entitlement_def res_simps Let_def split: if_splits)
  have many: "list_all is_dict (concat ess)"
    if "map_res (fingerprint_entitlement source raw_key) xs = Return ess" for xs ess
    using map_res_set [OF that] one by (fastforce simp: list_all_iff)
  have upd: "fp_draft (AList.update ENTITLEMENTS_KEY v fp)" for v
    using draft_special [OF assms] by simp
  have stored: "if_returns (\<lambda>fp'. fp_draft fp' \<and> (\<exists>es. map_of fp' ENTITLEMENTS_KEY = Some (PList es) \<and> list_all is_dict es))
      (Return (AList.update ENTITLEMENTS_KEY (PList es) fp))" if "list_all is_dict es" for es
    using that upd by (simp add: dict_simps)
  show ?thesis
  proof (cases "is_list (dgetn raw_fact raw_key)")
    case True
    then obtain xs where xs: "dgetn raw_fact raw_key = PList xs" by (auto simp: is_list_conv)
    have "if_returns (\<lambda>ess. list_all is_dict (concat ess)) (map_res (fingerprint_entitlement source raw_key) xs)"
      using many by (auto simp: if_returns_def split: res.splits)
    then show ?thesis
      unfolding add_entitlements_to_fingerprint_def xs pyval.case by (rule if_returns_bindI) (rule stored)
  next
    case False
    then have "add_entitlements_to_fingerprint source raw_key raw_fact fp =
        Return (AList.update ENTITLEMENTS_KEY (PList []) fp)"
      by (cases "dgetn raw_fact raw_key") (simp_all add: add_entitlements_to_fingerprint_def)
    then show ?thesis using stored [of "[]"] by simp
  qed
qed

lemma add_products_system:
  assumes "fp_draft fp" and "map_of fp ENTITLEMENTS_KEY = Some (PList es)" and "list_all is_dict es"
  shows "if_returns (fp_system PRODUCT_NAMES) (add_products_to_fingerprint source raw_fact fp)"
  unfolding add_products_to_fingerprint_def
proof (rule if_returns_bindI [OF product_names(1)], rule if_returns_bindI [OF product_names(2)],
    rule if_returns_bindI [OF product_names(3)])
  fix a b c :: pydict
  assume n: "product_name (PDict a) = Some ''JBoss EAP''" "product_name (PDict b) = Some ''JBoss Fuse''"
    "product_name (PDict c) = Some ''JBoss Web Server''"
  let ?fp = "AList.update PRODUCTS_KEY (PList [PDict a, PDict b, PDict c]) fp"
  have "fp_draft ?fp" using draft_special [OF assms(1)] by simp
  moreover have "map_of ?fp ENTITLEMENTS_KEY = Some (PList es)"
    using assms(2) special_differ by (simp add: dict_simps)
  moreover have "map_of ?fp PRODUCTS_KEY = Some (PList [PDict a, PDict b, PDict c])" by (simp add: dict_simps)
  moreover have "list_all (\<lambda>p. product_name p \<noteq> None) [PDict a, PDict b, PDict c]"
    "set (map product_name [PDict a, PDict b, PDict c]) = Some ` set PRODUCT_NAMES"
    using n by (simp_all add: PRODUCT_NAMES_def del: product_name.simps)
  ultimately show "if_returns (fp_system PRODUCT_NAMES) (Return ?fp)"
    unfolding fp_system_def if_returns_simps using assms(3) by blast
qed

lemmas call_simps = fact_value_free text_fact id_keys_def date_keys_def MAC_KEY_def special_keys_def fp_keys mac_fact [unfolded MAC_KEY_def]

lemma network_calls_ok: "list_all call_ok (network_calls ips)"
  by (simp add: network_calls_def call_simps)

lemma vcenter_calls_ok: "list_all call_ok (vcenter_calls raw_fact)" "list_all call_ok vcenter_host_calls"
  by (simp_all add: vcenter_calls_def vcenter_host_calls_def call_simps)

lemma satellite_calls_ok: "list_all call_ok satellite_calls"
  by (simp add: satellite_calls_def call_simps)

lemma single_calls_ok:
  "call_ok (r, ''mac_addresses'', None, Some format_mac_addresses)"
  "call_ok (r, ''system_last_checkin_date'', Some v, None)"
  "call_ok (r, ''infrastructure_type'', Some v, None)"
  "\<not> truthy v \<or> is_str v \<Longrightarrow> call_ok (r, ''registration_time'', Some v, None)"
  by (simp_all add: call_simps) (simp add: fact_value_ok_def id_keys_def MAC_KEY_def fp_keys)

text \<open>One call after another on a draft.\<close>

lemma if_returns_skipI: "(\<And>x. if_returns R (f x)) \<Longrightarrow> if_returns R (bind_res m f)"
  by (cases m) simp_all

lemmas next_fact = if_returns_bindI [OF add_fact_draft [OF conjunct1]]

lemmas next_facts = if_returns_bindI [OF add_facts_draft [OF conjunct1]]

lemma network_fact_system: "if_returns (fp_system PRODUCT_NAMES) (process_network_fact source raw_fact)"
  unfolding process_network_fact_def
  by (rule if_returns_skipI, rule if_returns_bindI [OF add_facts_draft [OF draft_start network_calls_ok]],
    rule if_returns_skipI, rule next_fact [OF _ single_calls_ok(1)], assumption,
    rule if_returns_skipI, rule next_fact [OF _ single_calls_ok(2)], assumption,
    rule if_returns_skipI, unfold split_beta, rule next_fact [OF _ single_calls_ok(3)], assumption,
    rule if_returns_bindI [OF add_entitlements_draft [OF conjunct1]], assumption,
    elim conjE exE, rule add_products_system)

lemma satellite_fact_system: "if_returns (fp_system PRODUCT_NAMES) (process_satellite_fact source raw_fact)"
proof -
  have 1: "list_all call_ok [(''hostname'', ''name'', None, Some (pure str_or_none)),
      (''os_name'', ''os_name'', None, Some (pure str_or_none))]"
    by (simp add: call_simps)
  have 2: "list_all call_ok ([(k, ''is_redhat'', Some (PBool b), None),
      (case v of Some v \<Rightarrow> (''os_release'', ''os_release'', Some (PStr v), None)
       | None \<Rightarrow> (''os_release'', ''os_release'', None, Some (pure str_or_none)))] @ satellite_calls)" for k b v
    using satellite_calls_ok by (simp add: call_simps split: option.splits)
  have 3: "list_all call_ok [(k, ''infrastructure_type'', Some t, None),
      (''cores'', ''cpu_core_count'', None, Some float_or_none),
      (''num_sockets'', ''cpu_socket_count'', None, Some int_or_none)]" for k t
    by (simp add: call_simps)
  have reg: "if_returns (\<lambda>v. \<not> truthy v \<or> is_str v)
      (let reg_time = dgetn raw_fact ''registration_time'' in
       if truthy reg_time then bind_res (strip_suffix_value reg_time '' UTC'') (\<lambda>s. Return (PStr s))
       else Return reg_time)"
    by (auto simp: Let_def intro: if_returns_TrueI)
  show ?thesis
    unfolding process_satellite_fact_def
    by (rule if_returns_bindI [OF add_facts_draft [OF draft_start 1]],
      rule if_returns_skipI, unfold split_beta, rule next_facts [OF _ 2], assumption,
      rule if_returns_skipI, rule next_facts [OF _ 3], assumption,
      rule if_returns_bindI [OF reg], rule next_fact [OF _ single_calls_ok(4)], assumption, assumption,
      rule if_returns_skipI, rule next_fact [OF _ single_calls_ok(2)], assumption,
      rule if_returns_bindI [OF add_entitlements_draft [OF conjunct1]], assumption,
      elim conjE exE, rule add_products_system)
qed

lemma system_no_products:
  assumes "fp_draft fp" and "map_of fp ENTITLEMENTS_KEY = Some (PList [])" and "map_of fp PRODUCTS_KEY = Some (PList [])"
  shows "fp_system [] fp"
  using assms by (simp add: fp_system_def)

lemma vcenter_fact_system: "if_returns (fp_system []) (process_vcenter_fact source raw_fact)"
proof -
  have done_fp: "fp_system [] (AList.update PRODUCTS_KEY (PList []) (AList.update ENTITLEMENTS_KEY (PList []) fp))"
    if "fp_draft fp" for fp
  proof (rule system_no_products)
    show "fp_draft (AList.update PRODUCTS_KEY (PList []) (AList.update ENTITLEMENTS_KEY (PList []) fp))"
      using draft_special [OF draft_special [OF that]] by simp
  qed (use special_differ in \<open>simp_all add: dict_simps\<close>)
  show ?thesis
    unfolding process_vcenter_fact_def
    by (rule if_returns_bindI [OF add_facts_draft [OF draft_start vcenter_calls_ok(1)]],
      rule if_returns_skipI, rule next_fact [OF _ single_calls_ok(2)], assumption,
      rule next_facts [OF _ vcenter_calls_ok(2)], assumption, simp add: done_fp)
qed

lemma bare_draft: "fp_draft bare_fingerprint" "map_of bare_fingerprint ENTITLEMENTS_KEY = Some (PList [])"
  "map_of bare_fingerprint PRODUCTS_KEY = Some (PList [])"
proof -
  have bare: "bare_fingerprint = AList.update PRODUCTS_KEY (PList [])
      (AList.update ENTITLEMENTS_KEY (PList []) [(META_DATA_KEY, PDict [])])"
    by (simp add: bare_fingerprint_def fp_keys)
  show "fp_draft bare_fingerprint"
    unfolding bare by (intro draft_special draft_start) simp_all
qed (simp_all add: bare_fingerprint_def fp_keys)

lemma bare_system:
  assumes "list_all call_ok calls"
  shows "if_returns (fp_system []) (add_facts source raw_fact calls bare_fingerprint)"
  by (rule if_returns_mono [OF add_facts_draft [OF bare_draft(1) assms]])
    (use bare_draft in \<open>simp add: same_lists_def system_no_products\<close>)

lemma other_fact_system:
  "if_returns (fp_system []) (process_openshift_fact source raw_fact)"
  "if_returns (fp_system []) (process_ansible_fact source raw_fact)"
  "if_returns (fp_system []) (process_rhacs_fact source raw_fact)"
  unfolding process_openshift_fact_def process_ansible_fact_def process_rhacs_fact_def
  by (rule bare_system, simp add: call_simps)+

section \<open>Certificates\<close>

lemma strip_pem:
  assumes "\<forall>c \<in> set s. c \<notin> set ''.pem''"
  shows "strip_chars ''.pem'' (s @ ''.pem'') = s"
proof -
  have keep: "dropWhile (\<lambda>c. c \<in> set ''.pem'') (s' @ r) = s' @ r"
    if "s' \<noteq> []" "\<forall>c \<in> set s'. c \<notin> set ''.pem''" for s' r
    using that by (cases s') auto
  show ?thesis
  proof (cases "s = []")
    case True
    then show ?thesis by (simp add: strip_chars_def)
  next
    case False
    have "dropWhile (\<lambda>c. c \<in> set ''.pem'') (s @ ''.pem'') = s @ ''.pem''"
      using keep [OF False assms] .
    moreover have "dropWhile (\<lambda>c. c \<in> set ''.pem'') (rev (s @ ''.pem'')) = rev s"
      using keep [of "rev s" "[]"] False assms by simp
    ultimately show ?thesis unfolding strip_chars_def by simp
  qed
qed

lemma format_cert_pem: "format_cert (PStr (show_nat n @ ''.pem'')) = Return (int n)"
proof -
  have "digit_val c = None" if "c \<in> set ''.pem''" for c
    using that by (auto simp: digit_val_def code_def)
  moreover have "digit_val c \<noteq> None" if "c \<in> set (show_nat n)" for c
    using show_nat_digits [OF that] by auto
  ultimately have "\<forall>c \<in> set (show_nat n). c \<notin> set ''.pem''" by metis
  from strip_pem [OF this] have "strip_chars ''.pem'' (show_nat n @ ''.pem'') = show_int (int n)"
    by (simp add: show_int_def)
  then show ?thesis by (simp add: parse_int_show_int)
qed

section \<open>Properties\<close>

text \<open>
  C29. \<open>format_certs\<close> reads back the numbers of certificates from the names of their files, for every
  list of numbers, and skips empty names.
\<close>

theorem format_certs_roundtrip:
  "format_certs (PList (map (\<lambda>n. PStr (show_nat n @ ''.pem'')) ns @ [PStr []])) = map int ns"
proof -
  have "filter truthy (map (\<lambda>n. PStr (show_nat n @ ''.pem'')) ns) = map (\<lambda>n. PStr (show_nat n @ ''.pem'')) ns"
    by (induction ns) simp_all
  moreover have "map_res format_cert (map (\<lambda>n. PStr (show_nat n @ ''.pem'')) ns) = Return (map int ns)"
    by (induction ns) (simp_all add: format_cert_pem del: format_cert.simps)
  ultimately show ?thesis by (simp add: format_certs_def)
qed

text \<open>
  One value that \<open>int_or_none\<close> cannot convert aborts the processing of a system, and with it the
  fingerprints of the whole report: a CPU count \<open>"inf"\<close> of an OpenShift node raises an
  \<open>OverflowError\<close>, whatever the other facts of the node are.
\<close>

lemma infinite_cpu_count_aborts:
  assumes "source_metadata source = Return md"
    and "dgetn raw_fact ''node'' = PDict node" and "dgetn node ''capacity'' = PDict [(''cpu'', PStr ''inf'')]"
  shows "process_openshift_fact source raw_fact = Raise OverflowError"
proof -
  have inf: "int_or_none (PStr ''inf'') = Raise OverflowError" by code_simp
  have path: "split_on ''__'' ''node__capacity__cpu'' = [''node'', ''capacity'', ''cpu'']" by code_simp
  have cpu: "deepget (PDict raw_fact) ''node__capacity__cpu'' = Return (PStr ''inf'')"
    using assms(2,3) by (simp add: deepget_def path)
  obtain x where x: "deepget (PDict raw_fact) ''node__name'' = Return x" using deepget_dict_total by blast
  have meta: "ditem bare_fingerprint META_DATA_KEY = Return (PDict [])"
    by (simp add: bare_fingerprint_def ditem_def)
  show ?thesis
    by (simp add: process_openshift_fact_def add_facts_def add_fact_to_fingerprint_def x pure_def assms(1) meta cpu inf)
qed

end
