(* ===== verification/Fingerprint_Engine.thy ===== *)
theory Fingerprint_Engine
  imports Fingerprint_Facts
begin

text \<open>
  The fingerprinting engine: from the sources of a report, each with the raw facts of its systems,
  to the final list of fingerprints. It models \<open>_process_source\<close>, \<open>_process_sources\<close>,
  \<open>_post_process_merged_fingerprints\<close> and \<open>_compute_system_creation_time\<close> of
  \<open>fingerprinter/runner.py\<close>.

  Each of the two merges draws its global ids from a supply of its own, \<open>uuid 0\<close> and \<open>uuid 1\<close>. The
  map of fingerprints per kind of source is an association list with the six kinds.
\<close>

section \<open>One source\<close>

definition process_facts_for_datasource :: "pyval \<Rightarrow> pydict \<Rightarrow> pydict \<Rightarrow> fingerprint res" where
  "process_facts_for_datasource data_source source raw_fact =
     (let name = py_str data_source in
      if name = ''network'' then process_network_fact source raw_fact
      else if name = ''vcenter'' then process_vcenter_fact source raw_fact
      else if name = ''satellite'' then process_satellite_fact source raw_fact
      else if name = ''openshift'' then process_openshift_fact source raw_fact
      else if name = ''ansible'' then process_ansible_fact source raw_fact
      else if name = ''rhacs'' then process_rhacs_fact source raw_fact
      else Raise NotImplementedError)"

text \<open>The fingerprints of one element of \<open>source["facts"]\<close>, at most one.\<close>

definition process_fact :: "pydict \<Rightarrow> pyval \<Rightarrow> fingerprint list res" where
  "process_fact source raw =
     (case raw of
        PDict raw_fact \<Rightarrow>
          (let server_id = dgetn source ''server_id'';
               source_type = dgetn source ''source_type'';
               source_name = dgetn source ''source_name''
           in if truthy (dgetn raw_fact ''cluster'') \<and> source_type = PStr ''openshift'' then Return []
              else
                (case process_facts_for_datasource source_type source raw_fact of
                   Raise e \<Rightarrow> if e = NotImplementedError then Return [] else Raise e
                 | Return fp \<Rightarrow>
                     Return [AList.update SOURCES_KEY
                       (PDict [(py_str server_id @ ''+'' @ py_str source_name,
                          PDict [(''server_id'', server_id), (''source_type'', source_type),
                                 (''source_name'', source_name)])]) fp]))
      | _ \<Rightarrow> Raise AttributeError)"

definition process_source :: "pydict \<Rightarrow> fingerprint list res" where
  "process_source source =
     bind_res (ditem source ''facts'') (\<lambda>facts.
     bind_res (py_iter facts) (\<lambda>raws.
     bind_res (map_res (process_fact source) raws) (\<lambda>fpss. Return (concat fpss))))"

section \<open>Post-processing\<close>

definition RAW_DATE_KEYS :: "(string \<times> string list) list" where
  "RAW_DATE_KEYS =
     [(''date_filesystem_create'', [''%Y-%m-%d'']),
      (''date_anaconda_log'', [''%Y-%m-%d'']),
      (''registration_time'', [''%Y-%m-%d %H:%M:%S'', ''%Y-%m-%d %H:%M:%S %z'']),
      (''date_machine_id'', [''%Y-%m-%d'']),
      (''creation_timestamp'', [''%Y-%m-%dT%H:%M:%S%z''])]"

text \<open>The fingerprint, the date found so far and its metadata.\<close>

type_synonym creation_state = "fingerprint \<times> pyval \<times> pyval"

definition creation_step :: "string \<times> string list \<Rightarrow> creation_state \<Rightarrow> creation_state res" where
  "creation_step k s =
     (case (k, s) of ((date_key, date_pattern), (fp, system_creation_date, metadata)) \<Rightarrow>
        (let date_value = dgetn fp date_key;
             fp1 = AList.delete date_key fp
         in bind_res (ditem fp1 META_DATA_KEY) (\<lambda>meta.
              (case meta of
                 PDict m \<Rightarrow>
                   (let date_metadata = dgetn m date_key;
                        fp2 = AList.update META_DATA_KEY (PDict (AList.delete date_key m)) fp1
                    in if date_value \<noteq> PNone then
                         bind_res (multi_format_dateparse date_metadata date_value date_pattern) (\<lambda>date.
                           Return (fp2, date, date_metadata))
                       else Return (fp2, system_creation_date, metadata))
               | _ \<Rightarrow> Raise AttributeError))))"

definition compute_system_creation_time :: "fingerprint \<Rightarrow> fingerprint res" where
  "compute_system_creation_time fp =
     bind_res (fold_res creation_step RAW_DATE_KEYS (fp, PNone, PDict [])) (\<lambda>(fp1, date, metadata).
       if \<not> truthy metadata then Return fp1
       else
         (let fp2 = AList.update ''system_creation_date'' date fp1 in
          bind_res (if date \<noteq> PNone then Return metadata
                    else (case metadata of
                            PDict d \<Rightarrow> Return (PDict (AList.update ''raw_fact_key''
                              (PStr (py_join ''/'' (map fst RAW_DATE_KEYS))) d))
                          | _ \<Rightarrow> Raise TypeError)) (\<lambda>md.
          bind_res (ditem fp2 META_DATA_KEY) (\<lambda>meta.
            (case meta of
               PDict m \<Rightarrow> Return (AList.update META_DATA_KEY (PDict (AList.update ''system_creation_date'' md m)) fp2)
             | _ \<Rightarrow> Raise TypeError)))))"

definition post_process_merged_fingerprints :: "fingerprint list \<Rightarrow> fingerprint list res" where
  "post_process_merged_fingerprints =
     map_res (\<lambda>fp. bind_res (ditem fp SOURCES_KEY) (\<lambda>ss. bind_res (vvalues ss) (\<lambda>vs.
       compute_system_creation_time (AList.update SOURCES_KEY (PList vs) fp))))"

section \<open>All sources of a report\<close>

definition NETWORK_IDENTIFICATION_KEYS :: "string list" where
  "NETWORK_IDENTIFICATION_KEYS = [''subscription_manager_id'', ''bios_uuid'']"

definition VCENTER_IDENTIFICATION_KEYS :: "string list" where
  "VCENTER_IDENTIFICATION_KEYS = [''vm_uuid'']"

definition SATELLITE_IDENTIFICATION_KEYS :: "string list" where
  "SATELLITE_IDENTIFICATION_KEYS = [''subscription_manager_id'']"

definition NETWORK_SATELLITE_MERGE_KEYS :: "(string \<times> string) list" where
  "NETWORK_SATELLITE_MERGE_KEYS =
     [(''subscription_manager_id'', ''subscription_manager_id''), (''mac_addresses'', ''mac_addresses'')]"

definition NETWORK_VCENTER_MERGE_KEYS :: "(string \<times> string) list" where
  "NETWORK_VCENTER_MERGE_KEYS = [(''bios_uuid'', ''vm_uuid''), (''mac_addresses'', ''mac_addresses'')]"

definition data_sources :: "string list" where
  "data_sources = [''network'', ''vcenter'', ''satellite'', ''openshift'', ''ansible'', ''rhacs'']"

type_synonym fingerprint_map = "(string \<times> fingerprint list) list"

definition collect_source :: "pydict \<Rightarrow> fingerprint_map \<Rightarrow> fingerprint_map res" where
  "collect_source source m =
     bind_res (process_source source) (\<lambda>fps.
     bind_res (as_key (dgetn source ''source_type'')) (\<lambda>k.
       (case k of
          PStr s \<Rightarrow> bind_res (ditem m s) (\<lambda>old. Return (AList.update s (old @ fps) m))
        | _ \<Rightarrow> Raise KeyError)))"

definition collect_sources :: "pydict list \<Rightarrow> fingerprint_map res" where
  "collect_sources source_list = fold_res collect_source source_list (map (\<lambda>s. (s, [])) data_sources)"

definition combine_fingerprints ::
  "(nat \<Rightarrow> nat \<Rightarrow> string) \<Rightarrow> fingerprint_map \<Rightarrow> fingerprint list res" where
  "combine_fingerprints uuid m =
     bind_res (remove_duplicate_fingerprints NETWORK_IDENTIFICATION_KEYS False (dget m ''network'' [])) (\<lambda>network.
     bind_res (remove_duplicate_fingerprints SATELLITE_IDENTIFICATION_KEYS False (dget m ''satellite'' [])) (\<lambda>satellite.
     bind_res (remove_duplicate_fingerprints VCENTER_IDENTIFICATION_KEYS False (dget m ''vcenter'' [])) (\<lambda>vcenter.
     bind_res (merge_fingerprints_from_source_types (uuid 0) 0 No_keys NETWORK_SATELLITE_MERGE_KEYS
         network satellite) (\<lambda>(_, combined).
     bind_res (merge_fingerprints_from_source_types (uuid 1) 0 (Key_tuple [''cpu_count'', ''infrastructure_type''])
         NETWORK_VCENTER_MERGE_KEYS combined vcenter) (\<lambda>(_, combined2).
       Return (combined2 @ dget m ''openshift'' [] @ dget m ''ansible'' [] @ dget m ''rhacs'' []))))))"

definition process_sources :: "(nat \<Rightarrow> nat \<Rightarrow> string) \<Rightarrow> pydict list \<Rightarrow> fingerprint list res" where
  "process_sources uuid source_list =
     bind_res (collect_sources source_list) (\<lambda>m.
     bind_res (combine_fingerprints uuid m) post_process_merged_fingerprints)"

section \<open>What one source contributes\<close>

text \<open>A fingerprint ready to be merged.\<close>

definition fp_ready :: "string list \<Rightarrow> fingerprint \<Rightarrow> bool" where
  "fp_ready N fp \<longleftrightarrow> fp_keyed fact_value_ok N False fp"

lemma system_ready:
  assumes "fp_system N fp"
  shows "fp_ready N (AList.update SOURCES_KEY (PDict [(k, v)]) fp)"
proof -
  let ?fp = "AList.update SOURCES_KEY (PDict [(k, v)]) fp"
  from assms obtain m es ps where
    m: "map_of fp META_DATA_KEY = Some (PDict m)" "wf_dict fp" "wf_dict m"
      "\<And>k v. map_of m k = Some v \<Longrightarrow> meta_entry v \<and> k \<notin> set special_keys"
      "\<And>k. has_key fp k \<Longrightarrow> k \<notin> set special_keys \<Longrightarrow> has_key m k" "\<not> has_key fp GLOBAL_ID_KEY"
      "\<And>k. plain_key k \<Longrightarrow> fact_value_ok k (dgetn fp k)"
    and es: "map_of fp ENTITLEMENTS_KEY = Some (PList es)" "list_all is_dict es"
    and ps: "map_of fp PRODUCTS_KEY = Some (PList ps)" "list_all (\<lambda>p. product_name p \<noteq> None) ps"
      "set (map product_name ps) = Some ` set N"
    unfolding fp_system_def fp_draft_def by auto
  have keep: "map_of ?fp x = map_of fp x" if "x \<noteq> SOURCES_KEY" for x
    using that by (simp add: dict_simps)
  have "fp_ok N False ?fp"
  proof (rule fp_okI [where md = m and es = es and ps = ps and ss = "[(k, v)]"])
    show "has_key m x" if "has_key ?fp x" "x \<notin> set special_keys" for x
      using that m(5) [of x] special_distinct(3) by (auto simp: dict_simps)
    show "is_str x" if "map_of ?fp GLOBAL_ID_KEY = Some x" for x
      using that m(6) keep [of GLOBAL_ID_KEY] by (simp add: has_key_map_of)
  qed (use m es ps special_differ in \<open>simp_all add: dict_simps wf_dict_def [of "[(k, v)]"] wf_dict_update\<close>)
  moreover have "fact_value_ok x (dgetn ?fp x)" if "plain_key x" for x
    using that m(7) [OF that] by (simp add: dict_simps plain_key_def)
  ultimately show ?thesis by (simp add: fp_ready_def fp_keyed_def)
qed

definition names_of :: "string \<Rightarrow> string list" where
  "names_of s = (if s \<in> {''network'', ''satellite''} then PRODUCT_NAMES else [])"

lemma process_facts_system:
  "if_returns (fp_system (names_of (py_str data_source))) (process_facts_for_datasource data_source source raw_fact)"
  using network_fact_system vcenter_fact_system satellite_fact_system other_fact_system
  by (simp add: process_facts_for_datasource_def Let_def names_of_def)

lemma process_fact_ready:
  "if_returns (list_all (fp_ready (names_of (py_str (dgetn source ''source_type''))))) (process_fact source raw)"
proof (cases raw)
  case (PDict raw_fact)
  show ?thesis
    using process_facts_system [of "dgetn source ''source_type''" source raw_fact] system_ready
    by (auto simp: PDict process_fact_def Let_def split: res.splits)
qed (simp_all add: process_fact_def)

lemma process_source_ready:
  "if_returns (list_all (fp_ready (names_of (py_str (dgetn source ''source_type''))))) (process_source source)"
proof (cases "process_source source")
  case (Return fps)
  then obtain raws fpss where r: "map_res (process_fact source) raws = Return fpss" "fps = concat fpss"
    by (auto simp: process_source_def res_simps)
  have "list_all (fp_ready (names_of (py_str (dgetn source ''source_type'')))) x" if "x \<in> set fpss" for x
    using map_res_set [OF r(1) that] process_fact_ready if_returnsD by metis
  then show ?thesis by (auto simp: Return r(2) list_all_iff)
qed simp

definition map_ready :: "fingerprint_map \<Rightarrow> bool" where
  "map_ready m \<longleftrightarrow> map fst m = data_sources \<and> list_all (\<lambda>(s, fps). list_all (fp_ready (names_of s)) fps) m"

lemma collect_source_ready:
  assumes "map_ready m"
  shows "if_returns map_ready (collect_source source m)"
proof (cases "collect_source source m")
  case (Return m')
  then obtain fps k where fps: "process_source source = Return fps"
    and k: "as_key (dgetn source ''source_type'') = Return k"
    and m'': "(case k of PStr s \<Rightarrow> bind_res (ditem m s) (\<lambda>old. Return (AList.update s (old @ fps) m))
                | _ \<Rightarrow> Raise KeyError) = Return m'"
    unfolding collect_source_def bind_res_eq_Return by blast
  from m'' obtain s where s: "k = PStr s" by (cases k) simp_all
  with m'' obtain old where m': "ditem m s = Return old" "m' = AList.update s (old @ fps) m"
    by (auto simp: res_simps)
  have ty: "dgetn source ''source_type'' = PStr s"
    using k s by (auto simp: as_key_def split: if_splits)
  have new: "list_all (fp_ready (names_of s)) fps"
    using process_source_ready [of source] fps ty by simp
  have mem: "(s, old) \<in> set m" using m'(1) by (simp add: ditem_Return_iff map_of_SomeD)
  then have old: "list_all (fp_ready (names_of s)) old"
    using assms by (auto simp: map_ready_def list_all_iff)
  have "s \<in> set (map fst m)" using mem by force
  moreover have "map fst m = data_sources" using assms by (simp add: map_ready_def)
  ultimately have "map fst m' = data_sources" by (simp only: m'(2) update_keys if_True)
  moreover have "list_all (\<lambda>(s, fps). list_all (fp_ready (names_of s)) fps) m'"
  proof -
    let ?Q = "\<lambda>(s, fps). list_all (fp_ready (names_of s)) fps"
    have "\<forall>x \<in> set m. ?Q x" "?Q (s, old @ fps)"
      using assms old new by (auto simp: map_ready_def list_all_iff)
    then show ?thesis
      using set_AList_update [of s "old @ fps" m] unfolding m'(2) list_all_iff by blast
  qed
  ultimately show ?thesis by (simp add: Return map_ready_def)
qed simp

lemma collect_sources_ready: "if_returns map_ready (collect_sources source_list)"
  unfolding collect_sources_def
  by (rule if_returns_fold) (simp_all add: collect_source_ready map_ready_def data_sources_def)

section \<open>Combining never fails\<close>

text \<open>Besides being ready, the MAC addresses must not be a dict, which cannot be indexed.\<close>

definition mergeable_value :: "string \<Rightarrow> pyval \<Rightarrow> bool" where
  "mergeable_value k v \<longleftrightarrow> fact_value_ok k v \<and> (k = MAC_KEY \<longrightarrow> \<not> is_dict v)"

definition fp_mergeable :: "string list \<Rightarrow> fingerprint \<Rightarrow> bool" where
  "fp_mergeable N fp \<longleftrightarrow> fp_keyed mergeable_value N False fp"

definition no_mac_dict :: "fingerprint \<Rightarrow> bool" where
  "no_mac_dict fp \<longleftrightarrow> \<not> is_dict (dgetn fp MAC_KEY)"

definition match_keys :: "string list" where
  "match_keys = [''subscription_manager_id'', ''mac_addresses'', ''bios_uuid'', ''vm_uuid'']"

lemma ready_mergeable: "fp_ready N fp \<Longrightarrow> no_mac_dict fp \<Longrightarrow> fp_mergeable N fp"
  by (auto simp: fp_ready_def fp_mergeable_def fp_keyed_def mergeable_value_def no_mac_dict_def)

lemma fp_mergeable_eq: "fp_mergeable N = fp_keyed mergeable_value N False"
  by (simp add: fun_eq_iff fp_mergeable_def)

lemma id_scalar: "fact_value_ok k v \<Longrightarrow> k \<in> set id_keys \<Longrightarrow> scalar v"
  by (auto simp: fact_value_ok_def is_str_conv)

lemma scalar_indexable: "scalar v \<Longrightarrow> indexable v"
  by (cases v) (auto simp: indexable_def)

lemma match_keys_ok: "matchable match_keys mergeable_value"
proof -
  have keys: "plain_key k \<and> k \<noteq> GLOBAL_ID_KEY \<and> (k = MAC_KEY \<or> k \<in> set id_keys)" if "k \<in> set match_keys" for k
    using that by (auto simp: match_keys_def plain_key_def fp_keys MAC_KEY_def id_keys_def)
  have "indexable v" if "mergeable_value k v" "k \<in> set match_keys" for k v
  proof (cases "k = MAC_KEY")
    case True
    then show ?thesis using that(1) by (auto simp: mergeable_value_def fact_value_ok_def)
  next
    case False
    then have "k \<in> set id_keys" using keys [OF that(2)] by blast
    then show ?thesis using that(1) id_scalar scalar_indexable by (auto simp: mergeable_value_def)
  qed
  moreover have "GLOBAL_ID_KEY \<in> set id_keys" "GLOBAL_ID_KEY \<notin> set date_keys" "GLOBAL_ID_KEY \<noteq> MAC_KEY"
    by (simp_all add: id_keys_def date_keys_def MAC_KEY_def fp_keys)
  moreover from this have "scalar v" if "mergeable_value GLOBAL_ID_KEY v" for v
    using that id_scalar by (simp add: mergeable_value_def)
  ultimately show ?thesis
    using keys unfolding matchable_def by (auto simp: mergeable_value_def fact_value_ok_def)
qed

lemma dedup_mergeable:
  assumes "list_all (fp_mergeable N) fps" and "set ids \<subseteq> {''subscription_manager_id'', ''bios_uuid'', ''vm_uuid''}"
  obtains r where "remove_duplicate_fingerprints ids False fps = Return r" and "list_all (fp_mergeable N) r"
    and "all_sources r = all_sources fps"
    and "list_all (\<lambda>k. distinct (filter truthy (map (\<lambda>f. dgetn f k) r))) ids"
proof -
  have "k \<in> set id_keys \<and> plain_key k" if "k \<in> set ids" for k
    using that assms(2) by (auto simp: id_keys_def plain_key_def fp_keys)
  then have k: "\<forall>k \<in> set ids. plain_key k \<and> (\<forall>v. mergeable_value k v \<longrightarrow> scalar v)"
    using id_scalar by (auto simp: mergeable_value_def)
  have "list_all (fp_keyed mergeable_value N False) fps"
    using assms(1) by (simp add: fp_mergeable_eq)
  from remove_duplicates_keyed [OF this k] that show ?thesis
    by (auto simp: fp_mergeable_eq all_sources_def)
qed

lemma merge_types_mergeable:
  assumes "list_all (fp_mergeable N) bs" and "list_all (fp_mergeable N') cs" and "set N' \<subseteq> set N"
    and "kl \<in> {NETWORK_SATELLITE_MERGE_KEYS, NETWORK_VCENTER_MERGE_KEYS}" and "reverse_keys rpk = []"
  obtains c r t where "merge_fingerprints_from_source_types uuid n rpk kl bs cs = Return (c, r @ t)"
    and "list_all (fp_mergeable N) r" and "list_all (fp_mergeable N') t"
proof -
  have k: "\<forall>(bk, ck) \<in> set kl. bk \<in> set match_keys \<and> ck \<in> set match_keys"
    using assms(4) by (auto simp: NETWORK_SATELLITE_MERGE_KEYS_def NETWORK_VCENTER_MERGE_KEYS_def match_keys_def)
  have l: "list_all (fp_keyed mergeable_value N False) bs" "list_all (fp_keyed mergeable_value N' False) cs"
    using assms(1,2) by (simp_all add: fp_mergeable_eq)
  show ?thesis
    by (rule merge_source_types_ok [OF l assms(3) match_keys_ok k assms(5)])
      (use that in \<open>auto simp: fp_mergeable_eq\<close>)
qed

lemma map_ready_kind:
  assumes "map_ready m" and "list_all (\<lambda>(s, fps). list_all no_mac_dict fps) m"
  shows "list_all (fp_mergeable (names_of s)) (dget m s [])"
proof (cases "map_of m s")
  case (Some fps)
  then have "(s, fps) \<in> set m" by (rule map_of_SomeD)
  with assms have "list_all (fp_ready (names_of s)) fps" "list_all no_mac_dict fps"
    by (auto simp: map_ready_def list_all_iff)
  then show ?thesis
    using Some by (simp add: list_all_iff ready_mergeable)
qed simp

lemma identification_keys:
  "set NETWORK_IDENTIFICATION_KEYS \<subseteq> {''subscription_manager_id'', ''bios_uuid'', ''vm_uuid''}"
  "set SATELLITE_IDENTIFICATION_KEYS \<subseteq> {''subscription_manager_id'', ''bios_uuid'', ''vm_uuid''}"
  "set VCENTER_IDENTIFICATION_KEYS \<subseteq> {''subscription_manager_id'', ''bios_uuid'', ''vm_uuid''}"
  by (simp_all add: NETWORK_IDENTIFICATION_KEYS_def SATELLITE_IDENTIFICATION_KEYS_def VCENTER_IDENTIFICATION_KEYS_def)

lemma combine_total:
  assumes "map_ready m" and "list_all (\<lambda>(s, fps). list_all no_mac_dict fps) m"
  obtains r where "combine_fingerprints uuid m = Return (r @ dget m ''openshift'' [] @ dget m ''ansible'' [] @ dget m ''rhacs'' [])"
    and "list_all (\<lambda>fp. \<exists>N. fp_mergeable N fp) r"
proof -
  note kind = map_ready_kind [OF assms]
  have n: "names_of ''network'' = PRODUCT_NAMES" "names_of ''satellite'' = PRODUCT_NAMES" "names_of ''vcenter'' = []"
    by (simp_all add: names_of_def)
  obtain net where net: "remove_duplicate_fingerprints NETWORK_IDENTIFICATION_KEYS False (dget m ''network'' []) = Return net"
    "list_all (fp_mergeable PRODUCT_NAMES) net"
    by (rule dedup_mergeable [OF kind [of "''network''", unfolded n] identification_keys(1)])
  obtain sat where sat: "remove_duplicate_fingerprints SATELLITE_IDENTIFICATION_KEYS False (dget m ''satellite'' []) = Return sat"
    "list_all (fp_mergeable PRODUCT_NAMES) sat"
    by (rule dedup_mergeable [OF kind [of "''satellite''", unfolded n] identification_keys(2)])
  obtain vc where vc: "remove_duplicate_fingerprints VCENTER_IDENTIFICATION_KEYS False (dget m ''vcenter'' []) = Return vc"
    "list_all (fp_mergeable []) vc"
    by (rule dedup_mergeable [OF kind [of "''vcenter''", unfolded n] identification_keys(3)])
  have k: "NETWORK_SATELLITE_MERGE_KEYS \<in> {NETWORK_SATELLITE_MERGE_KEYS, NETWORK_VCENTER_MERGE_KEYS}"
    "NETWORK_VCENTER_MERGE_KEYS \<in> {NETWORK_SATELLITE_MERGE_KEYS, NETWORK_VCENTER_MERGE_KEYS}"
    "reverse_keys No_keys = []" "reverse_keys (Key_tuple [''cpu_count'', ''infrastructure_type'']) = []"
    "set [] \<subseteq> set PRODUCT_NAMES"
    by simp_all
  obtain c1 r1 t1 where m1: "merge_fingerprints_from_source_types (uuid 0) 0 No_keys NETWORK_SATELLITE_MERGE_KEYS net sat
      = Return (c1, r1 @ t1)" "list_all (fp_mergeable PRODUCT_NAMES) r1" "list_all (fp_mergeable PRODUCT_NAMES) t1"
    by (rule merge_types_mergeable [OF net(2) sat(2) order_refl k(1,3)])
  have l: "list_all (fp_mergeable PRODUCT_NAMES) (r1 @ t1)" using m1(2,3) by simp
  obtain c2 r2 t2 where m2: "merge_fingerprints_from_source_types (uuid 1) 0
      (Key_tuple [''cpu_count'', ''infrastructure_type'']) NETWORK_VCENTER_MERGE_KEYS (r1 @ t1) vc
      = Return (c2, r2 @ t2)" "list_all (fp_mergeable PRODUCT_NAMES) r2" "list_all (fp_mergeable []) t2"
    by (rule merge_types_mergeable [OF l vc(2) k(5,2,4)])
  have "list_all (\<lambda>fp. \<exists>N. fp_mergeable N fp) (r2 @ t2)"
    using m2(2,3) by (auto simp: list_all_iff)
  then show ?thesis
    by (rule that [rotated]) (simp add: combine_fingerprints_def net(1) sat(1) vc(1) m1(1) m2(1) del: One_nat_def)
qed

section \<open>The creation date\<close>

definition parse_date :: "pyval \<Rightarrow> string list \<Rightarrow> pyval" where
  "parse_date v patterns =
     (case v of
        PStr s \<Rightarrow> if s = [] then PNone
                  else (case first_date (strip_suffix s '' UTC'') patterns of Some d \<Rightarrow> d | None \<Rightarrow> PNone)
      | _ \<Rightarrow> PNone)"

lemma dateparse_ok:
  assumes "meta_entry source" and "\<not> truthy v \<or> is_str v"
  shows "multi_format_dateparse source v patterns = Return (parse_date v patterns)"
proof -
  from assms(1) obtain d where d: "source = PDict d" "has_key d ''source_type''" "has_key d ''source_name''"
    by (auto simp: meta_entry_conv)
  then have "\<exists>x y. ditem d ''source_type'' = Return x \<and> ditem d ''source_name'' = Return y"
    by (auto simp: has_key_map_of ditem_def)
  then show ?thesis
    using assms(2)
    by (cases v) (auto simp: multi_format_dateparse_def parse_date_def d(1) split: option.splits)
qed

text \<open>What the loop over the date keys keeps: metadata for every remaining fact.\<close>

definition dated :: "fingerprint \<Rightarrow> bool" where
  "dated fp \<longleftrightarrow> wf_dict fp \<and>
     (\<exists>m. map_of fp META_DATA_KEY = Some (PDict m) \<and> wf_dict m \<and> (\<forall>k v. map_of m k = Some v \<longrightarrow> meta_entry v) \<and>
        (\<forall>k \<in> set date_keys. has_key fp k \<longrightarrow> has_key m k)) \<and>
     (\<forall>k \<in> set date_keys. \<not> truthy (dgetn fp k) \<or> is_str (dgetn fp k))"

text \<open>The value of the last key in the list that has one.\<close>

definition last_date :: "(string \<times> string list) list \<Rightarrow> fingerprint \<Rightarrow> pyval \<Rightarrow> pyval" where
  "last_date ks fp d =
     (let vs = filter (\<lambda>(k, _). dgetn fp k \<noteq> PNone) ks
      in if vs = [] then d else (case last vs of (k, patterns) \<Rightarrow> parse_date (dgetn fp k) patterns))"

lemma last_date_simps:
  "last_date [] fp d = d"
  "last_date ((k, p) # ks) fp d =
     last_date ks fp (if dgetn fp k \<noteq> PNone then parse_date (dgetn fp k) p else d)"
  by (simp_all add: last_date_def Let_def)

lemma last_date_cong:
  "\<forall>k \<in> set (map fst ks). dgetn fp k = dgetn fp' k \<Longrightarrow> last_date ks fp d = last_date ks fp' d"
  by (induction ks arbitrary: d) (auto simp: last_date_simps split: prod.splits)

lemma date_key_not_special: "k \<in> set date_keys \<Longrightarrow> k \<notin> set special_keys"
  by (auto simp: date_keys_def special_keys_def fp_keys)

lemma creation_step_ok:
  assumes "dated fp" and "k \<in> set date_keys"
  obtains fp' md' where
    "creation_step (k, p) (fp, d, md) =
       Return (fp', if dgetn fp k \<noteq> PNone then parse_date (dgetn fp k) p else d, md')"
    and "dated fp'" and "\<forall>x. x \<noteq> META_DATA_KEY \<longrightarrow> map_of fp' x = (if x = k then None else map_of fp x)"
    and "if dgetn fp k \<noteq> PNone then meta_entry md' else md' = md"
proof -
  from assms(1) obtain m where m: "wf_dict fp" "map_of fp META_DATA_KEY = Some (PDict m)" "wf_dict m"
    "\<forall>k v. map_of m k = Some v \<longrightarrow> meta_entry v" "\<forall>k \<in> set date_keys. has_key fp k \<longrightarrow> has_key m k"
    "\<forall>k \<in> set date_keys. \<not> truthy (dgetn fp k) \<or> is_str (dgetn fp k)"
    by (auto simp: dated_def)
  have km: "k \<noteq> META_DATA_KEY" using date_key_not_special [OF assms(2)] special_distinct(2) by blast
  have dm: "META_DATA_KEY \<notin> set date_keys" by (simp add: date_keys_def fp_keys)
  let ?fp = "AList.update META_DATA_KEY (PDict (AList.delete k m)) (AList.delete k fp)"
  have item: "ditem (AList.delete k fp) META_DATA_KEY = Return (PDict m)"
    using m(2) km by (simp add: ditem_Return_iff dict_simps)
  have maps: "map_of ?fp x = (if x = k then None else map_of fp x)" if "x \<noteq> META_DATA_KEY" for x
    using that by (simp add: dict_simps)
  have get: "dgetn ?fp x = (if x = k then PNone else dgetn fp x)" if "x \<in> set date_keys" for x
  proof -
    have "x \<noteq> META_DATA_KEY" using that dm by blast
    from maps [OF this] show ?thesis by (simp add: dget_def)
  qed
  have "\<forall>x \<in> set date_keys. has_key ?fp x \<longrightarrow> has_key (AList.delete k m) x"
    using m(5) dm by (auto simp: has_key_map_of dict_simps)
  moreover have "\<forall>x v. map_of (AList.delete k m) x = Some v \<longrightarrow> meta_entry v"
    using m(4) by (simp add: dict_simps)
  moreover have "\<forall>x \<in> set date_keys. \<not> truthy (dgetn ?fp x) \<or> is_str (dgetn ?fp x)"
    using get m(6) by simp
  moreover have "map_of ?fp META_DATA_KEY = Some (PDict (AList.delete k m))" by (simp add: dict_simps)
  moreover have "wf_dict ?fp" "wf_dict (AList.delete k m)" using m(1,3) by blast+
  ultimately have fp': "dated ?fp" unfolding dated_def by blast
  have all: "\<forall>x. x \<noteq> META_DATA_KEY \<longrightarrow> map_of ?fp x = (if x = k then None else map_of fp x)"
    using maps by blast
  show ?thesis
  proof (cases "dgetn fp k = PNone")
    case True
    have "creation_step (k, p) (fp, d, md) = Return (?fp, d, md)"
      using True item by (simp add: creation_step_def Let_def)
    then show ?thesis using that [of ?fp md] fp' all True by simp
  next
    case False
    then have "has_key fp k" by (auto simp: has_key_map_of dget_def split: option.splits)
    then obtain v where v: "map_of m k = Some v" using m(5) assms(2) by (auto simp: has_key_map_of)
    then have md: "meta_entry v" using m(4) by blast
    have "multi_format_dateparse v (dgetn fp k) p = Return (parse_date (dgetn fp k) p)"
      using dateparse_ok [OF md] m(6) assms(2) by blast
    then have "creation_step (k, p) (fp, d, md) = Return (?fp, parse_date (dgetn fp k) p, v)"
      using False item v by (simp add: creation_step_def Let_def)
    then show ?thesis using that [of ?fp v] fp' all False md by simp
  qed
qed

lemma creation_fold_ok:
  assumes "set (map fst ks) \<subseteq> set date_keys" and "distinct (map fst ks)"
  shows "dated fp \<Longrightarrow> \<exists>fp' md'. fold_res creation_step ks (fp, d, md) = Return (fp', last_date ks fp d, md') \<and> dated fp'
    \<and> (\<forall>x. x \<noteq> META_DATA_KEY \<longrightarrow> map_of fp' x = (if x \<in> set (map fst ks) then None else map_of fp x))
    \<and> (if list_all (\<lambda>k. dgetn fp k = PNone) (map fst ks) then md' = md else meta_entry md')"
  using assms
proof (induction ks arbitrary: fp d md)
  case Nil
  then show ?case by (simp add: last_date_simps)
next
  case (Cons a ks)
  obtain k p where a: "a = (k, p)" by fastforce
  let ?d = "if dgetn fp k \<noteq> PNone then parse_date (dgetn fp k) p else d"
  have k: "k \<in> set date_keys" "set (map fst ks) \<subseteq> set date_keys" "distinct (map fst ks)" "k \<notin> set (map fst ks)"
    using Cons.prems(2,3) a by auto
  obtain fp1 md1 where s: "creation_step (k, p) (fp, d, md) = Return (fp1, ?d, md1)" "dated fp1"
    "\<forall>x. x \<noteq> META_DATA_KEY \<longrightarrow> map_of fp1 x = (if x = k then None else map_of fp x)"
    "if dgetn fp k \<noteq> PNone then meta_entry md1 else md1 = md"
    by (rule creation_step_ok [OF Cons.prems(1) k(1)])
  from Cons.IH [OF s(2) k(2,3), of ?d md1] obtain fp' md' where
    r: "fold_res creation_step ks (fp1, ?d, md1) = Return (fp', last_date ks fp1 ?d, md')" "dated fp'"
      "\<forall>x. x \<noteq> META_DATA_KEY \<longrightarrow> map_of fp' x = (if x \<in> set (map fst ks) then None else map_of fp1 x)"
      "if list_all (\<lambda>k. dgetn fp1 k = PNone) (map fst ks) then md' = md1 else meta_entry md'"
    by (elim exE conjE) (rule that)
  have dm: "META_DATA_KEY \<notin> set date_keys" by (simp add: date_keys_def fp_keys)
  have same: "dgetn fp1 x = dgetn fp x" if "x \<in> set (map fst ks)" for x
  proof -
    have "x \<noteq> META_DATA_KEY" "x \<noteq> k" using that k(2,4) dm by blast+
    then show ?thesis using s(3) by (simp add: dget_def)
  qed
  then have ld: "last_date ks fp1 ?d = last_date (a # ks) fp d"
    using last_date_cong [of ks fp1 fp ?d] by (simp add: a last_date_simps)
  have run: "fold_res creation_step (a # ks) (fp, d, md) = Return (fp', last_date (a # ks) fp d, md')"
    using s(1) r(1) ld by (simp add: a)
  have la: "list_all (\<lambda>k. dgetn fp1 k = PNone) (map fst ks) \<longleftrightarrow> list_all (\<lambda>k. dgetn fp k = PNone) (map fst ks)"
    using same by (simp add: list_all_iff)
  have maps: "\<forall>x. x \<noteq> META_DATA_KEY \<longrightarrow> map_of fp' x = (if x \<in> set (map fst (a # ks)) then None else map_of fp x)"
    using r(3) s(3) by (simp add: a)
  have md: "if list_all (\<lambda>k. dgetn fp k = PNone) (map fst (a # ks)) then md' = md else meta_entry md'"
  proof (cases "dgetn fp k = PNone")
    case True
    then show ?thesis using r(4) s(4) unfolding la by (simp add: a)
  next
    case False
    then show ?thesis using r(4) s(4) by (simp add: a split: if_splits)
  qed
  show ?case using run r(2) maps md by (intro exI [of _ fp'] exI [of _ md'] conjI)
qed

text \<open>What is left after the post-processing: a list of sources, metadata, no raw date.\<close>

definition fp_final :: "fingerprint \<Rightarrow> bool" where
  "fp_final fp \<longleftrightarrow> wf_dict fp \<and> (case map_of fp META_DATA_KEY of Some (PDict m) \<Rightarrow> wf_dict m | _ \<Rightarrow> False) \<and>
     (case map_of fp SOURCES_KEY of Some (PList ss) \<Rightarrow> True | _ \<Rightarrow> False) \<and>
     \<not> has_key fp GLOBAL_ID_KEY \<and> list_all (\<lambda>k. \<not> has_key fp k) date_keys"

lemma raw_date_keys: "map fst RAW_DATE_KEYS = date_keys" "distinct (map fst RAW_DATE_KEYS)"
  by (simp_all add: RAW_DATE_KEYS_def date_keys_def)

lemma creation_time_ok:
  assumes "dated fp"
  obtains fp' where "compute_system_creation_time fp = Return fp'" and "wf_dict fp'"
    and "\<exists>m. map_of fp' META_DATA_KEY = Some (PDict m) \<and> wf_dict m"
    and "\<forall>x. x \<noteq> META_DATA_KEY \<longrightarrow> map_of fp' x =
      (if x = ''system_creation_date'' \<and> \<not> list_all (\<lambda>k. dgetn fp k = PNone) date_keys
       then Some (last_date RAW_DATE_KEYS fp PNone)
       else if x \<in> set date_keys then None else map_of fp x)"
proof -
  have sub: "set (map fst RAW_DATE_KEYS) \<subseteq> set date_keys" by (simp add: raw_date_keys)
  from creation_fold_ok [OF sub raw_date_keys(2) assms, of PNone "PDict []"] obtain fp1 md where
    f: "fold_res creation_step RAW_DATE_KEYS (fp, PNone, PDict []) = Return (fp1, last_date RAW_DATE_KEYS fp PNone, md)"
      "dated fp1" "\<forall>x. x \<noteq> META_DATA_KEY \<longrightarrow> map_of fp1 x = (if x \<in> set date_keys then None else map_of fp x)"
      "if list_all (\<lambda>k. dgetn fp k = PNone) date_keys then md = PDict [] else meta_entry md"
    unfolding raw_date_keys by (elim exE conjE) (rule that)
  from f(2) obtain m where m: "wf_dict fp1" "map_of fp1 META_DATA_KEY = Some (PDict m)" "wf_dict m"
    by (auto simp: dated_def)
  let ?d = "last_date RAW_DATE_KEYS fp PNone"
  show ?thesis
  proof (cases "list_all (\<lambda>k. dgetn fp k = PNone) date_keys")
    case True
    then have "md = PDict []" using f(4) by simp
    then have run: "compute_system_creation_time fp = Return fp1"
      by (simp add: compute_system_creation_time_def f(1))
    have "\<exists>m. map_of fp1 META_DATA_KEY = Some (PDict m) \<and> wf_dict m" using m(2,3) by blast
    from that [OF run m(1) this] f(3) True show ?thesis by simp
  next
    case False
    then have "meta_entry md" using f(4) by simp
    then have "\<exists>dm. md = PDict dm \<and> dm \<noteq> []" by (cases md) (auto simp: has_key_def)
    then obtain dm where dm: "md = PDict dm" "dm \<noteq> []" by blast
    let ?md = "if ?d \<noteq> PNone then md else PDict (AList.update ''raw_fact_key'' (PStr (py_join ''/'' (map fst RAW_DATE_KEYS))) dm)"
    let ?fp = "AList.update META_DATA_KEY (PDict (AList.update ''system_creation_date'' ?md m))
        (AList.update ''system_creation_date'' ?d fp1)"
    have ne: "''system_creation_date'' \<noteq> META_DATA_KEY" by (simp add: fp_keys)
    have item: "ditem (AList.update ''system_creation_date'' v fp1) META_DATA_KEY = Return (PDict m)" for v
      using m(2) ne by (simp add: ditem_Return_iff dict_simps)
    have tr: "truthy md" using dm by simp
    have run: "compute_system_creation_time fp = Return ?fp"
      by (cases "?d = PNone") (simp_all add: compute_system_creation_time_def f(1) Let_def tr item dm)
    show ?thesis
    proof (rule that [OF run])
      show "wf_dict ?fp" using m(1) by blast
      show "\<exists>m. map_of ?fp META_DATA_KEY = Some (PDict m) \<and> wf_dict m"
        using wf_dict_update [OF m(3)] by (auto simp: dict_simps)
      show "\<forall>x. x \<noteq> META_DATA_KEY \<longrightarrow> map_of ?fp x =
          (if x = ''system_creation_date'' \<and> \<not> list_all (\<lambda>k. dgetn fp k = PNone) date_keys
           then Some ?d else if x \<in> set date_keys then None else map_of fp x)"
        using f(3) False by (simp add: dict_simps)
    qed
  qed
qed

lemma mergeable_dated:
  assumes "fp_keyed fact_value_ok N g fp"
  shows "dated (AList.update SOURCES_KEY v fp)"
proof -
  from assms have ok: "fp_ok N g fp" and val: "\<And>k. plain_key k \<Longrightarrow> fact_value_ok k (dgetn fp k)"
    by (auto simp: fp_keyed_def)
  note m = fp_ok_meta [OF ok]
  have dk: "k \<notin> set special_keys \<and> plain_key k \<and> k \<noteq> SOURCES_KEY" if "k \<in> set date_keys" for k
    using that by (auto simp: date_keys_def special_keys_def plain_key_def fp_keys)
  have "map_of (AList.update SOURCES_KEY v fp) META_DATA_KEY = Some (PDict (fp_meta fp))"
    using m(1) special_differ by (simp add: dict_simps)
  moreover have "\<forall>k \<in> set date_keys. has_key (AList.update SOURCES_KEY v fp) k \<longrightarrow> has_key (fp_meta fp) k"
    using m(4) dk by (simp add: dict_simps)
  moreover have "\<forall>k \<in> set date_keys. \<not> truthy (dgetn (AList.update SOURCES_KEY v fp) k) \<or>
      is_str (dgetn (AList.update SOURCES_KEY v fp) k)"
    using val dk by (auto simp: dict_simps fact_value_ok_def)
  ultimately show ?thesis
    unfolding dated_def using m(2,3) fp_ok_rest(1) [OF ok] by blast
qed

definition ready_for_report :: "fingerprint \<Rightarrow> bool" where
  "ready_for_report fp \<longleftrightarrow> (\<exists>N. fp_keyed fact_value_ok N False fp)"

lemma post_process_one:
  assumes "ready_for_report fp"
  obtains fp' where "bind_res (ditem fp SOURCES_KEY) (\<lambda>ss. bind_res (vvalues ss) (\<lambda>vs.
      compute_system_creation_time (AList.update SOURCES_KEY (PList vs) fp))) = Return fp'" and "fp_final fp'"
    and "map_of fp' SOURCES_KEY = Some (PList (map snd (fp_sources fp)))"
proof -
  from assms obtain N where N: "fp_keyed fact_value_ok N False fp" by (auto simp: ready_for_report_def)
  then have ok: "fp_ok N False fp" by (simp add: fp_keyed_def)
  let ?fp = "AList.update SOURCES_KEY (PList (map snd (fp_sources fp))) fp"
  obtain fp' where r: "compute_system_creation_time ?fp = Return fp'" "wf_dict fp'"
    "\<exists>m. map_of fp' META_DATA_KEY = Some (PDict m) \<and> wf_dict m"
    "\<forall>x. x \<noteq> META_DATA_KEY \<longrightarrow> map_of fp' x =
      (if x = ''system_creation_date'' \<and> \<not> list_all (\<lambda>k. dgetn ?fp k = PNone) date_keys
       then Some (last_date RAW_DATE_KEYS ?fp PNone) else if x \<in> set date_keys then None else map_of ?fp x)"
    by (rule creation_time_ok [OF mergeable_dated [OF N, of "PList (map snd (fp_sources fp))"]])
  have ne: "SOURCES_KEY \<noteq> META_DATA_KEY" "SOURCES_KEY \<noteq> ''system_creation_date''" "SOURCES_KEY \<notin> set date_keys"
    "GLOBAL_ID_KEY \<noteq> META_DATA_KEY" "GLOBAL_ID_KEY \<noteq> ''system_creation_date''" "GLOBAL_ID_KEY \<noteq> SOURCES_KEY"
    "META_DATA_KEY \<notin> set date_keys" "''system_creation_date'' \<notin> set date_keys"
    by (simp_all add: date_keys_def fp_keys)
  have src: "map_of fp' SOURCES_KEY = Some (PList (map snd (fp_sources fp)))"
    using r(4) ne by (simp add: dict_simps)
  have "\<not> has_key fp' GLOBAL_ID_KEY"
    using r(4) ne fp_ok_rest(9) [OF ok] by (simp add: has_key_map_of dict_simps split: if_splits)
  moreover have "\<not> has_key fp' k" if "k \<in> set date_keys" for k
  proof -
    have "k \<noteq> META_DATA_KEY" "k \<noteq> ''system_creation_date''" using that ne(7,8) by blast+
    then show ?thesis using r(4) that by (simp add: has_key_map_of)
  qed
  ultimately have "fp_final fp'"
    using r(2,3) src by (auto simp: fp_final_def list_all_iff)
  moreover have "bind_res (ditem fp SOURCES_KEY) (\<lambda>ss. bind_res (vvalues ss) (\<lambda>vs.
      compute_system_creation_time (AList.update SOURCES_KEY (PList vs) fp))) = Return fp'"
    using fp_ok_rest(2) [OF ok] r(1) by (simp add: ditem_def)
  ultimately show ?thesis using that src by blast
qed

lemma post_process_total:
  "list_all ready_for_report fps \<Longrightarrow>
    \<exists>r. post_process_merged_fingerprints fps = Return r \<and> list_all fp_final r \<and>
      map (\<lambda>fp. map_of fp SOURCES_KEY) r = map (\<lambda>fp. Some (PList (map snd (fp_sources fp)))) fps"
proof (induction fps)
  case Nil
  then show ?case by (simp add: post_process_merged_fingerprints_def)
next
  case (Cons fp fps)
  then obtain r where r: "post_process_merged_fingerprints fps = Return r" "list_all fp_final r"
    "map (\<lambda>fp. map_of fp SOURCES_KEY) r = map (\<lambda>fp. Some (PList (map snd (fp_sources fp)))) fps" by auto
  have "ready_for_report fp" using Cons.prems by simp
  then obtain fp' where "bind_res (ditem fp SOURCES_KEY) (\<lambda>ss. bind_res (vvalues ss) (\<lambda>vs.
      compute_system_creation_time (AList.update SOURCES_KEY (PList vs) fp))) = Return fp'" "fp_final fp'"
    "map_of fp' SOURCES_KEY = Some (PList (map snd (fp_sources fp)))"
    by (rule post_process_one)
  with r show ?case by (simp add: post_process_merged_fingerprints_def)
qed

lemma map_res_append:
  "map_res f (xs @ ys) = bind_res (map_res f xs) (\<lambda>as. bind_res (map_res f ys) (\<lambda>bs. Return (as @ bs)))"
proof (induction xs)
  case Nil
  then show ?case by (cases "map_res f ys") simp_all
next
  case (Cons x xs)
  then show ?case by (cases "f x"; cases "map_res f xs"; cases "map_res f ys") simp_all
qed

lemma mergeable_report: "fp_mergeable N fp \<Longrightarrow> ready_for_report fp"
  by (auto simp: fp_mergeable_def ready_for_report_def fp_keyed_def mergeable_value_def)

definition unmerged :: "fingerprint_map \<Rightarrow> fingerprint list" where
  "unmerged m = dget m ''openshift'' [] @ dget m ''ansible'' [] @ dget m ''rhacs'' []"

lemma map_ready_report:
  assumes "map_ready m" and "list_all (\<lambda>(s, fps). list_all no_mac_dict fps) m"
  shows "list_all ready_for_report (dget m s [])"
  using map_ready_kind [OF assms, of s] mergeable_report by (auto simp: list_all_iff)

section \<open>Samples\<close>

definition sample_report_source :: "string \<Rightarrow> pyval list \<Rightarrow> pydict" where
  "sample_report_source ty facts =
     [(''server_id'', PStr ''server''), (''source_name'', PStr ty), (''source_type'', PStr ty),
      (''facts'', PList facts)]"

definition sample_report :: "pydict list" where
  "sample_report =
     [sample_report_source ''network''
        [PDict [(''uname_hostname'', PStr ''web''), (''cpu_count'', PInt 4), (''dmi_system_uuid'', PStr ''u-1''),
                (''date_machine_id'', PStr ''2020-01-02''), (''ifconfig_mac_addresses'', PList [PStr ''AA:01''])]],
      sample_report_source ''vcenter''
        [PDict [(''vm.name'', PStr ''web''), (''vm.uuid'', PStr ''u-1''), (''vm.cpu_count'', PInt 8)]],
      sample_report_source ''rhacs'' [PDict []]]"

definition sample_uuid :: "nat \<Rightarrow> nat \<Rightarrow> string" where
  "sample_uuid i n = show_nat i @ ''-'' @ show_nat n"

lemma sample_collected:
  "returns (\<lambda>m. list_all (\<lambda>(s, fps). list_all no_mac_dict fps) m \<and> length (unmerged m) = 1)
     (collect_sources sample_report)"
  by code_simp

definition sample_dates :: fingerprint where
  "sample_dates =
     [(META_DATA_KEY, PDict
        [(''date_anaconda_log'', PDict [(''source_type'', PStr ''network''), (''source_name'', PStr ''n'')]),
         (''date_machine_id'', PDict [(''source_type'', PStr ''network''), (''source_name'', PStr ''n'')])]),
      (''date_anaconda_log'', PStr ''2019-05-06''), (''date_machine_id'', PStr ''unknown'')]"

section \<open>Properties\<close>

text \<open>
  C26. Every fingerprint a source of any kind contributes is well-formed: metadata with the source of
  every fact, entitlements, products with the names its kind of source detects, its own source,
  identifiers that are texts or missing, and no internal id; a source contributes at most one
  fingerprint per element of its facts.
\<close>

theorem source_fingerprints_well_formed:
  "if_returns (\<lambda>fps. list_all (fp_ready (names_of (py_str (dgetn source ''source_type'')))) fps \<and>
     if_returns (\<lambda>raws. length fps \<le> length raws) (py_iter (dgetn source ''facts''))) (process_source source)"
proof (cases "process_source source")
  case (Return fps)
  then obtain raws fpss where r: "map_of source ''facts'' \<noteq> None" "py_iter (dgetn source ''facts'') = Return raws"
    "map_res (process_fact source) raws = Return fpss" "fps = concat fpss"
    by (auto simp: process_source_def res_simps ditem_Return_iff)
  have one: "length x \<le> 1" if "x \<in> set fpss" for x
  proof -
    from map_res_set [OF r(3) that] obtain raw where "process_fact source raw = Return x" by blast
    then show ?thesis
      by (cases raw) (auto simp: process_fact_def Let_def split: if_splits res.splits)
  qed
  have "length (concat fpss) \<le> length fpss" using one
  proof (induction fpss)
    case (Cons a fpss)
    then have "length a \<le> 1" "length (concat fpss) \<le> length fpss" by simp_all
    then show ?case by simp
  qed simp
  moreover have "length fpss = length raws" using r(3) by (induction raws arbitrary: fpss) (auto simp: res_simps)
  ultimately show ?thesis
    using process_source_ready [of source] Return r(2,4) by simp
qed simp

text \<open>
  C7. The engine cannot fail once the facts of every source could be processed and no MAC addresses
  are a dict: de-duplication, both merges and the computation of the creation date succeed for any
  such fingerprints and any supply of ids. Every resulting fingerprint has its metadata, a list of
  sources, no internal id and no raw date left, and the last ones are those of OpenShift, Ansible
  and RHACS, in order, each with the sources it had.
\<close>

theorem engine_total:
  assumes "collect_sources source_list = Return m" and "list_all (\<lambda>(s, fps). list_all no_mac_dict fps) m"
  shows "\<exists>r1 r2. process_sources uuid source_list = Return (r1 @ r2) \<and> list_all fp_final (r1 @ r2) \<and>
    map (\<lambda>fp. map_of fp SOURCES_KEY) r2 = map (\<lambda>fp. Some (PList (map snd (fp_sources fp)))) (unmerged m)"
proof -
  have ready: "map_ready m" using collect_sources_ready [of source_list] assms(1) by simp
  obtain r where r: "combine_fingerprints uuid m = Return (r @ unmerged m)"
    "list_all (\<lambda>fp. \<exists>N. fp_mergeable N fp) r"
    unfolding unmerged_def by (rule combine_total [OF ready assms(2)])
  have "list_all ready_for_report r" using r(2) mergeable_report by (auto simp: list_all_iff)
  from post_process_total [OF this] obtain r1 where
    r1: "post_process_merged_fingerprints r = Return r1" "list_all fp_final r1" by blast
  have "list_all ready_for_report (unmerged m)"
    using map_ready_report [OF ready assms(2)] by (simp add: unmerged_def)
  from post_process_total [OF this] obtain r2 where
    r2: "post_process_merged_fingerprints (unmerged m) = Return r2" "list_all fp_final r2"
      "map (\<lambda>fp. map_of fp SOURCES_KEY) r2 = map (\<lambda>fp. Some (PList (map snd (fp_sources fp)))) (unmerged m)" by blast
  have "process_sources uuid source_list = Return (r1 @ r2)"
    using r1(1) r2(1)
    by (simp add: process_sources_def assms(1) r(1) post_process_merged_fingerprints_def map_res_append)
  with r1(2) r2(2,3) show ?thesis by auto
qed

theorem engine_total_witness:
  "\<exists>r. process_sources sample_uuid sample_report = Return r \<and> list_all fp_final r \<and> length r \<ge> 1"
proof -
  from sample_collected obtain m where m: "collect_sources sample_report = Return m"
    "list_all (\<lambda>(s, fps). list_all no_mac_dict fps) m" and l: "length (unmerged m) = 1"
    unfolding returns_conv by blast
  from engine_total [OF m, of sample_uuid] obtain r1 r2 where
    r: "process_sources sample_uuid sample_report = Return (r1 @ r2)" "list_all fp_final (r1 @ r2)"
      "map (\<lambda>fp. map_of fp SOURCES_KEY) r2 = map (\<lambda>fp. Some (PList (map snd (fp_sources fp)))) (unmerged m)"
    by blast
  from r(3) l have "length r2 = 1" by (metis length_map)
  with r(1,2) show ?thesis by (intro exI [of _ "r1 @ r2"]) simp
qed

text \<open>
  The creation date of a system is the one of the last date key that has a value at all, in the
  order of accuracy of \<open>RAW_DATE_KEYS\<close>, and \<open>None\<close> if that one value cannot be parsed; all raw
  dates are removed, and every other fact is kept. Without any raw date the fingerprint keeps the
  creation date it has.
\<close>

lemma creation_date_of_last_key:
  assumes "dated fp"
  shows "\<exists>fp'. compute_system_creation_time fp = Return fp' \<and>
    list_all (\<lambda>k. \<not> has_key fp' k) date_keys \<and>
    dgetn fp' ''system_creation_date'' = last_date RAW_DATE_KEYS fp (dgetn fp ''system_creation_date'') \<and>
    (\<forall>k. k \<notin> {META_DATA_KEY, ''system_creation_date''} \<union> set date_keys \<longrightarrow> map_of fp' k = map_of fp k)"
proof -
  have ne: "META_DATA_KEY \<notin> set date_keys" "''system_creation_date'' \<notin> set date_keys"
    "''system_creation_date'' \<noteq> META_DATA_KEY"
    by (simp_all add: date_keys_def fp_keys)
  obtain fp' where r: "compute_system_creation_time fp = Return fp'"
    "\<forall>x. x \<noteq> META_DATA_KEY \<longrightarrow> map_of fp' x =
      (if x = ''system_creation_date'' \<and> \<not> list_all (\<lambda>k. dgetn fp k = PNone) date_keys
       then Some (last_date RAW_DATE_KEYS fp PNone)
       else if x \<in> set date_keys then None else map_of fp x)"
    by (rule creation_time_ok [OF assms])
  have gone: "list_all (\<lambda>k. \<not> has_key fp' k) date_keys"
    unfolding list_all_iff
  proof
    fix k
    assume k: "k \<in> set date_keys"
    then have "k \<noteq> META_DATA_KEY" "k \<noteq> ''system_creation_date''" using ne by blast+
    then show "\<not> has_key fp' k" using r(2) k by (simp add: has_key_map_of)
  qed
  have "dgetn fp' ''system_creation_date'' = last_date RAW_DATE_KEYS fp (dgetn fp ''system_creation_date'')"
  proof (cases "list_all (\<lambda>k. dgetn fp k = PNone) date_keys")
    case True
    then have "filter (\<lambda>(k, _). dgetn fp k \<noteq> PNone) RAW_DATE_KEYS = []"
      by (simp add: RAW_DATE_KEYS_def date_keys_def)
    then have "last_date RAW_DATE_KEYS fp d = d" for d by (simp add: last_date_def)
    with True r(2) ne show ?thesis by (simp add: dget_def)
  next
    case False
    then have "filter (\<lambda>(k, _). dgetn fp k \<noteq> PNone) RAW_DATE_KEYS \<noteq> []"
      by (auto simp: RAW_DATE_KEYS_def date_keys_def)
    then have "last_date RAW_DATE_KEYS fp (dgetn fp ''system_creation_date'') = last_date RAW_DATE_KEYS fp PNone"
      by (simp add: last_date_def Let_def)
    moreover have "map_of fp' ''system_creation_date'' = Some (last_date RAW_DATE_KEYS fp PNone)"
      using False r(2) ne by simp
    ultimately show ?thesis by simp
  qed
  moreover have "\<forall>k. k \<notin> {META_DATA_KEY, ''system_creation_date''} \<union> set date_keys \<longrightarrow> map_of fp' k = map_of fp k"
    using r(2) by simp
  ultimately show ?thesis using r(1) gone by blast
qed

lemma creation_date_of_last_key_example:
  "\<exists>fp'. compute_system_creation_time sample_dates = Return fp' \<and> dgetn fp' ''system_creation_date'' = PNone"
proof -
  let ?m = "[(''date_anaconda_log'', PDict [(''source_type'', PStr ''network''), (''source_name'', PStr ''n'')]),
         (''date_machine_id'', PDict [(''source_type'', PStr ''network''), (''source_name'', PStr ''n'')])]"
  have "dated sample_dates"
    unfolding dated_def
  proof (intro conjI exI [of _ ?m])
    show "\<forall>k v. map_of ?m k = Some v \<longrightarrow> meta_entry v" by (auto simp: has_key_def)
  qed (simp_all add: sample_dates_def wf_dict_def fp_keys date_keys_def has_key_def dget_def)
  from creation_date_of_last_key [OF this] obtain fp' where
    "compute_system_creation_time sample_dates = Return fp'"
    "dgetn fp' ''system_creation_date'' = last_date RAW_DATE_KEYS sample_dates (dgetn sample_dates ''system_creation_date'')"
    by blast
  moreover have "last_date RAW_DATE_KEYS sample_dates (dgetn sample_dates ''system_creation_date'') = PNone"
    by code_simp
  ultimately show ?thesis by simp
qed

text \<open>
  A source of an unknown type aborts the whole report with a \<open>KeyError\<close>, although
  \<open>_process_source\<close> logs it and goes on: whatever the other sources are, nothing comes out.
\<close>

lemma unknown_source_type_aborts:
  assumes "collect_sources before = Return m" and "dgetn source ''source_type'' = PStr s"
    and "s \<notin> set data_sources" and "dgetn source ''facts'' = PList []"
  shows "process_source source = Return [] \<and> process_sources uuid (before @ source # after) = Raise KeyError"
proof -
  have "map_of source ''facts'' = Some (PList [])"
    using assms(4) by (auto simp: dget_def split: option.splits)
  then have one: "process_source source = Return []"
    by (simp add: process_source_def ditem_def)
  have "map fst m = data_sources"
    using collect_sources_ready [of before] assms(1) by (simp add: map_ready_def)
  then have "s \<notin> fst ` set m" using assms(3) by (metis set_map)
  then have "map_of m s = None" by (simp add: map_of_eq_None_iff)
  then have "collect_source source m = Raise KeyError"
    by (simp add: collect_source_def one assms(2) as_key_def ditem_def)
  then have "process_sources uuid (before @ source # after) = Raise KeyError"
    using assms(1) by (simp add: process_sources_def collect_sources_def fold_res_append)
  with one show ?thesis by simp
qed

lemma unknown_source_type_aborts_example:
  "process_sources sample_uuid (sample_report @ [sample_report_source ''acs'' []]) = Raise KeyError"
proof -
  from sample_collected obtain m where "collect_sources sample_report = Return m"
    unfolding returns_conv by blast
  from unknown_source_type_aborts [OF this, of "sample_report_source ''acs'' []" "''acs''" sample_uuid "[]"]
  show ?thesis by (simp add: sample_report_source_def dget_def data_sources_def)
qed

text \<open>
  A source whose raw facts are \<open>None\<close>, as the query gives it for a group of results without any
  raw fact, aborts the whole report with a \<open>TypeError\<close>.
\<close>

lemma missing_facts_abort:
  assumes "collect_sources before = Return m" and "map_of source ''facts'' = Some PNone"
  shows "process_sources uuid (before @ source # after) = Raise TypeError"
  using assms
  by (simp add: process_sources_def collect_sources_def fold_res_append collect_source_def process_source_def ditem_def)

lemma missing_facts_abort_example:
  "process_sources sample_uuid (sample_report @ [[(''source_type'', PStr ''network''), (''facts'', PNone)]]) =
     Raise TypeError"
proof -
  from sample_collected obtain m where "collect_sources sample_report = Return m"
    unfolding returns_conv by blast
  from missing_facts_abort [OF this, of "[(''source_type'', PStr ''network''), (''facts'', PNone)]" sample_uuid "[]"]
  show ?thesis by simp
qed

end
