(* ===== verification/Report_Sources.thy ===== *)
theory Report_Sources
  imports Scan_Store
begin

text \<open>
  What a report reads from the database: \<open>Report.sources\<close> with the query
  \<open>InspectGroupQuerySet.with_raw_facts\<close>, and \<open>Report.cannot_download_reason\<close>
  (\<open>api/report/model.py\<close>, \<open>api/inspectresult/model.py\<close>).

  The query joins results with their raw facts, so a result without a raw fact does not appear,
  and a group none of whose results has one gets NULL instead of a list. Groups and results come
  in creation order.
\<close>

definition report_groups :: "report \<Rightarrow> db \<Rightarrow> inspect_group list" where
  "report_groups r d = filter (\<lambda>g. ig_id g \<in> set (re_inspect_groups r)) (inspect_groups d)"

definition group_results :: "inspect_group \<Rightarrow> db \<Rightarrow> inspect_result list" where
  "group_results g d = filter (\<lambda>x. ir_inspect_group x = ig_id g) (inspect_results d)"

definition with_raw_facts :: "inspect_group \<Rightarrow> db \<Rightarrow> pyval" where
  "with_raw_facts g d =
     (let raw_agg = filter (\<lambda>x. ir_facts x \<noteq> []) (group_results g d)
      in if raw_agg = [] then PNone else PList (map (\<lambda>x. PDict (ir_facts x)) raw_agg))"

definition report_source :: "db \<Rightarrow> inspect_group \<Rightarrow> pydict" where
  "report_source d g =
     [(''server_id'', PStr (ig_server_id g)), (''report_version'', PStr (ig_server_version g)),
      (''source_name'', PStr (ig_source_name g)), (''source_type'', PStr (ig_source_type g)),
      (''facts'', with_raw_facts g d)]"

definition report_sources :: "report \<Rightarrow> db \<Rightarrow> pydict list" where
  "report_sources r d = map (report_source d) (report_groups r d)"

datatype cannot_download = NO_DEPLOYMENT | DOWNLOAD_PENDING | DOWNLOAD_FAILED

definition cannot_download_reason :: "report \<Rightarrow> db \<Rightarrow> cannot_download option" where
  "cannot_download_reason r d =
     (case Option.bind (re_deployment_report r) (\<lambda>i. get_deployment i d) of
        None \<Rightarrow> Some NO_DEPLOYMENT
      | Some dr \<Rightarrow>
          (case dr_status dr of
             STATUS_PENDING \<Rightarrow> Some DOWNLOAD_PENDING
           | STATUS_FAILED \<Rightarrow> Some DOWNLOAD_FAILED
           | STATUS_COMPLETE \<Rightarrow> None))"

definition can_download :: "report \<Rightarrow> db \<Rightarrow> bool" where
  "can_download r d \<longleftrightarrow> cannot_download_reason r d = None"

end
