(* ===== verification/Aggregate_Report.thy ===== *)
theory Aggregate_Report
  imports Fingerprint_Engine Report_Sources
begin

text \<open>
  The aggregate report: \<open>api/aggregate_report/model.py\<close> and \<open>average_date\<close> of
  \<open>utils/datetime.py\<close>. The counters of the row are those of the record \<open>aggregate_report\<close>; the
  local accumulators of each function are a state record. Values a Python set or dict holds are
  told apart as in \<open>as_key\<close>.
\<close>

section \<open>Averages of dates\<close>

text \<open>A date plus a \<open>timedelta\<close> moves by its whole days.\<close>

definition average_date :: "nat option list \<Rightarrow> nat option" where
  "average_date all_dates =
     (let dates = map the (filter (\<lambda>x. x \<noteq> None) all_dates)
      in if dates = [] then None
         else
           (let oldest = fold min (tl dates) (hd dates);
                sum_delta_since_oldest = sum_list (map (\<lambda>x. x - oldest) dates)
            in Some (oldest + nat \<lfloor>(of_nat sum_delta_since_oldest / of_nat (length dates)) :: rat\<rfloor>)))"

section \<open>From fingerprints\<close>

definition UNKNOWN_NAME :: string where "UNKNOWN_NAME = ''unknown''"

definition or_unknown :: "string option \<Rightarrow> string" where
  "or_unknown v = (case v of None \<Rightarrow> UNKNOWN_NAME | Some s \<Rightarrow> if s = [] then UNKNOWN_NAME else s)"

fun has_text :: "string option \<Rightarrow> bool" where
  "has_text None = False"
| "has_text (Some s) = (s \<noteq> [])"

fun has_number :: "nat option \<Rightarrow> bool" where
  "has_number None = False"
| "has_number (Some n) = (n \<noteq> 0)"

fun float_add :: "pyfloat \<Rightarrow> pyfloat \<Rightarrow> pyfloat" where
  "float_add (Fin a) (Fin b) = clip_float (a + b)"
| "float_add NaN _ = NaN"
| "float_add _ NaN = NaN"
| "float_add PosInf NegInf = NaN"
| "float_add NegInf PosInf = NaN"
| "float_add PosInf _ = PosInf"
| "float_add NegInf _ = NegInf"
| "float_add _ x = x"

text \<open>\<open>cpu_core_count or 0\<close>\<close>

definition core_count :: "system_fingerprint \<Rightarrow> pyfloat" where
  "core_count fp = (case sf_cpu_core_count fp of None \<Rightarrow> Fin 0 | Some c \<Rightarrow> c)"

definition product_present :: "system_fingerprint \<Rightarrow> string \<Rightarrow> bool" where
  "product_present fp name =
     dget (fold (\<lambda>p. AList.update (pr_name p) (pr_presence p = ''present'')) (sf_products fp) []) name False"

record fingerprint_tally =
  ft_os :: "(string \<times> (string \<times> nat) list) list"
  ft_dates :: "nat option list"
  ft_vms_by_host :: "(string \<times> string list) list"
  ft_agg :: aggregate_report

definition count_os :: "system_fingerprint \<Rightarrow> (string \<times> (string \<times> nat) list) list \<Rightarrow> (string \<times> (string \<times> nat) list) list" where
  "count_os fp os =
     (let name = or_unknown (sf_os_name fp); version = or_unknown (sf_os_version fp); versions = dget os name []
      in AList.update name (AList.update version (dget versions version 0 + 1) versions) os)"

definition source_types :: "system_fingerprint \<Rightarrow> pyval list res" where
  "source_types fp =
     bind_res (py_iter (sf_sources fp)) (map_res (\<lambda>source. vget source ''source_type'' PNone))"

definition tally_missing :: "system_fingerprint \<Rightarrow> bool \<Rightarrow> aggregate_report \<Rightarrow> aggregate_report" where
  "tally_missing fp network_or_satellite a =
     a\<lparr>missing_cpu_core_count :=
         missing_cpu_core_count a + (if core_count fp = Fin 0 \<and> network_or_satellite then 1 else 0),
       missing_cpu_socket_count :=
         missing_cpu_socket_count a + (if has_number (sf_cpu_socket_count fp) then 0 else 1),
       missing_name := missing_name a + (if has_text (sf_name fp) then 0 else 1),
       missing_system_creation_date :=
         missing_system_creation_date a + (if sf_system_creation_date fp = None then 1 else 0)\<rparr>"

definition tally_infrastructure :: "system_fingerprint \<Rightarrow> aggregate_report \<Rightarrow> aggregate_report" where
  "tally_infrastructure fp a =
     (let eap = product_present fp ''JBoss EAP''; ws = product_present fp ''JBoss Web Server'';
          eap_cores = (if eap then core_count fp else Fin 0); ws_cores = (if ws then core_count fp else Fin 0);
          kind = PStr (sf_infrastructure_type fp);
          b = (if kind = VIRTUALIZED then
                 a\<lparr>instances_virtual := instances_virtual a + 1,
                   jboss_eap_cores_virtual := float_add (jboss_eap_cores_virtual a) eap_cores,
                   jboss_ws_cores_virtual := float_add (jboss_ws_cores_virtual a) ws_cores\<rparr>
               else if kind = BARE_METAL then
                 a\<lparr>instances_physical := instances_physical a + 1,
                   jboss_eap_cores_physical := float_add (jboss_eap_cores_physical a) eap_cores,
                   jboss_ws_cores_physical := float_add (jboss_ws_cores_physical a) ws_cores\<rparr>
               else if kind = HYPERVISOR then a\<lparr>instances_hypervisor := instances_hypervisor a + 1\<rparr>
               else a\<lparr>instances_unknown := instances_unknown a + 1\<rparr>)
      in b\<lparr>jboss_eap_instances := jboss_eap_instances b + (if eap then 1 else 0),
           jboss_ws_instances := jboss_ws_instances b + (if ws then 1 else 0)\<rparr>)"

text \<open>\<open>ceil(n / 2)\<close> of a socket count, and what only some kinds of sources have.\<close>

definition tally_sources :: "system_fingerprint \<Rightarrow> pyval list \<Rightarrow> aggregate_report \<Rightarrow> aggregate_report" where
  "tally_sources fp types a =
     (let network = PStr ''network'' \<in> set types; openshift = PStr ''openshift'' \<in> set types
      in a\<lparr>socket_pairs :=
             socket_pairs a + (case sf_cpu_socket_count fp of None \<Rightarrow> 0 | Some n \<Rightarrow> (n + 1) div 2),
           missing_system_purpose :=
             missing_system_purpose a + (if network \<and> \<not> has_text (sf_system_purpose fp) then 1 else 0),
           missing_pem_files :=
             missing_pem_files a + (if network \<and> \<not> has_text (sf_redhat_certs fp) then 1 else 0),
           openshift_cores :=
             openshift_cores a + (if openshift then case sf_cpu_count fp of None \<Rightarrow> 0 | Some n \<Rightarrow> n else 0)\<rparr>)"

definition add_vm :: "system_fingerprint \<Rightarrow> (string \<times> string list) list \<Rightarrow> (string \<times> string list) list" where
  "add_vm fp vms =
     (case (sf_vm_cluster fp, sf_virtual_host_uuid fp) of
        (Some cluster, Some host) \<Rightarrow>
          if cluster \<noteq> [] \<and> host \<noteq> [] then AList.update cluster (dget vms cluster [] @ [host]) vms else vms
      | _ \<Rightarrow> vms)"

definition aggregate_fingerprint :: "system_fingerprint \<Rightarrow> fingerprint_tally \<Rightarrow> fingerprint_tally res" where
  "aggregate_fingerprint fp s =
     bind_res (source_types fp) (\<lambda>types.
       let has = (\<lambda>t. PStr t \<in> set types); a = ft_agg s; s1 = s\<lparr>ft_os := count_os fp (ft_os s)\<rparr>
       in Return
            (if \<not> (sf_is_redhat fp = Some True \<or> has ''openshift'' \<or> has ''satellite'')
             then s1\<lparr>ft_agg := a\<lparr>instances_not_redhat := instances_not_redhat a + 1\<rparr>\<rparr>
             else
               s1\<lparr>ft_dates := ft_dates s @
                    (if sf_system_creation_date fp = None then [] else [sf_system_creation_date fp]),
                  ft_agg := tally_sources fp types (tally_infrastructure fp
                    (tally_missing fp (has ''network'' \<or> has ''satellite'') a)),
                  ft_vms_by_host := (if has ''vcenter'' then add_vm fp (ft_vms_by_host s) else ft_vms_by_host s)\<rparr>))"

definition aggregate_vmware :: "(string \<times> string list) list \<Rightarrow> aggregate_report \<Rightarrow> aggregate_report" where
  "aggregate_vmware vms_by_host a =
     (if vms_by_host = [] then a
      else
        (let vm_count = sum_list (map (\<lambda>(_, items). length (remdups items)) vms_by_host);
             host_count = length vms_by_host
         in a\<lparr>vmware_vms := vm_count, vmware_vm_to_host_ratio := of_nat vm_count / of_nat host_count,
              vmware_hosts := host_count\<rparr>))"

definition aggregate_from_system_fingerprints ::
  "system_fingerprint list \<Rightarrow> aggregate_report \<Rightarrow> aggregate_report res" where
  "aggregate_from_system_fingerprints fingerprints a =
     bind_res (fold_res aggregate_fingerprint fingerprints
         \<lparr>ft_os = [], ft_dates = [], ft_vms_by_host = [], ft_agg = a\<rparr>) (\<lambda>s.
       Return (aggregate_vmware (ft_vms_by_host s)
         ((ft_agg s)\<lparr>os_by_name_and_version := ft_os s,
            system_creation_date_average := average_date (ft_dates s)\<rparr>)))"

section \<open>From inspect results\<close>

definition count_result :: "inspect_result \<Rightarrow> aggregate_report \<Rightarrow> aggregate_report" where
  "count_result r a =
     (case ir_status r of
        Some SUCCESS \<Rightarrow> a\<lparr>inspect_result_status_success := inspect_result_status_success a + 1\<rparr>
      | Some CONN_FAILED \<Rightarrow> a\<lparr>inspect_result_status_failed := inspect_result_status_failed a + 1\<rparr>
      | Some UNREACHABLE \<Rightarrow> a\<lparr>inspect_result_status_unreachable := inspect_result_status_unreachable a + 1\<rparr>
      | None \<Rightarrow> a\<lparr>inspect_result_status_unknown := inspect_result_status_unknown a + 1\<rparr>)"

definition aggregate_from_inspect_results :: "inspect_result list \<Rightarrow> aggregate_report \<Rightarrow> aggregate_report" where
  "aggregate_from_inspect_results results a = fold count_result results a"

section \<open>From raw facts\<close>

record fact_tally =
  rt_database :: "pyval list"
  rt_jobs :: "pyval list"
  rt_by_name :: "(pyval \<times> nat) list"
  rt_by_kind :: "(pyval \<times> nat) list"
  rt_agg :: aggregate_report

definition count_key :: "pyval \<Rightarrow> (pyval \<times> nat) list \<Rightarrow> (pyval \<times> nat) list res" where
  "count_key v counts = bind_res (as_key v) (\<lambda>k. Return (AList.update k (dget counts k 0 + 1) counts))"

definition aggregate_ansible_fact :: "pydict \<Rightarrow> fact_tally \<Rightarrow> fact_tally res" where
  "aggregate_ansible_fact raw_fact s =
     bind_res (py_iter (dget raw_fact ''hosts'' (PList []))) (\<lambda>hosts.
     bind_res (map_res (\<lambda>host. vget host ''name'' PNone) hosts) (\<lambda>names.
     bind_res (vget (dget raw_fact ''jobs'' (PDict [])) ''unique_hosts'' (PList [])) (\<lambda>unique_hosts.
     bind_res (py_iter unique_hosts) (\<lambda>job_hosts.
       Return (s\<lparr>rt_database := rt_database s @ filter truthy names, rt_jobs := rt_jobs s @ job_hosts\<rparr>)))))"

definition count_operator :: "pyval \<Rightarrow> fact_tally \<Rightarrow> fact_tally res" where
  "count_operator operator s =
     bind_res (vget operator ''kind'' (PStr UNKNOWN_NAME)) (\<lambda>kind.
     bind_res (count_key kind (rt_by_kind s)) (\<lambda>by_kind.
     bind_res (vget operator ''name'' (PStr UNKNOWN_NAME)) (\<lambda>name.
     bind_res (count_key name (rt_by_name s)) (\<lambda>by_name.
       Return (s\<lparr>rt_by_kind := by_kind, rt_by_name := by_name\<rparr>)))))"

definition count_openshift_instance :: "pydict \<Rightarrow> aggregate_report \<Rightarrow> aggregate_report res" where
  "count_openshift_instance raw_fact a =
     bind_res (vget (dget raw_fact ''cluster'' (PDict [])) ''kind'' PNone) (\<lambda>cluster.
       if cluster = PStr ''cluster'' then
         Return (a\<lparr>openshift_cluster_instances := openshift_cluster_instances a + 1\<rparr>)
       else
         bind_res (vget (dget raw_fact ''node'' (PDict [])) ''kind'' PNone) (\<lambda>node.
           Return (if node = PStr ''node''
             then a\<lparr>openshift_node_instances := openshift_node_instances a + 1\<rparr> else a)))"

definition aggregate_openshift_fact :: "pydict \<Rightarrow> fact_tally \<Rightarrow> fact_tally res" where
  "aggregate_openshift_fact raw_fact s =
     bind_res (count_openshift_instance raw_fact (rt_agg s)) (\<lambda>a.
     bind_res (py_iter (dget raw_fact ''operators'' (PList []))) (\<lambda>operators.
       fold_res count_operator operators (s\<lparr>rt_agg := a\<rparr>)))"

fun aggregate_raw_fact :: "pyval \<Rightarrow> pyval \<Rightarrow> fact_tally \<Rightarrow> fact_tally res" where
  "aggregate_raw_fact source_type (PDict raw_fact) s =
     (if source_type = PStr ''ansible'' then aggregate_ansible_fact raw_fact s
      else if source_type = PStr ''openshift'' then aggregate_openshift_fact raw_fact s
      else Return s)"
| "aggregate_raw_fact source_type _ s =
     (if source_type \<in> {PStr ''ansible'', PStr ''openshift''} then Raise AttributeError else Return s)"

definition aggregate_group :: "pyval \<times> pyval \<Rightarrow> fact_tally \<Rightarrow> fact_tally res" where
  "aggregate_group grp s =
     bind_res (py_iter (snd grp)) (\<lambda>raw_facts. fold_res (aggregate_raw_fact (fst grp)) raw_facts s)"

definition aggregate_from_raw_facts :: "(pyval \<times> pyval) list \<Rightarrow> aggregate_report \<Rightarrow> aggregate_report res" where
  "aggregate_from_raw_facts grouped_facts a =
     bind_res (fold_res aggregate_group grouped_facts
         \<lparr>rt_database = [], rt_jobs = [], rt_by_name = [], rt_by_kind = [], rt_agg = a\<rparr>) (\<lambda>s.
     bind_res (map_res as_key (rt_database s)) (\<lambda>in_database.
     bind_res (map_res as_key (rt_jobs s)) (\<lambda>in_jobs.
       let a1 = rt_agg s
       in Return (a1\<lparr>ansible_hosts_all := length (remdups (in_database @ in_jobs)),
            ansible_hosts_in_database := length (remdups in_database),
            ansible_hosts_in_jobs := length (remdups in_jobs),
            openshift_operators_by_kind := AList.updates (map fst (rt_by_kind s)) (map snd (rt_by_kind s))
              (openshift_operators_by_kind a1),
            openshift_operators_by_name := AList.updates (map fst (rt_by_name s)) (map snd (rt_by_name s))
              (openshift_operators_by_name a1)\<rparr>))))"

section \<open>Building the report\<close>

definition new_aggregate :: "nat \<Rightarrow> nat \<Rightarrow> aggregate_report" where
  "new_aggregate i report_id =
     \<lparr>ar_id = i, ar_report = report_id, ansible_hosts_all = 0, ansible_hosts_in_database = 0,
      ansible_hosts_in_jobs = 0, inspect_result_status_failed = 0, inspect_result_status_success = 0,
      inspect_result_status_unknown = 0, inspect_result_status_unreachable = 0, instances_hypervisor = 0,
      instances_not_redhat = 0, instances_physical = 0, instances_unknown = 0, instances_virtual = 0,
      jboss_eap_cores_physical = Fin 0, jboss_eap_cores_virtual = Fin 0, jboss_eap_instances = 0,
      jboss_ws_cores_physical = Fin 0, jboss_ws_cores_virtual = Fin 0, jboss_ws_instances = 0,
      missing_cpu_core_count = 0, missing_cpu_socket_count = 0, missing_name = 0, missing_pem_files = 0,
      missing_system_creation_date = 0, missing_system_purpose = 0, openshift_cores = 0,
      openshift_operators_by_name = [], openshift_operators_by_kind = [], os_by_name_and_version = [],
      socket_pairs = 0, system_creation_date_average = None, vmware_hosts = 0, vmware_vm_to_host_ratio = 0,
      vmware_vms = 0, openshift_cluster_instances = 0, openshift_node_instances = 0\<rparr>"

text \<open>The three passes over the fingerprints, the results and the raw facts of a report.\<close>

definition compute_aggregate :: "report \<Rightarrow> db \<Rightarrow> aggregate_report \<Rightarrow> aggregate_report res" where
  "compute_aggregate r d a =
     (case Option.bind (re_deployment_report r) (\<lambda>i. get_deployment i d) of
        None \<Rightarrow> Raise AttributeError
      | Some dr \<Rightarrow>
          bind_res (aggregate_from_system_fingerprints (dr_system_fingerprints dr) a) (\<lambda>a1.
            aggregate_from_raw_facts
              (map (\<lambda>s. (dgetn s ''source_type'', dgetn s ''facts'')) (report_sources r d))
              (aggregate_from_inspect_results (concat (map (\<lambda>g. group_results g d) (report_groups r d))) a1)))"

text \<open>
  \<open>current\<close> is the comparison \<open>report.updated_at <= aggregated.updated_at\<close> of the stored row. A
  failure leaves the fresh row behind, with all its counters zero.
\<close>

definition rebuild_aggregate :: "report \<Rightarrow> db \<Rightarrow> db \<times> aggregate_report res" where
  "rebuild_aggregate r d =
     (let a = new_aggregate (next_id d) (re_id r);
          d1 = d\<lparr>aggregate_reports := aggregate_reports d @ [a], next_id := next_id d + 1\<rparr>
      in case compute_aggregate r d1 a of
           Raise e \<Rightarrow> (d1, Raise e)
         | Return a' \<Rightarrow> (d1\<lparr>aggregate_reports := row_save ar_id a' (aggregate_reports d1)\<rparr>, Return a'))"

definition build_aggregate_report :: "bool \<Rightarrow> bool \<Rightarrow> nat \<Rightarrow> db \<Rightarrow> db \<times> aggregate_report res" where
  "build_aggregate_report current force_build report_id d =
     (case get_report report_id d of
        None \<Rightarrow> (d, Raise DoesNotExist)
      | Some r \<Rightarrow>
          (case find (\<lambda>a. ar_report a = report_id) (aggregate_reports d) of
             Some a \<Rightarrow>
               if current \<and> \<not> force_build then (d, Return a)
               else rebuild_aggregate r (d\<lparr>aggregate_reports :=
                 filter (\<lambda>a. ar_report a \<noteq> report_id) (aggregate_reports d)\<rparr>)
           | None \<Rightarrow> rebuild_aggregate r d))"

definition get_aggregate_report_by_report_id :: "bool \<Rightarrow> nat \<Rightarrow> db \<Rightarrow> db \<times> aggregate_report option res" where
  "get_aggregate_report_by_report_id current report_id d =
     (if get_report report_id d = None then (d, Return None)
      else (case build_aggregate_report current False report_id d of
              (d', Return a) \<Rightarrow> (d', Return (Some a))
            | (d', Raise e) \<Rightarrow> (d', Raise e)))"

section \<open>What the counters add up to\<close>

definition instances :: "aggregate_report \<Rightarrow> nat" where
  "instances a = instances_not_redhat a + instances_virtual a + instances_physical a +
     instances_hypervisor a + instances_unknown a"

definition results_total :: "aggregate_report \<Rightarrow> nat" where
  "results_total a = inspect_result_status_success a + inspect_result_status_failed a +
     inspect_result_status_unreachable a + inspect_result_status_unknown a"

definition count_total :: "('k \<times> nat) list \<Rightarrow> nat" where
  "count_total counts = sum_list (map snd counts)"

definition os_total :: "(string \<times> (string \<times> nat) list) list \<Rightarrow> nat" where
  "os_total os = sum_list (map (\<lambda>(_, versions). count_total versions) os)"

lemmas figures = instances_def results_total_def

lemma sum_update:
  fixes g :: "'b \<Rightarrow> nat"
  assumes "g w = 0"
  shows "sum_list (map (\<lambda>(_, v). g v) (AList.update k v xs)) + g (dget xs k w) =
     sum_list (map (\<lambda>(_, v). g v) xs) + g v"
  using assms by (induction xs) (auto simp: dget_def)

lemma count_total_step: "count_total (AList.update k (dget counts k 0 + 1) counts) = count_total counts + 1"
  using sum_update [of "\<lambda>n. n" 0 k "dget counts k 0 + 1" counts]
  by (simp add: count_total_def case_prod_beta')

lemma os_total_count: "os_total (count_os fp os) = os_total os + 1"
proof -
  let ?n = "or_unknown (sf_os_name fp)" and ?v = "or_unknown (sf_os_version fp)"
  let ?vs = "dget os ?n []"
  have "os_total (AList.update ?n (AList.update ?v (dget ?vs ?v 0 + 1) ?vs) os) + count_total ?vs =
      os_total os + (count_total ?vs + 1)"
    using sum_update [of count_total "[]" ?n "AList.update ?v (dget ?vs ?v 0 + 1) ?vs" os]
    by (simp add: os_total_def count_total_step [simplified]) (simp add: count_total_def)
  then show ?thesis by (simp add: count_os_def Let_def)
qed

lemma instances_tally:
  "instances (tally_sources fp types a) = instances a" "results_total (tally_sources fp types a) = results_total a"
  "instances (tally_missing fp b a) = instances a" "results_total (tally_missing fp b a) = results_total a"
  "instances (tally_infrastructure fp a) = instances a + 1"
  "results_total (tally_infrastructure fp a) = results_total a"
  by (simp_all add: figures tally_sources_def tally_missing_def tally_infrastructure_def Let_def)

lemma aggregate_fingerprint_step:
  "if_returns (\<lambda>s'. instances (ft_agg s') = instances (ft_agg s) + 1 \<and> os_total (ft_os s') = os_total (ft_os s) + 1 \<and>
     results_total (ft_agg s') = results_total (ft_agg s)) (aggregate_fingerprint fp s)"
proof -
  have "instances (a\<lparr>instances_not_redhat := instances_not_redhat a + 1\<rparr>) = instances a + 1"
    "results_total (a\<lparr>instances_not_redhat := instances_not_redhat a + 1\<rparr>) = results_total a" for a :: aggregate_report
    by (simp_all add: figures)
  then show ?thesis
    by (cases "source_types fp") (simp_all add: aggregate_fingerprint_def Let_def os_total_count instances_tally)
qed

lemma fold_aggregate_fingerprint:
  "if_returns (\<lambda>s'. instances (ft_agg s') = instances (ft_agg s) + length fps \<and>
     os_total (ft_os s') = os_total (ft_os s) + length fps \<and> results_total (ft_agg s') = results_total (ft_agg s))
     (fold_res aggregate_fingerprint fps s)"
proof (induction fps arbitrary: s)
  case Nil
  then show ?case by simp
next
  case (Cons fp fps)
  show ?case
  proof (cases "aggregate_fingerprint fp s")
    case (Return s1)
    then show ?thesis
      using aggregate_fingerprint_step [of s fp] Cons.IH [of s1] by (auto elim: if_returns_mono)
  qed simp
qed

lemma aggregate_fingerprints_figures:
  assumes "aggregate_from_system_fingerprints fps a = Return a'"
  shows "instances a' = instances a + length fps" "os_total (os_by_name_and_version a') = length fps"
    "results_total a' = results_total a"
proof -
  let ?s = "\<lparr>ft_os = [], ft_dates = [], ft_vms_by_host = [], ft_agg = a\<rparr>"
  from assms obtain s where s: "fold_res aggregate_fingerprint fps ?s = Return s"
    and a': "a' = aggregate_vmware (ft_vms_by_host s) ((ft_agg s)\<lparr>os_by_name_and_version := ft_os s,
            system_creation_date_average := average_date (ft_dates s)\<rparr>)"
    by (auto simp: aggregate_from_system_fingerprints_def res_simps)
  have "instances a' = instances (ft_agg s)" "os_by_name_and_version a' = ft_os s"
    "results_total a' = results_total (ft_agg s)"
    by (simp_all add: a' aggregate_vmware_def Let_def figures)
  with fold_aggregate_fingerprint [of ?s fps] s
  show "instances a' = instances a + length fps" "os_total (os_by_name_and_version a') = length fps"
    "results_total a' = results_total a"
    by (simp_all add: os_total_def)
qed

lemma aggregate_results_figures:
  "instances (aggregate_from_inspect_results rs a) = instances a"
  "os_by_name_and_version (aggregate_from_inspect_results rs a) = os_by_name_and_version a"
  "results_total (aggregate_from_inspect_results rs a) = results_total a + length rs"
proof -
  have step: "instances (count_result r b) = instances b" "os_by_name_and_version (count_result r b) = os_by_name_and_version b"
    "results_total (count_result r b) = results_total b + 1" for r b
    by (simp_all add: count_result_def figures split: option.splits conn_status.splits)
  show "instances (aggregate_from_inspect_results rs a) = instances a"
    "os_by_name_and_version (aggregate_from_inspect_results rs a) = os_by_name_and_version a"
    "results_total (aggregate_from_inspect_results rs a) = results_total a + length rs"
    unfolding aggregate_from_inspect_results_def
    by (induction rs arbitrary: a) (simp_all add: step)
qed

text \<open>The pass over the raw facts keeps those figures, and no pass changes the keys of the row.\<close>

definition row_keys :: "aggregate_report \<Rightarrow> nat \<times> nat" where
  "row_keys a = (ar_id a, ar_report a)"

definition same_figures :: "aggregate_report \<Rightarrow> aggregate_report \<Rightarrow> bool" where
  "same_figures a b \<longleftrightarrow> instances b = instances a \<and> results_total b = results_total a \<and>
     os_by_name_and_version b = os_by_name_and_version a \<and> row_keys b = row_keys a"

lemma same_figures_refl [simp]: "same_figures a a"
  by (simp add: same_figures_def)

lemma aggregate_fingerprint_keys:
  "if_returns (\<lambda>s'. row_keys (ft_agg s') = row_keys (ft_agg s)) (aggregate_fingerprint fp s)"
proof -
  have "row_keys (tally_sources fp types (tally_infrastructure fp (tally_missing fp b a))) = row_keys a" for types b a
    by (simp add: row_keys_def tally_sources_def tally_infrastructure_def tally_missing_def Let_def)
  then show ?thesis
    by (cases "source_types fp") (simp_all add: aggregate_fingerprint_def Let_def row_keys_def)
qed

lemma aggregate_fingerprints_keys:
  assumes "aggregate_from_system_fingerprints fps a = Return a'"
  shows "row_keys a' = row_keys a"
proof -
  let ?s = "\<lparr>ft_os = [], ft_dates = [], ft_vms_by_host = [], ft_agg = a\<rparr>"
  have "if_returns (\<lambda>s. row_keys (ft_agg s) = row_keys a) (fold_res aggregate_fingerprint fps ?s)"
  proof (rule if_returns_fold)
    fix x and s :: fingerprint_tally
    assume "row_keys (ft_agg s) = row_keys a"
    then show "if_returns (\<lambda>s. row_keys (ft_agg s) = row_keys a) (aggregate_fingerprint x s)"
      using aggregate_fingerprint_keys [of s x] by simp
  qed simp
  with assms show ?thesis
    by (auto simp: aggregate_from_system_fingerprints_def res_simps aggregate_vmware_def row_keys_def Let_def)
qed

lemma aggregate_results_keys: "row_keys (aggregate_from_inspect_results rs a) = row_keys a"
proof -
  have "row_keys (count_result r b) = row_keys b" for r b
    by (simp add: count_result_def row_keys_def split: option.splits conn_status.splits)
  then show ?thesis
    unfolding aggregate_from_inspect_results_def by (induction rs arbitrary: a) simp_all
qed

lemma count_operator_agg: "if_returns (\<lambda>s'. rt_agg s' = rt_agg s) (count_operator operator s)"
  unfolding count_operator_def by (simp add: if_returns_TrueI)

lemma count_openshift_figures: "if_returns (same_figures a) (count_openshift_instance raw_fact a)"
  unfolding count_openshift_instance_def
  by (cases "vget (dget raw_fact ''cluster'' (PDict [])) ''kind'' PNone";
      cases "vget (dget raw_fact ''node'' (PDict [])) ''kind'' PNone")
    (simp_all add: same_figures_def figures row_keys_def)

lemma aggregate_raw_fact_figures:
  "if_returns (\<lambda>s'. same_figures (rt_agg s) (rt_agg s')) (aggregate_raw_fact source_type raw_fact s)"
proof -
  have ansible: "if_returns (\<lambda>s'. same_figures (rt_agg s) (rt_agg s')) (aggregate_ansible_fact rf s)" for rf
    unfolding aggregate_ansible_fact_def by (simp add: if_returns_TrueI)
  have operators: "if_returns (\<lambda>s'. rt_agg s' = rt_agg s1) (fold_res count_operator ops s1)" for ops s1
  proof (rule if_returns_fold)
    fix x and s :: fact_tally
    assume "rt_agg s = rt_agg s1"
    then show "if_returns (\<lambda>s'. rt_agg s' = rt_agg s1) (count_operator x s)"
      using count_operator_agg [of s x] by simp
  qed simp
  have "if_returns (\<lambda>s'. same_figures (rt_agg s) (rt_agg s')) (aggregate_openshift_fact rf s)" for rf
  proof (cases "count_openshift_instance rf (rt_agg s)")
    case (Return a)
    then have "same_figures (rt_agg s) a" using count_openshift_figures [of "rt_agg s" rf] by simp
    moreover have "if_returns (\<lambda>s'. rt_agg s' = a) (fold_res count_operator ops (s\<lparr>rt_agg := a\<rparr>))" for ops
      using operators [of "s\<lparr>rt_agg := a\<rparr>" ops] by simp
    ultimately have "if_returns (\<lambda>s'. same_figures (rt_agg s) (rt_agg s')) (fold_res count_operator ops (s\<lparr>rt_agg := a\<rparr>))" for ops
      by (metis (mono_tags, lifting) if_returns_mono)
    then show ?thesis using Return by (simp add: aggregate_openshift_fact_def if_returns_TrueI)
  qed (simp add: aggregate_openshift_fact_def)
  with ansible show ?thesis by (cases raw_fact) simp_all
qed

lemma aggregate_facts_figures:
  assumes "aggregate_from_raw_facts grouped a = Return a'"
  shows "same_figures a a'"
proof -
  let ?I = "\<lambda>s. same_figures a (rt_agg s)"
  have trans: "same_figures a b \<Longrightarrow> same_figures b c \<Longrightarrow> same_figures a c" for b c
    by (simp add: same_figures_def)
  have group: "if_returns ?I (aggregate_group grp s)" if "?I s" for grp s
  proof -
    have "if_returns ?I (fold_res (aggregate_raw_fact t) fs s)" for t fs
    proof (rule if_returns_fold)
      show "if_returns ?I (aggregate_raw_fact t x s1)" if "?I s1" for x s1
        by (rule if_returns_mono [OF aggregate_raw_fact_figures]) (rule trans [OF that])
    qed (rule \<open>?I s\<close>)
    then show ?thesis unfolding aggregate_group_def by (simp add: if_returns_TrueI)
  qed
  have "if_returns ?I (fold_res aggregate_group grouped
      \<lparr>rt_database = [], rt_jobs = [], rt_by_name = [], rt_by_kind = [], rt_agg = a\<rparr>)"
    by (rule if_returns_fold) (simp_all add: group)
  with assms show ?thesis
    by (auto simp: aggregate_from_raw_facts_def res_simps Let_def same_figures_def figures row_keys_def)
qed

section \<open>Data the computation accepts\<close>

fun hashable :: "pyval \<Rightarrow> bool" where
  "hashable (PList _) = False"
| "hashable (PDict _) = False"
| "hashable _ = True"

fun all_dicts :: "(pydict \<Rightarrow> bool) \<Rightarrow> pyval \<Rightarrow> bool" where
  "all_dicts P (PList xs) = list_all (\<lambda>x. case x of PDict d \<Rightarrow> P d | _ \<Rightarrow> False) xs"
| "all_dicts P _ = False"

definition sources_ok :: "system_fingerprint \<Rightarrow> bool" where
  "sources_ok fp = all_dicts (\<lambda>_. True) (sf_sources fp)"

definition ansible_ok :: "pydict \<Rightarrow> bool" where
  "ansible_ok raw_fact \<longleftrightarrow>
     all_dicts (\<lambda>host. hashable (dgetn host ''name'')) (dget raw_fact ''hosts'' (PList [])) \<and>
     (case dget raw_fact ''jobs'' (PDict []) of
        PDict jobs \<Rightarrow> (case dget jobs ''unique_hosts'' (PList []) of PList hosts \<Rightarrow> list_all hashable hosts | _ \<Rightarrow> False)
      | _ \<Rightarrow> False)"

definition openshift_ok :: "pydict \<Rightarrow> bool" where
  "openshift_ok raw_fact \<longleftrightarrow>
     is_dict (dget raw_fact ''cluster'' (PDict [])) \<and> is_dict (dget raw_fact ''node'' (PDict [])) \<and>
     all_dicts (\<lambda>op. hashable (dget op ''kind'' (PStr UNKNOWN_NAME)) \<and> hashable (dget op ''name'' (PStr UNKNOWN_NAME)))
       (dget raw_fact ''operators'' (PList []))"

definition facts_ok :: "pydict \<Rightarrow> bool" where
  "facts_ok source = all_dicts (\<lambda>raw_fact.
     (dgetn source ''source_type'' = PStr ''ansible'' \<longrightarrow> ansible_ok raw_fact) \<and>
     (dgetn source ''source_type'' = PStr ''openshift'' \<longrightarrow> openshift_ok raw_fact)) (dgetn source ''facts'')"

lemma all_dicts_conv:
  "all_dicts P v \<longleftrightarrow> (\<exists>ds. v = PList (map PDict ds) \<and> list_all P ds)"
proof (cases v)
  case (PList xs)
  have "list_all (\<lambda>x. case x of PDict d \<Rightarrow> P d | _ \<Rightarrow> False) xs \<longleftrightarrow> (\<exists>ds. xs = map PDict ds \<and> list_all P ds)"
  proof (induction xs)
    case (Cons x xs)
    then show ?case by (cases x) (auto simp: Cons_eq_map_conv intro: exI [of _ "_ # _"])
  qed simp
  then show ?thesis using PList by simp
qed simp_all

lemma as_key_hashable: "hashable v \<Longrightarrow> as_key v = Return v"
  by (cases v) (simp_all add: as_key_def)

lemma source_types_total: "sources_ok fp \<Longrightarrow> \<exists>ts. source_types fp = Return ts"
proof -
  assume "sources_ok fp"
  then obtain ds where "sf_sources fp = PList (map PDict ds)" by (auto simp: sources_ok_def all_dicts_conv)
  moreover have "\<exists>ts. map_res (\<lambda>source. vget source ''source_type'' PNone) (map PDict ds) = Return ts"
    by (induction ds) auto
  ultimately show ?thesis by (simp add: source_types_def)
qed

lemma aggregate_fingerprints_total:
  assumes "list_all sources_ok fps"
  shows "\<exists>a'. aggregate_from_system_fingerprints fps a = Return a'"
proof -
  have "\<exists>s'. aggregate_fingerprint x s = Return s' \<and> True" if "x \<in> set fps" for x s
    using source_types_total [of x] assms that by (auto simp: aggregate_fingerprint_def Let_def list_all_iff)
  then have "\<exists>s'. fold_res aggregate_fingerprint fps s = Return s' \<and> True" for s
    by (rule fold_res_total) simp_all
  then obtain s' where "fold_res aggregate_fingerprint fps
      \<lparr>ft_os = [], ft_dates = [], ft_vms_by_host = [], ft_agg = a\<rparr> = Return s'" by blast
  then show ?thesis by (simp add: aggregate_from_system_fingerprints_def)
qed

definition tally_hashable :: "fact_tally \<Rightarrow> bool" where
  "tally_hashable s \<longleftrightarrow> list_all hashable (rt_database s) \<and> list_all hashable (rt_jobs s)"

lemma aggregate_ansible_total:
  assumes "ansible_ok raw_fact" and "tally_hashable s"
  shows "\<exists>s'. aggregate_ansible_fact raw_fact s = Return s' \<and> tally_hashable s'"
proof -
  from assms(1) obtain ds where ds: "dget raw_fact ''hosts'' (PList []) = PList (map PDict ds)"
      "list_all (\<lambda>host. hashable (dgetn host ''name'')) ds"
    by (auto simp: ansible_ok_def all_dicts_conv)
  from assms(1) obtain jobs hosts where jobs: "dget raw_fact ''jobs'' (PDict []) = PDict jobs"
      "dget jobs ''unique_hosts'' (PList []) = PList hosts" "list_all hashable hosts"
    by (auto simp: ansible_ok_def split: pyval.splits)
  have "map_res (\<lambda>host. vget host ''name'' PNone) (map PDict ds) = Return (map (\<lambda>d. dgetn d ''name'') ds)"
    by (induction ds) simp_all
  then show ?thesis
    using assms(2) ds(2) jobs(3)
    by (auto simp: aggregate_ansible_fact_def ds(1) jobs(1,2) tally_hashable_def list_all_iff)
qed

lemma aggregate_openshift_total:
  assumes "openshift_ok raw_fact" and "tally_hashable s"
  shows "\<exists>s'. aggregate_openshift_fact raw_fact s = Return s' \<and> tally_hashable s'"
proof -
  let ?U = "PStr UNKNOWN_NAME"
  from assms(1) obtain ds where ds: "dget raw_fact ''operators'' (PList []) = PList (map PDict ds)"
      "list_all (\<lambda>op. hashable (dget op ''kind'' ?U) \<and> hashable (dget op ''name'' ?U)) ds"
    by (auto simp: openshift_ok_def all_dicts_conv)
  have step: "\<exists>s'. count_operator x s = Return s' \<and> tally_hashable s'"
    if x: "x \<in> set (map PDict ds)" and h: "tally_hashable s" for x s
  proof -
    from x ds(2) obtain op where op: "x = PDict op" "hashable (dget op ''kind'' ?U)" "hashable (dget op ''name'' ?U)"
      by (auto simp: list_all_iff)
    with h show ?thesis by (simp add: count_operator_def count_key_def as_key_hashable tally_hashable_def)
  qed
  from assms(1) obtain c n where "dget raw_fact ''cluster'' (PDict []) = PDict c" "dget raw_fact ''node'' (PDict []) = PDict n"
    by (auto simp: openshift_ok_def is_dict_conv)
  then have "\<exists>a. count_openshift_instance raw_fact (rt_agg s) = Return a"
    by (simp add: count_openshift_instance_def)
  then obtain a where a: "count_openshift_instance raw_fact (rt_agg s) = Return a" ..
  have "\<exists>s'. fold_res count_operator (map PDict ds) (s\<lparr>rt_agg := a\<rparr>) = Return s' \<and> tally_hashable s'"
    by (rule fold_res_total [OF step]) (use assms(2) in \<open>simp_all add: tally_hashable_def\<close>)
  then show ?thesis by (simp add: aggregate_openshift_fact_def a ds(1))
qed

lemma aggregate_group_total:
  assumes "facts_ok source" and "tally_hashable s"
  shows "\<exists>s'. aggregate_group (dgetn source ''source_type'', dgetn source ''facts'') s = Return s' \<and> tally_hashable s'"
proof -
  let ?t = "dgetn source ''source_type''"
  from assms(1) obtain ds where ds: "dgetn source ''facts'' = PList (map PDict ds)"
      "list_all (\<lambda>raw_fact. (?t = PStr ''ansible'' \<longrightarrow> ansible_ok raw_fact) \<and>
         (?t = PStr ''openshift'' \<longrightarrow> openshift_ok raw_fact)) ds"
    by (auto simp: facts_ok_def all_dicts_conv)
  have "\<exists>s'. aggregate_raw_fact ?t x s = Return s' \<and> tally_hashable s'"
    if "x \<in> set (map PDict ds)" and "tally_hashable s" for x s
    using that ds(2) aggregate_ansible_total aggregate_openshift_total by (auto simp: list_all_iff)
  then have "\<exists>s'. fold_res (aggregate_raw_fact ?t) (map PDict ds) s = Return s' \<and> tally_hashable s'"
    by (rule fold_res_total) (use assms(2) in simp_all)
  then show ?thesis by (simp add: aggregate_group_def ds(1))
qed

lemma map_res_as_key: "list_all hashable vs \<Longrightarrow> map_res as_key vs = Return vs"
  by (induction vs) (simp_all add: as_key_hashable)

lemma aggregate_facts_total:
  assumes "list_all facts_ok srcs"
  shows "\<exists>a'. aggregate_from_raw_facts (map (\<lambda>s. (dgetn s ''source_type'', dgetn s ''facts'')) srcs) a = Return a'"
proof -
  let ?gs = "map (\<lambda>s. (dgetn s ''source_type'', dgetn s ''facts'')) srcs"
  have "\<exists>s'. aggregate_group g s = Return s' \<and> tally_hashable s'" if "g \<in> set ?gs" and "tally_hashable s" for g s
    using that assms aggregate_group_total by (auto simp: list_all_iff)
  then have "\<exists>s'. fold_res aggregate_group ?gs
      \<lparr>rt_database = [], rt_jobs = [], rt_by_name = [], rt_by_kind = [], rt_agg = a\<rparr> = Return s' \<and> tally_hashable s'"
    by (rule fold_res_total) (simp_all add: tally_hashable_def)
  then show ?thesis
    by (auto simp: aggregate_from_raw_facts_def map_res_as_key tally_hashable_def Let_def)
qed

lemma sum_from_oldest:
  fixes oldest :: nat
  assumes "\<forall>x \<in> set xs. oldest \<le> x"
  shows "sum_list xs = sum_list (map (\<lambda>x. x - oldest) xs) + oldest * length xs"
  using assms by (induction xs) auto

lemma mean_from_oldest:
  assumes "xs \<noteq> []" and "\<forall>x \<in> set xs. oldest \<le> x"
  shows "oldest + nat \<lfloor>(of_nat (sum_list (map (\<lambda>x. x - oldest) xs)) / of_nat (length xs)) :: rat\<rfloor> =
     sum_list xs div length xs"
  using assms(1) by (simp add: floor_divide_of_nat_eq sum_from_oldest [OF assms(2)] div_mult_self3)

lemma compute_aggregate_figures:
  assumes "re_deployment_report r = Some k" and "get_deployment k d = Some dr"
    and "list_all sources_ok (dr_system_fingerprints dr)" and "list_all facts_ok (report_sources r d)"
  shows "\<exists>a'. compute_aggregate r d a = Return a' \<and> row_keys a' = row_keys a \<and>
    instances a' = instances a + length (dr_system_fingerprints dr) \<and>
    os_total (os_by_name_and_version a') = length (dr_system_fingerprints dr) \<and>
    results_total a' = results_total a + length (concat (map (\<lambda>g. group_results g d) (report_groups r d)))"
proof -
  let ?rs = "concat (map (\<lambda>g. group_results g d) (report_groups r d))"
  obtain a1 where a1: "aggregate_from_system_fingerprints (dr_system_fingerprints dr) a = Return a1"
    using aggregate_fingerprints_total [OF assms(3)] by blast
  obtain a' where a': "aggregate_from_raw_facts (map (\<lambda>s. (dgetn s ''source_type'', dgetn s ''facts'')) (report_sources r d))
      (aggregate_from_inspect_results ?rs a1) = Return a'"
    using aggregate_facts_total [OF assms(4)] by blast
  have "compute_aggregate r d a = Return a'"
    by (simp add: compute_aggregate_def assms(1,2) a1 a')
  with aggregate_fingerprints_figures [OF a1] aggregate_results_figures [of ?rs a1]
    aggregate_facts_figures [OF a'] aggregate_fingerprints_keys [OF a1] aggregate_results_keys [of ?rs a1]
  show ?thesis by (simp add: same_figures_def)
qed

lemma reads_no_aggregate:
  "report_sources r (d\<lparr>aggregate_reports := rows, next_id := n\<rparr>) = report_sources r d"
  "report_groups r (d\<lparr>aggregate_reports := rows, next_id := n\<rparr>) = report_groups r d"
  "group_results g (d\<lparr>aggregate_reports := rows, next_id := n\<rparr>) = group_results g d"
  "get_deployment k (d\<lparr>aggregate_reports := rows, next_id := n\<rparr>) = get_deployment k d"
  by (simp_all add: report_sources_def report_groups_def report_source_def with_raw_facts_def
      group_results_def get_deployment_def)

lemma row_save_last:
  "list_all (\<lambda>x. key x < n) xs \<Longrightarrow> key a = n \<Longrightarrow> key b = n \<Longrightarrow> row_save key b (xs @ [a]) = xs @ [b]"
  by (induction xs) (auto simp: row_save_def)

lemma build_forced:
  assumes "get_report i d = Some r"
  shows "build_aggregate_report current True i d =
    rebuild_aggregate r (d\<lparr>aggregate_reports := filter (\<lambda>a. ar_report a \<noteq> i) (aggregate_reports d)\<rparr>)"
proof (cases "find (\<lambda>a. ar_report a = i) (aggregate_reports d)")
  case None
  then have "filter (\<lambda>a. ar_report a \<noteq> i) (aggregate_reports d) = aggregate_reports d"
    by (simp add: find_None_iff filter_id_conv)
  with None assms show ?thesis by (simp add: build_aggregate_report_def)
qed (simp add: build_aggregate_report_def assms)

section \<open>Hosts and clusters\<close>

definition vm_pairs :: "(string \<times> string list) list \<Rightarrow> (string \<times> string) set" where
  "vm_pairs vms = (\<Union>(c, hosts) \<in> set vms. Pair c ` set hosts)"

definition vms_ok :: "(string \<times> string list) list \<Rightarrow> bool" where
  "vms_ok vms \<longleftrightarrow> wf_dict vms \<and> list_all (\<lambda>(c, hosts). hosts \<noteq> []) vms"

text \<open>The pair of cluster and host a system counts with, if it counts.\<close>

definition vm_pair :: "system_fingerprint \<Rightarrow> (string \<times> string) set" where
  "vm_pair fp =
     (case source_types fp of
        Raise _ \<Rightarrow> {}
      | Return types \<Rightarrow>
          if PStr ''vcenter'' \<in> set types \<and>
             (sf_is_redhat fp = Some True \<or> PStr ''openshift'' \<in> set types \<or> PStr ''satellite'' \<in> set types) \<and>
             has_text (sf_vm_cluster fp) \<and> has_text (sf_virtual_host_uuid fp)
          then {(the (sf_vm_cluster fp), the (sf_virtual_host_uuid fp))} else {})"

lemma vm_pairs_map_of:
  "wf_dict vms \<Longrightarrow> vm_pairs vms = {(c, h). \<exists>hosts. map_of vms c = Some hosts \<and> h \<in> set hosts}"
  by (auto simp: vm_pairs_def wf_dict_def dest: map_of_SomeD intro: map_of_is_SomeI)

lemma vm_pairs_update:
  assumes "vms_ok vms"
  shows "vm_pairs (AList.update c (dget vms c [] @ [h]) vms) = insert (c, h) (vm_pairs vms)"
    and "vms_ok (AList.update c (dget vms c [] @ [h]) vms)"
proof -
  have wf: "wf_dict vms" "wf_dict (AList.update c (dget vms c [] @ [h]) vms)"
    using assms by (auto simp: vms_ok_def)
  show "vm_pairs (AList.update c (dget vms c [] @ [h]) vms) = insert (c, h) (vm_pairs vms)"
    unfolding vm_pairs_map_of [OF wf(1)] vm_pairs_map_of [OF wf(2)]
    by (auto simp: dict_simps dget_def split: if_splits option.splits)
  have "hosts \<noteq> []" if "(c', hosts) \<in> set (AList.update c (dget vms c [] @ [h]) vms)" for c' hosts
  proof -
    from that wf(2) have "map_of (AList.update c (dget vms c [] @ [h]) vms) c' = Some hosts"
      by (auto simp: wf_dict_def intro: map_of_is_SomeI)
    with assms show ?thesis
      by (auto simp: dict_simps vms_ok_def list_all_iff dest: map_of_SomeD split: if_splits)
  qed
  with wf(2) show "vms_ok (AList.update c (dget vms c [] @ [h]) vms)"
    by (auto simp: vms_ok_def list_all_iff)
qed

lemma aggregate_fingerprint_vms:
  assumes "vms_ok (ft_vms_by_host s)"
  shows "if_returns (\<lambda>s'. vms_ok (ft_vms_by_host s') \<and> vm_pairs (ft_vms_by_host s') = vm_pairs (ft_vms_by_host s) \<union> vm_pair fp)
    (aggregate_fingerprint fp s)"
proof -
  have "vms_ok (add_vm fp (ft_vms_by_host s)) \<and> vm_pairs (add_vm fp (ft_vms_by_host s)) = vm_pairs (ft_vms_by_host s) \<union>
      (if has_text (sf_vm_cluster fp) \<and> has_text (sf_virtual_host_uuid fp)
       then {(the (sf_vm_cluster fp), the (sf_virtual_host_uuid fp))} else {})"
    using assms vm_pairs_update [OF assms] by (auto simp: add_vm_def split: option.splits)
  with assms show ?thesis
    by (cases "source_types fp") (simp_all add: aggregate_fingerprint_def vm_pair_def Let_def)
qed

lemma fold_aggregate_vms:
  assumes "vms_ok (ft_vms_by_host s)"
  shows "if_returns (\<lambda>s'. vms_ok (ft_vms_by_host s') \<and>
      vm_pairs (ft_vms_by_host s') = vm_pairs (ft_vms_by_host s) \<union> \<Union> (vm_pair ` set fps))
    (fold_res aggregate_fingerprint fps s)"
  using assms
proof (induction fps arbitrary: s)
  case Nil
  then show ?case by simp
next
  case (Cons fp fps)
  show ?case
  proof (cases "aggregate_fingerprint fp s")
    case (Return s1)
    then have s1: "vms_ok (ft_vms_by_host s1)" "vm_pairs (ft_vms_by_host s1) = vm_pairs (ft_vms_by_host s) \<union> vm_pair fp"
      using aggregate_fingerprint_vms [OF Cons.prems, of fp] by simp_all
    show ?thesis
      using Cons.IH [OF s1(1)] by (auto simp: Return s1(2) elim!: if_returns_mono)
  qed simp
qed

lemma vm_pairs_simps:
  "vm_pairs [] = {}" "vm_pairs ((c, hosts) # vms) = Pair c ` set hosts \<union> vm_pairs vms"
  by (simp_all add: vm_pairs_def)

lemma clusters_vm_pairs: "list_all (\<lambda>(c, hosts). hosts \<noteq> []) vms \<Longrightarrow> fst ` vm_pairs vms = set (map fst vms)"
proof (induction vms)
  case (Cons x vms)
  then show ?case
    by (cases x) (simp add: vm_pairs_simps image_Un image_image image_constant_conv)
qed (simp add: vm_pairs_simps)

lemma card_vm_pairs_sum:
  "distinct (map fst vms) \<Longrightarrow> card (vm_pairs vms) = sum_list (map (\<lambda>(_, hosts). length (remdups hosts)) vms)"
proof (induction vms)
  case Nil
  then show ?case by (simp add: vm_pairs_simps)
next
  case (Cons x vms)
  obtain c hosts where x: "x = (c, hosts)" by fastforce
  have sub: "vm_pairs vms \<subseteq> set (map fst vms) \<times> UNIV" for vms
    by (induction vms) (auto simp: vm_pairs_simps)
  have fin: "finite (vm_pairs vms)" for vms
    by (induction vms) (auto simp: vm_pairs_simps)
  have "Pair c ` set hosts \<inter> vm_pairs vms = {}"
    using sub [of vms] Cons.prems by (auto simp: x)
  moreover have "card (Pair c ` set hosts) = length (remdups hosts)"
    by (simp add: card_image inj_on_def length_remdups_card_conv)
  ultimately show ?case
    using Cons by (simp add: card_Un_disjoint fin x vm_pairs_simps)
qed

lemma card_vm_pairs:
  assumes "vms_ok vms"
  shows "card (fst ` vm_pairs vms) = length vms"
    and "card (vm_pairs vms) = sum_list (map (\<lambda>(_, hosts). length (remdups hosts)) vms)"
  using assms distinct_card [of "map fst vms"]
  by (simp_all add: vms_ok_def wf_dict_def card_vm_pairs_sum clusters_vm_pairs)

section \<open>Sample data\<close>

definition sample_row :: "string \<Rightarrow> bool \<Rightarrow> string \<Rightarrow> string \<Rightarrow> string \<Rightarrow> system_fingerprint" where
  "sample_row name redhat source_type cluster host =
     \<lparr>sf_id = 0, sf_name = Some name, sf_os_name = Some ''RHEL'', sf_os_release = None, sf_os_version = Some ''9'',
      sf_infrastructure_type = ''virtualized'', sf_cloud_provider = None, sf_mac_addresses = PNone,
      sf_ip_addresses = PNone, sf_cpu_count = Some 2, sf_architecture = None, sf_system_memory_bytes = None,
      sf_bios_uuid = None, sf_subscription_manager_id = None, sf_cpu_socket_count = Some 1,
      sf_cpu_core_count = Some (Fin 2), sf_cpu_core_per_socket = None, sf_cpu_hyperthreading = None,
      sf_installed_products = PNone, sf_system_creation_date = Some 7, sf_system_last_checkin_date = None,
      sf_system_purpose = None, sf_system_role = None, sf_system_addons = None,
      sf_system_service_level_agreement = None, sf_system_usage_type = None, sf_insights_client_id = None,
      sf_virtualized_type = None, sf_virtual_host_name = None, sf_virtual_host_uuid = Some host,
      sf_system_user_count = None, sf_vm_state = None, sf_vm_uuid = None, sf_vm_dns_name = None,
      sf_vm_host_socket_count = None, sf_vm_host_core_count = None, sf_vm_cluster = Some cluster,
      sf_vm_datacenter = None, sf_is_redhat = Some redhat, sf_redhat_certs = None, sf_redhat_package_count = None,
      sf_metadata = PDict [], sf_sources = PList [PDict [(''source_type'', PStr source_type)]],
      sf_etc_machine_id = None, sf_products = [], sf_entitlements = []\<rparr>"

definition sample_rows :: "system_fingerprint list" where
  "sample_rows = [sample_row ''a'' True ''vcenter'' ''c1'' ''h1'', sample_row ''b'' True ''vcenter'' ''c1'' ''h2'',
     sample_row ''c'' True ''vcenter'' ''c1'' ''h1'', sample_row ''d'' False ''network'' ''c2'' ''h1'']"

definition sample_report_row :: report where
  "sample_report_row = \<lparr>re_id = 1, re_origin = LOCAL, re_inspect_groups = [3], re_deployment_report = Some 2\<rparr>"

definition sample_deployment :: deployments_report where
  "sample_deployment = \<lparr>dr_id = 2, dr_status = STATUS_COMPLETE, dr_system_fingerprints = sample_rows,
     dr_cached_fingerprints = None, dr_cached_csv = None\<rparr>"

definition sample_group :: inspect_group where
  "sample_group = \<lparr>ig_id = 3, ig_source_type = ''ansible'', ig_source_name = ''tower'', ig_server_id = ''s'',
     ig_server_version = ''2.0'', ig_tasks = []\<rparr>"

definition sample_result :: inspect_result where
  "sample_result = \<lparr>ir_id = 4, ir_name = ''tower'', ir_status = Some SUCCESS, ir_inspect_group = 3,
     ir_facts = [(''hosts'', PList [PDict [(''name'', PStr ''x'')], PDict [(''name'', PStr ''y'')]]),
       (''jobs'', PDict [(''unique_hosts'', PList [PStr ''y'', PStr ''z''])])]\<rparr>"

definition sample_report_db :: db where
  "sample_report_db = empty_db\<lparr>inspect_groups := [sample_group], inspect_results := [sample_result],
     reports := [sample_report_row], deployments_reports := [sample_deployment], next_id := 5\<rparr>"

lemmas sample_report_defs = sample_report_db_def sample_report_row_def sample_deployment_def sample_group_def
  sample_result_def sample_rows_def sample_row_def

section \<open>Properties\<close>

text \<open>
  C32. The average of dates is their arithmetic mean rounded down, although the code averages the
  distances to the oldest date; dates that are missing do not count.
\<close>

theorem average_date_is_mean:
  "average_date ds = (let dates = map the (filter (\<lambda>x. x \<noteq> None) ds)
     in if dates = [] then None else Some (sum_list dates div length dates))"
proof (cases "map the (filter (\<lambda>x. x \<noteq> None) ds)")
  case Nil
  then show ?thesis by (simp add: average_date_def Let_def)
next
  case (Cons x xs)
  have "\<forall>y \<in> set (x # xs). fold min xs x \<le> y"
    by (simp flip: Min.set_eq_fold)
  from mean_from_oldest [OF list.distinct(2) this] show ?thesis
    by (simp only: average_date_def Cons Let_def list.sel list.simps if_False)
qed

text \<open>
  C5. Building the aggregate report of a report whose data have the expected shape succeeds and
  counts every system exactly once: the five kinds of instances add up to the number of
  fingerprints, so do the operating systems, and the four statuses add up to the number of
  inspect results. Afterwards the report has exactly this one aggregate report.
\<close>

theorem aggregate_counts_every_system:
  assumes "get_report i d = Some r" and "re_deployment_report r = Some k" and "get_deployment k d = Some dr"
    and "list_all sources_ok (dr_system_fingerprints dr)" and "list_all facts_ok (report_sources r d)"
    and "list_all (\<lambda>a. ar_id a < next_id d) (aggregate_reports d)"
  shows "\<exists>d' a. build_aggregate_report current True i d = (d', Return a) \<and>
    instances a = length (dr_system_fingerprints dr) \<and>
    os_total (os_by_name_and_version a) = length (dr_system_fingerprints dr) \<and>
    results_total a = length (concat (map (\<lambda>g. group_results g d) (report_groups r d))) \<and>
    filter (\<lambda>x. ar_report x = i) (aggregate_reports d') = [a]"
proof -
  define rows where "rows = filter (\<lambda>a. ar_report a \<noteq> i) (aggregate_reports d)"
  define a where "a = new_aggregate (next_id d) i"
  define d2 where "d2 = d\<lparr>aggregate_reports := rows @ [a], next_id := next_id d + 1\<rparr>"
  have i: "re_id r = i" using assms(1) by (auto simp: get_report_def dest: row_get_key)
  have zero: "instances a = 0" "results_total a = 0" "row_keys a = (next_id d, i)"
    by (simp_all add: figures row_keys_def a_def new_aggregate_def)
  have "get_deployment k d2 = Some dr" "list_all facts_ok (report_sources r d2)"
    using assms(3,5) by (simp_all add: d2_def reads_no_aggregate)
  from compute_aggregate_figures [OF assms(2) this(1) assms(4) this(2), of a] obtain a' where
    a': "compute_aggregate r d2 a = Return a'" "row_keys a' = (next_id d, i)"
      "instances a' = length (dr_system_fingerprints dr)"
      "os_total (os_by_name_and_version a') = length (dr_system_fingerprints dr)"
      "results_total a' = length (concat (map (\<lambda>g. group_results g d) (report_groups r d)))"
    by (auto simp: zero d2_def reads_no_aggregate)
  have save: "row_save ar_id a' (rows @ [a]) = rows @ [a']"
    by (rule row_save_last [of _ "next_id d"])
      (use assms(6) a'(2) zero(3) in \<open>auto simp: rows_def row_keys_def list_all_iff\<close>)
  have "build_aggregate_report current True i d = (d2\<lparr>aggregate_reports := rows @ [a']\<rparr>, Return a')"
    using a'(1) by (simp add: build_forced [OF assms(1)] rebuild_aggregate_def i a_def [symmetric]
        rows_def [symmetric] d2_def [symmetric] save Let_def)
      (simp add: d2_def save)
  moreover have "filter (\<lambda>x. ar_report x = i) (rows @ [a']) = [a']"
    using a'(2) by (simp add: rows_def row_keys_def)
  ultimately show ?thesis using a'(3-5) by simp
qed

lemma sample_report_ok:
  "get_report 1 sample_report_db = Some sample_report_row" "re_deployment_report sample_report_row = Some 2"
  "get_deployment 2 sample_report_db = Some sample_deployment"
  "dr_system_fingerprints sample_deployment = sample_rows"
  "list_all sources_ok sample_rows" "list_all facts_ok (report_sources sample_report_row sample_report_db)"
  "aggregate_reports sample_report_db = []"
  "concat (map (\<lambda>g. group_results g sample_report_db) (report_groups sample_report_row sample_report_db)) = [sample_result]"
  by (simp_all add: sample_report_defs get_report_def get_deployment_def row_get_def report_sources_def
      report_groups_def group_results_def report_source_def with_raw_facts_def empty_db_def sources_ok_def
      facts_ok_def ansible_ok_def dget_def)

theorem aggregate_counts_every_system_witness:
  "\<exists>d' a. build_aggregate_report False True 1 sample_report_db = (d', Return a) \<and> instances a = 4 \<and>
     os_total (os_by_name_and_version a) = 4 \<and> results_total a = 1 \<and>
     filter (\<lambda>x. ar_report x = 1) (aggregate_reports d') = [a]"
proof -
  have "length sample_rows = 4" by (simp add: sample_rows_def)
  with aggregate_counts_every_system [OF sample_report_ok(1-3), of False] sample_report_ok(4-8) show ?thesis
    by simp
qed

text \<open>
  What the report calls VMware hosts are clusters, and what it calls VMs are hosts: the code
  collects the host of every machine under the name of its cluster. The number of hosts it
  reports is the number of distinct clusters, the number of VMs that of distinct pairs of cluster
  and host, and a second machine on a host is not counted.
\<close>

lemma vmware_counts_clusters:
  assumes "list_all sources_ok fps" and "\<Union> (vm_pair ` set fps) \<noteq> {}"
  shows "returns (\<lambda>a'. vmware_hosts a' = card (fst ` \<Union> (vm_pair ` set fps)) \<and>
      vmware_vms a' = card (\<Union> (vm_pair ` set fps)) \<and>
      vmware_vm_to_host_ratio a' * of_nat (vmware_hosts a') = of_nat (vmware_vms a'))
    (aggregate_from_system_fingerprints fps a)"
proof -
  let ?s = "\<lparr>ft_os = [], ft_dates = [], ft_vms_by_host = [], ft_agg = a\<rparr>"
  obtain a' where a': "aggregate_from_system_fingerprints fps a = Return a'"
    using aggregate_fingerprints_total [OF assms(1)] by blast
  then obtain s where s: "fold_res aggregate_fingerprint fps ?s = Return s"
    and a'_def: "a' = aggregate_vmware (ft_vms_by_host s) ((ft_agg s)\<lparr>os_by_name_and_version := ft_os s,
            system_creation_date_average := average_date (ft_dates s)\<rparr>)"
    by (auto simp: aggregate_from_system_fingerprints_def res_simps)
  have vms: "vms_ok (ft_vms_by_host s)" "vm_pairs (ft_vms_by_host s) = \<Union> (vm_pair ` set fps)"
    using fold_aggregate_vms [of ?s fps] s by (simp_all add: vms_ok_def vm_pairs_def)
  with assms(2) have "ft_vms_by_host s \<noteq> []" by (auto simp: vm_pairs_def)
  then show ?thesis
    using card_vm_pairs [OF vms(1)] by (simp add: a' a'_def aggregate_vmware_def Let_def vms(2))
qed

lemma vmware_counts_clusters_example:
  "returns (\<lambda>a. vmware_hosts a = 1 \<and> vmware_vms a = 2) (aggregate_from_system_fingerprints sample_rows (new_aggregate 1 1))"
proof -
  have types: "source_types (sample_row n b t c h) = Return [PStr t]" for n b t c h
    by (simp add: source_types_def sample_row_def dget_def)
  have pair: "vm_pair (sample_row n b t c h) =
      (if t = ''vcenter'' \<and> b \<and> c \<noteq> [] \<and> h \<noteq> [] then {(c, h)} else {})" for n b t c h
    unfolding vm_pair_def types by (cases "t = ''vcenter''") (simp_all add: sample_row_def)
  have pairs: "\<Union> (vm_pair ` set sample_rows) = {(''c1'', ''h1''), (''c1'', ''h2'')}"
    by (simp add: sample_rows_def pair insert_commute)
  obtain a where "aggregate_from_system_fingerprints sample_rows (new_aggregate 1 1) = Return a"
    using aggregate_fingerprints_total [OF sample_report_ok(5)] by blast
  with vmware_counts_clusters [OF sample_report_ok(5), of "new_aggregate 1 1"] show ?thesis
    by (simp add: pairs)
qed

text \<open>
  The pass over the raw facts counts Ansible hosts without duplicates: there are at least as
  many hosts as the database or the jobs name, and at most as many as both together.
\<close>

lemma ansible_host_bounds:
  assumes "list_all facts_ok srcs"
  shows "returns (\<lambda>a'. ansible_hosts_in_database a' \<le> ansible_hosts_all a' \<and>
      ansible_hosts_in_jobs a' \<le> ansible_hosts_all a' \<and>
      ansible_hosts_all a' \<le> ansible_hosts_in_database a' + ansible_hosts_in_jobs a')
    (aggregate_from_raw_facts (map (\<lambda>s. (dgetn s ''source_type'', dgetn s ''facts'')) srcs) a)"
proof -
  have "card (set xs) \<le> card (set xs \<union> set ys)" "card (set ys) \<le> card (set xs \<union> set ys)"
    "card (set xs \<union> set ys) \<le> card (set xs) + card (set ys)" for xs ys :: "pyval list"
    by (simp_all add: card_mono card_Un_le)
  note cards = this
  obtain a' where a': "aggregate_from_raw_facts (map (\<lambda>s. (dgetn s ''source_type'', dgetn s ''facts'')) srcs) a = Return a'"
    using aggregate_facts_total [OF assms] by blast
  then have "\<exists>in_database in_jobs :: pyval list. ansible_hosts_all a' = length (remdups (in_database @ in_jobs)) \<and>
      ansible_hosts_in_database a' = length (remdups in_database) \<and> ansible_hosts_in_jobs a' = length (remdups in_jobs)"
    by (clarsimp simp: aggregate_from_raw_facts_def res_simps Let_def) blast
  then obtain in_database in_jobs :: "pyval list" where "ansible_hosts_all a' = length (remdups (in_database @ in_jobs))"
    "ansible_hosts_in_database a' = length (remdups in_database)" "ansible_hosts_in_jobs a' = length (remdups in_jobs)"
    by (elim exE conjE) (rule that)
  with cards show ?thesis by (simp add: a' length_remdups_card_conv)
qed

lemma ansible_host_bounds_example:
  "returns (\<lambda>a. ansible_hosts_all a \<le> ansible_hosts_in_database a + ansible_hosts_in_jobs a)
    (aggregate_from_raw_facts (map (\<lambda>s. (dgetn s ''source_type'', dgetn s ''facts''))
       (report_sources sample_report_row sample_report_db)) (new_aggregate 1 1))"
proof -
  obtain a where "aggregate_from_raw_facts (map (\<lambda>s. (dgetn s ''source_type'', dgetn s ''facts''))
      (report_sources sample_report_row sample_report_db)) (new_aggregate 1 1) = Return a"
    using aggregate_facts_total [OF sample_report_ok(6)] by blast
  with ansible_host_bounds [OF sample_report_ok(6), of "new_aggregate 1 1"] show ?thesis by simp
qed

end
