(* ===== verification/Fingerprint_Runner.thy ===== *)
theory Fingerprint_Runner
  imports Scan_Runner Aggregate_Report
begin

text \<open>
  The fingerprint task: \<open>FingerprintTaskRunner.execute_task\<close> and \<open>_process_details_report\<close> of
  \<open>fingerprinter/runner.py\<close>. It runs the engine on the sources of the report, stores every
  fingerprint the serializer accepts, sets the status of the deployments report and builds the
  aggregate report. It is the runner of fingerprint tasks, so it satisfies the contract
  \<open>task_runner\<close> of the scan jobs.

  Django REST framework is a parameter, the record \<open>fp_env\<close>: what \<open>SystemFingerprintSerializer\<close>
  makes of a dict (a row, an invalid dict, a \<open>DataError\<close> of the database or another exception),
  and how \<open>DateField\<close> represents a date. So are the setting that bypasses the cache, the supply
  of UUIDs and the text of an exception.
\<close>

section \<open>Storing fingerprints\<close>

text \<open>
  \<open>create\<close> inserts the fingerprint and then its products and entitlements without a transaction, so
  a failure may leave a row behind.
\<close>

datatype save_outcome =
    Saved system_fingerprint
  | Invalid_fingerprint
  | Data_error "system_fingerprint option"
  | Save_raises "system_fingerprint option" exn

record fp_env =
  bypass_cache :: bool
  serialize :: "pydict \<Rightarrow> save_outcome"
  date_representation :: "pyval \<Rightarrow> pyval"
  uuid4 :: "nat \<Rightarrow> nat \<Rightarrow> string"
  describe :: "exn \<Rightarrow> string"

definition valid_fact_attributes :: "string list" where
  "valid_fact_attributes =
     [''products'', ''entitlements'', ''id'', ''deployment_report'', ''name'', ''os_name'', ''os_release'',
      ''os_version'', ''infrastructure_type'', ''cloud_provider'', ''mac_addresses'', ''ip_addresses'',
      ''cpu_count'', ''architecture'', ''system_memory_bytes'', ''bios_uuid'', ''subscription_manager_id'',
      ''cpu_socket_count'', ''cpu_core_count'', ''cpu_core_per_socket'', ''cpu_hyperthreading'',
      ''installed_products'', ''system_creation_date'', ''system_last_checkin_date'', ''system_purpose'',
      ''system_role'', ''system_addons'', ''system_service_level_agreement'', ''system_usage_type'',
      ''insights_client_id'', ''virtualized_type'', ''virtual_host_name'', ''virtual_host_uuid'',
      ''system_user_count'', ''vm_state'', ''vm_uuid'', ''vm_dns_name'', ''vm_host_socket_count'',
      ''vm_host_core_count'', ''vm_cluster'', ''vm_datacenter'', ''is_redhat'', ''redhat_certs'',
      ''redhat_package_count'', ''metadata'', ''sources'', ''etc_machine_id'']"

definition DATE_FIELDS :: "string list" where
  "DATE_FIELDS = [''system_last_checkin_date'', ''system_creation_date'']"

definition model_fields :: "nat \<Rightarrow> fingerprint \<Rightarrow> fingerprint" where
  "model_fields i fp =
     AList.update ''deployment_report'' (PInt (int i)) (filter (\<lambda>(k, _). k \<in> set valid_fact_attributes) fp)"

definition represent_dates :: "fp_env \<Rightarrow> fingerprint \<Rightarrow> fingerprint" where
  "represent_dates env fp =
     fold (\<lambda>field fp. if truthy (dgetn fp field)
       then AList.update field (date_representation env (dgetn fp field)) fp else fp) DATE_FIELDS fp"

definition change_deployment :: "nat \<Rightarrow> (deployments_report \<Rightarrow> deployments_report) \<Rightarrow> db \<Rightarrow> db" where
  "change_deployment i f d =
     d\<lparr>deployments_reports := map (\<lambda>dr. if dr_id dr = i then f dr else dr) (deployments_reports d)\<rparr>"

definition insert_fingerprint :: "nat \<Rightarrow> system_fingerprint \<Rightarrow> db \<Rightarrow> db" where
  "insert_fingerprint i row d =
     (change_deployment i (\<lambda>dr. dr\<lparr>dr_system_fingerprints :=
        dr_system_fingerprints dr @ [row\<lparr>sf_id := next_id d\<rparr>]\<rparr>) d)\<lparr>next_id := next_id d + 1\<rparr>"

fun insert_left_over :: "nat \<Rightarrow> system_fingerprint option \<Rightarrow> db \<Rightarrow> db" where
  "insert_left_over i None d = d"
| "insert_left_over i (Some row) d = insert_fingerprint i row d"

text \<open>The loop carries the list for the cache. An exception ends it and keeps what was stored.\<close>

fun persist_fingerprints ::
  "fp_env \<Rightarrow> nat \<Rightarrow> fingerprint list \<Rightarrow> db \<times> fingerprint list \<Rightarrow> db \<times> fingerprint list res"
where
  "persist_fingerprints env i [] (d, final) = (d, Return final)"
| "persist_fingerprints env i (fp # fps) (d, final) =
     (let fingerprint_dict = model_fields i fp
      in case serialize env fingerprint_dict of
           Saved row \<Rightarrow>
             persist_fingerprints env i fps
               (insert_fingerprint i row d,
                if bypass_cache env then final
                else final @ [represent_dates env (AList.update ''id'' (PInt (int (next_id d))) fingerprint_dict)])
         | Invalid_fingerprint \<Rightarrow> persist_fingerprints env i fps (d, final)
         | Data_error left_over \<Rightarrow> persist_fingerprints env i fps (insert_left_over i left_over d, final)
         | Save_raises left_over e \<Rightarrow> (insert_left_over i left_over d, Raise e))"

text \<open>\<open>json.dump\<close> raises a \<open>TypeError\<close> on a date.\<close>

fun json_dumpable :: "pyval \<Rightarrow> bool" where
  "json_dumpable (PDate _ _ _) = False"
| "json_dumpable (PDateTime _ _ _ _ _ _) = False"
| "json_dumpable (PList vs) = (\<forall>v \<in> set vs. json_dumpable v)"
| "json_dumpable (PDict kvs) = (\<forall>kv \<in> set kvs. json_dumpable (snd kv))"
| "json_dumpable _ = True"

definition no_fingerprints_message :: "nat \<Rightarrow> string" where
  "no_fingerprints_message report_id =
     ''FAILED to create report id='' @ show_nat report_id @ '' - produced no valid fingerprints''"

definition process_details_report ::
  "fp_env \<Rightarrow> report \<Rightarrow> nat \<Rightarrow> db \<Rightarrow> db \<times> (string \<times> status) res" where
  "process_details_report env r i d =
     (case process_sources (uuid4 env) (report_sources r d) of
        Raise e \<Rightarrow> (d, Raise e)
      | Return fingerprints_list \<Rightarrow>
          (case persist_fingerprints env i fingerprints_list (d, []) of
             (d1, Raise e) \<Rightarrow> (d1, Raise e)
           | (d1, Return final) \<Rightarrow>
               if \<not> json_dumpable (PList (map PDict final)) then (d1, Raise TypeError)
               else
                 (let success = final \<noteq> [] \<or> bypass_cache env;
                      dr_change = (\<lambda>dr. dr\<lparr>dr_status := if success then STATUS_COMPLETE else STATUS_FAILED,
                        dr_cached_fingerprints := Some final\<rparr>)
                  in (change_deployment i dr_change d1,
                      Return (if success then (''success'', COMPLETED)
                              else (no_fingerprints_message (re_id r), FAILED))))))"

section \<open>The task\<close>

definition get_or_create_deployment :: "scanjob \<Rightarrow> db \<Rightarrow> db \<times> nat" where
  "get_or_create_deployment j d =
     (case job_deployment j d of
        Some dr \<Rightarrow> (d, dr_id dr)
      | None \<Rightarrow>
          (d\<lparr>deployments_reports := deployments_reports d @
               [\<lparr>dr_id = next_id d, dr_status = STATUS_PENDING, dr_system_fingerprints = [],
                 dr_cached_fingerprints = None, dr_cached_csv = None\<rparr>],
             next_id := next_id d + 1\<rparr>, next_id d))"

definition set_report_deployment :: "report \<Rightarrow> nat \<Rightarrow> db \<Rightarrow> db" where
  "set_report_deployment r i d = d\<lparr>reports := row_save re_id (r\<lparr>re_deployment_report := Some i\<rparr>) (reports d)\<rparr>"

definition set_deployment_status :: "nat \<Rightarrow> deployment_status \<Rightarrow> db \<Rightarrow> db" where
  "set_deployment_status i s = change_deployment i (\<lambda>dr. dr\<lparr>dr_status := s\<rparr>)"

text \<open>The body of the \<open>try\<close> block.\<close>

definition fingerprint_report :: "fp_env \<Rightarrow> report \<Rightarrow> nat \<Rightarrow> db \<Rightarrow> db \<times> (string \<times> status) res" where
  "fingerprint_report env r i d =
     (case process_details_report env r i d of
        (d1, Raise e) \<Rightarrow> (d1, Raise e)
      | (d1, Return (m, s)) \<Rightarrow>
          (let d2 = set_deployment_status i (if s = COMPLETED then STATUS_COMPLETE else STATUS_FAILED) d1
           in if s = COMPLETED then
                (case build_aggregate_report False True (re_id r) d2 of
                   (d3, Raise e) \<Rightarrow> (d3, Raise e)
                 | (d3, Return _) \<Rightarrow> (d3, Return (m, s)))
              else (d2, Return (m, s))))"

definition execute_task :: "fp_env \<Rightarrow> execute" where
  "execute_task env j t d =
     (case get_or_create_deployment j d of (d1, i) \<Rightarrow>
        (case Option.bind (sj_report j) (\<lambda>k. get_report k d1) of
           None \<Rightarrow> (d1, j, t, Crash AttributeError (describe env AttributeError))
         | Some r \<Rightarrow>
             (case fingerprint_report env (r\<lparr>re_deployment_report := Some i\<rparr>) i (set_report_deployment r i d1) of
                (d2, Return (m, s)) \<Rightarrow> (d2, j, t, Finished m s)
              | (d2, Raise e) \<Rightarrow> (set_deployment_status i STATUS_FAILED d2, j, t, Crash e (describe env e)))))"

section \<open>The contract of a task runner\<close>

lemma change_deployment_frame [simp]:
  "scanjobs (change_deployment i f d) = scanjobs d" "scantasks (change_deployment i f d) = scantasks d"
  "reports (change_deployment i f d) = reports d" "next_id (change_deployment i f d) = next_id d"
  "inspect_groups (change_deployment i f d) = inspect_groups d"
  "inspect_results (change_deployment i f d) = inspect_results d"
  "aggregate_reports (change_deployment i f d) = aggregate_reports d"
  by (simp_all add: change_deployment_def)

lemma insert_fingerprint_frame [simp]:
  "scanjobs (insert_fingerprint i row d) = scanjobs d" "reports (insert_fingerprint i row d) = reports d"
  by (simp_all add: insert_fingerprint_def)

lemma insert_left_over_frame [simp]:
  "scanjobs (insert_left_over i left_over d) = scanjobs d" "reports (insert_left_over i left_over d) = reports d"
  by (cases left_over; simp)+

lemma persist_keeps:
  "scanjobs (fst (persist_fingerprints env i fps (d, final))) = scanjobs d"
  "reports (fst (persist_fingerprints env i fps (d, final))) = reports d"
  by (induction fps arbitrary: d final) (simp_all add: Let_def split: save_outcome.splits)

lemma process_details_keeps:
  "scanjobs (fst (process_details_report env r i d)) = scanjobs d"
  "reports (fst (process_details_report env r i d)) = reports d"
proof -
  have "scanjobs d1 = scanjobs d \<and> reports d1 = reports d"
    if "persist_fingerprints env i fps (d, []) = (d1, x)" for fps d1 x
    using persist_keeps [of env i fps d "[]"] that by simp
  then show "scanjobs (fst (process_details_report env r i d)) = scanjobs d"
    "reports (fst (process_details_report env r i d)) = reports d"
    by (auto simp: process_details_report_def Let_def split: res.splits prod.splits)
qed

lemma build_aggregate_keeps:
  "scanjobs (fst (build_aggregate_report c f i d)) = scanjobs d"
  "reports (fst (build_aggregate_report c f i d)) = reports d"
  "deployments_reports (fst (build_aggregate_report c f i d)) = deployments_reports d"
  by (simp_all add: build_aggregate_report_def rebuild_aggregate_def Let_def split: option.splits res.splits)

lemma fingerprint_report_keeps:
  "scanjobs (fst (fingerprint_report env r i d)) = scanjobs d"
  "reports (fst (fingerprint_report env r i d)) = reports d"
proof -
  obtain d1 x where p: "process_details_report env r i d = (d1, x)" by fastforce
  have d1: "scanjobs d1 = scanjobs d" "reports d1 = reports d"
    using process_details_keeps [of env r i d] p by simp_all
  have b: "scanjobs d3 = scanjobs d2 \<and> reports d3 = reports d2" if "build_aggregate_report c f k d2 = (d3, y)" for c f k d2 d3 y
    using build_aggregate_keeps [of c f k d2] that by simp
  show "scanjobs (fst (fingerprint_report env r i d)) = scanjobs d" "reports (fst (fingerprint_report env r i d)) = reports d"
    by (auto simp: fingerprint_report_def p Let_def d1 set_deployment_status_def dest!: b split: res.splits prod.splits)
qed

lemma execute_task_keeps_jobs:
  assumes "execute_task env j t d = (d', j', t', out)"
  shows "scanjobs d' = scanjobs d \<and> j' = j"
proof -
  obtain d1 i where g: "get_or_create_deployment j d = (d1, i)" by fastforce
  have d1: "scanjobs d1 = scanjobs d" using g by (auto simp: get_or_create_deployment_def split: option.splits)
  have f: "scanjobs d2 = scanjobs d" if "fingerprint_report env r i (set_report_deployment r' i d1) = (d2, x)" for r r' d2 x
    using fingerprint_report_keeps(1) [of env r i "set_report_deployment r' i d1"] that
    by (simp add: set_report_deployment_def d1)
  show ?thesis
    using assms d1 by (auto simp: execute_task_def g set_deployment_status_def dest!: f split: option.splits res.splits prod.splits)
qed

interpretation fingerprinter: task_runner "execute_task env" for env
  by unfold_locales (rule execute_task_keeps_jobs)

section \<open>What is stored\<close>

text \<open>The rows a list of fingerprints becomes, with the ids from \<open>n\<close> on.\<close>

definition row_of :: "fp_env \<Rightarrow> nat \<Rightarrow> fingerprint \<Rightarrow> system_fingerprint option" where
  "row_of env i fp =
     (case serialize env (model_fields i fp) of
        Saved row \<Rightarrow> Some row
      | Invalid_fingerprint \<Rightarrow> None
      | Data_error left_over \<Rightarrow> left_over
      | Save_raises left_over _ \<Rightarrow> left_over)"

definition accepted :: "fp_env \<Rightarrow> nat \<Rightarrow> fingerprint \<Rightarrow> bool" where
  "accepted env i fp \<longleftrightarrow> (case serialize env (model_fields i fp) of Saved _ \<Rightarrow> True | _ \<Rightarrow> False)"

definition raises_on :: "fp_env \<Rightarrow> nat \<Rightarrow> fingerprint \<Rightarrow> bool" where
  "raises_on env i fp \<longleftrightarrow> (case serialize env (model_fields i fp) of Save_raises _ _ \<Rightarrow> True | _ \<Rightarrow> False)"

fun stored_rows :: "fp_env \<Rightarrow> nat \<Rightarrow> fingerprint list \<Rightarrow> nat \<Rightarrow> system_fingerprint list" where
  "stored_rows env i [] n = []"
| "stored_rows env i (fp # fps) n =
     (let rest = (\<lambda>n. if raises_on env i fp then [] else stored_rows env i fps n)
      in case row_of env i fp of
           Some row \<Rightarrow> row\<lparr>sf_id := n\<rparr> # rest (n + 1)
         | None \<Rightarrow> rest n)"

definition add_rows :: "system_fingerprint list \<Rightarrow> deployments_report \<Rightarrow> deployments_report" where
  "add_rows rows dr = dr\<lparr>dr_system_fingerprints := dr_system_fingerprints dr @ rows\<rparr>"

lemma find_map_key:
  assumes "\<And>x. key (f x) = key x"
  shows "find (\<lambda>x. key x = k) (map (\<lambda>x. if key x = i then f x else x) xs) =
    (if k = i then map_option f (find (\<lambda>x. key x = k) xs) else find (\<lambda>x. key x = k) xs)"
  by (induction xs) (auto simp: assms)

lemma get_deployment_change:
  assumes "\<And>dr. dr_id (f dr) = dr_id dr"
  shows "get_deployment k (change_deployment i f d) =
    (if k = i then map_option f (get_deployment k d) else get_deployment k d)"
  by (simp add: get_deployment_def change_deployment_def row_get_def find_map_key [where key = dr_id, OF assms])

lemma get_deployment_status:
  "get_deployment i (set_deployment_status i s d) = map_option (\<lambda>dr. dr\<lparr>dr_status := s\<rparr>) (get_deployment i d)"
  by (simp add: set_deployment_status_def get_deployment_change)

lemma get_deployment_insert:
  "get_deployment i (insert_fingerprint i row d) = map_option (add_rows [row\<lparr>sf_id := next_id d\<rparr>]) (get_deployment i d)"
proof -
  have "get_deployment i (d1\<lparr>next_id := n\<rparr>) = get_deployment i d1" for d1 :: db and n
    by (simp add: get_deployment_def)
  then show ?thesis
    unfolding insert_fingerprint_def by (simp add: get_deployment_change add_rows_def [abs_def])
qed

lemma next_id_insert [simp]: "next_id (insert_fingerprint i row d) = next_id d + 1"
  by (simp add: insert_fingerprint_def)

lemma add_rows_simps: "add_rows [] dr = dr" "add_rows ys (add_rows xs dr) = add_rows (xs @ ys) dr"
  by (simp_all add: add_rows_def)

lemma persist_stores:
  "get_deployment i (fst (persist_fingerprints env i fps (d, final))) =
     map_option (add_rows (stored_rows env i fps (next_id d))) (get_deployment i d)"
proof (induction fps arbitrary: d final)
  case Nil
  then show ?case by (simp add: add_rows_simps option.map_ident)
next
  case (Cons fp fps)
  note simps = row_of_def raises_on_def get_deployment_insert option.map_comp comp_def add_rows_simps option.map_ident
  show ?case
  proof (cases "serialize env (model_fields i fp)")
    case (Data_error left_over)
    then show ?thesis using Cons.IH by (cases left_over) (simp_all add: simps)
  next
    case (Save_raises left_over e)
    then show ?thesis by (cases left_over) (simp_all add: simps)
  qed (simp_all add: Let_def Cons.IH simps)
qed

text \<open>What a run may do to a deployments report: rows are added, and the cached CSV stays.\<close>

definition extends :: "deployments_report \<Rightarrow> deployments_report \<Rightarrow> bool" where
  "extends dr dr' \<longleftrightarrow> dr_cached_csv dr' = dr_cached_csv dr \<and>
     take (length (dr_system_fingerprints dr)) (dr_system_fingerprints dr') = dr_system_fingerprints dr"

lemma extends_simps [simp]:
  "extends dr dr" "extends dr (add_rows rows dr)" "extends dr (dr'\<lparr>dr_status := s\<rparr>) = extends dr dr'"
  "extends dr (dr'\<lparr>dr_cached_fingerprints := c\<rparr>) = extends dr dr'"
  by (simp_all add: extends_def add_rows_def)

lemma process_details_deployment:
  assumes "get_deployment i d = Some dr" and "process_details_report env r i d = (d', x)"
  shows "\<exists>dr'. get_deployment i d' = Some dr' \<and> extends dr dr'"
proof -
  have p: "get_deployment i d1 = Some (add_rows (stored_rows env i fps (next_id d)) dr)"
    if "persist_fingerprints env i fps (d, []) = (d1, y)" for fps d1 y
    using persist_stores [of i env fps d "[]"] that assms(1) by simp
  show ?thesis
    using assms by (auto simp: process_details_report_def Let_def get_deployment_change dest!: p
        split: res.splits prod.splits if_splits)
qed

lemma get_deployment_aggregate:
  "build_aggregate_report c f k d = (d', x) \<Longrightarrow> get_deployment i d' = get_deployment i d"
  using build_aggregate_keeps(3) [of c f k d] by (simp add: get_deployment_def)

lemma fingerprint_report_deployment:
  assumes "get_deployment i d = Some dr" and "fingerprint_report env r i d = (d', x)"
  shows "\<exists>dr'. get_deployment i d' = Some dr' \<and> extends dr dr' \<and>
    if_returns (\<lambda>(m, s). dr_status dr' = (if s = COMPLETED then STATUS_COMPLETE else STATUS_FAILED)) x"
proof -
  obtain d1 y where p: "process_details_report env r i d = (d1, y)" by fastforce
  from process_details_deployment [OF assms(1) p] obtain dr1 where
    dr1: "get_deployment i d1 = Some dr1" "extends dr dr1" by blast
  show ?thesis
    using assms(2) dr1 by (auto simp: fingerprint_report_def p Let_def get_deployment_status
        dest!: get_deployment_aggregate [of _ _ _ _ _ _ i] split: res.splits prod.splits if_splits)
qed

lemma get_or_create_deployment_row:
  assumes "get_or_create_deployment j d = (d1, i)" and "list_all (\<lambda>dr. dr_id dr < next_id d) (deployments_reports d)"
  shows "\<exists>dr. get_deployment i d1 = Some dr \<and> (\<forall>dr'. job_deployment j d = Some dr' \<longrightarrow> dr = dr')"
    and "reports d1 = reports d"
proof -
  have new: "find (\<lambda>x. dr_id x = next_id d) (deployments_reports d) = None"
    using assms(2) by (auto simp: find_None_iff list_all_iff)
  have "find P (xs @ ys) = (case find P xs of None \<Rightarrow> find P ys | Some x \<Rightarrow> Some x)" for P and xs ys :: "deployments_report list"
    by (induction xs) auto
  with new have "get_deployment (next_id d) (d\<lparr>deployments_reports := deployments_reports d @ [dr], next_id := n\<rparr>) = Some dr"
    if "dr_id dr = next_id d" for dr n
    using that by (simp add: get_deployment_def row_get_def)
  moreover have "get_deployment (dr_id dr) d = Some dr" if "job_deployment j d = Some dr" for dr
    using that by (auto simp: job_deployment_def get_deployment_def dest: row_get_key split: option.splits)
  ultimately show "\<exists>dr. get_deployment i d1 = Some dr \<and> (\<forall>dr'. job_deployment j d = Some dr' \<longrightarrow> dr = dr')"
    using assms(1) by (auto simp: get_or_create_deployment_def split: option.splits)
  show "reports d1 = reports d"
    using assms(1) by (auto simp: get_or_create_deployment_def split: option.splits)
qed

text \<open>A run for a job with a report, in one statement.\<close>

lemma execute_task_deployment:
  assumes "sj_report j = Some k" and "get_report k d = Some r"
    and "list_all (\<lambda>dr. dr_id dr < next_id d) (deployments_reports d)"
    and "execute_task env j t d = (d', j', t', out)"
  shows "\<exists>i dr dr'. get_report k d' = Some (r\<lparr>re_deployment_report := Some i\<rparr>) \<and>
    (\<forall>dr0. job_deployment j d = Some dr0 \<longrightarrow> dr = dr0) \<and> get_deployment i d' = Some dr' \<and> extends dr dr' \<and>
    dr_status dr' = (if \<exists>m. out = Finished m COMPLETED then STATUS_COMPLETE else STATUS_FAILED)"
proof -
  obtain d1 i where g: "get_or_create_deployment j d = (d1, i)" by fastforce
  from get_or_create_deployment_row [OF g assms(3)] obtain dr where
    dr: "get_deployment i d1 = Some dr" "\<forall>dr0. job_deployment j d = Some dr0 \<longrightarrow> dr = dr0" "reports d1 = reports d"
    by blast
  define d2 where "d2 = set_report_deployment r i d1"
  let ?r = "r\<lparr>re_deployment_report := Some i\<rparr>"
  have "re_id r = k" using assms(2) by (auto simp: get_report_def dest: row_get_key)
  then have k: "get_report k d2 = Some ?r" "get_report k d1 = Some r"
    using assms(2) dr(3) by (simp_all add: d2_def set_report_deployment_def get_report_def row_get_save)
  obtain d3 x where f: "fingerprint_report env ?r i d2 = (d3, x)" by fastforce
  have "get_deployment i d2 = Some dr" using dr(1) by (simp add: d2_def set_report_deployment_def get_deployment_def)
  from fingerprint_report_deployment [OF this f] obtain dr' where dr': "get_deployment i d3 = Some dr'" "extends dr dr'"
    "if_returns (\<lambda>(m, s). dr_status dr' = (if s = COMPLETED then STATUS_COMPLETE else STATUS_FAILED)) x"
    by blast
  have "reports d3 = reports d2" using fingerprint_report_keeps(2) [of env ?r i d2] f by simp
  with k(1) have rep: "get_report k d3 = Some ?r" by (simp add: get_report_def)
  have run: "execute_task env j t d =
      (case x of Return (m, s) \<Rightarrow> (d3, j, t, Finished m s)
       | Raise e \<Rightarrow> (set_deployment_status i STATUS_FAILED d3, j, t, Crash e (describe env e)))"
    by (simp add: execute_task_def g assms(1) k(2) f [unfolded d2_def] split: res.splits)
  show ?thesis
  proof (cases x)
    case (Raise e)
    with assms(4) run have "d' = set_deployment_status i STATUS_FAILED d3" "out = Crash e (describe env e)" by simp_all
    then show ?thesis using dr' dr(2) rep
      by (intro exI [of _ i] exI [of _ dr] exI [of _ "dr'\<lparr>dr_status := STATUS_FAILED\<rparr>"])
        (simp add: get_deployment_status, simp add: set_deployment_status_def get_report_def)
  next
    case (Return p)
    obtain m s where "p = (m, s)" by fastforce
    with Return assms(4) run have "d' = d3" "out = Finished m s" "x = Return (m, s)" by simp_all
    then show ?thesis using dr' dr(2) rep
      by (intro exI [of _ i] exI [of _ dr] exI [of _ dr']) simp
  qed
qed

lemma represent_dates_id: "dgetn (represent_dates env fp) ''id'' = dgetn fp ''id''"
  by (simp add: represent_dates_def DATE_FIELDS_def dict_simps)

definition row_id :: "system_fingerprint \<Rightarrow> pyval" where
  "row_id row = PInt (int (sf_id row))"

lemma persist_result:
  assumes "list_all (\<lambda>fp. \<not> raises_on env i fp) fps"
  shows "\<exists>d' more. persist_fingerprints env i fps (d, final) = (d', Return (final @ more)) \<and>
    map sf_id (stored_rows env i fps (next_id d)) = [next_id d..<next_id d'] \<and> next_id d \<le> next_id d' \<and>
    length (stored_rows env i fps (next_id d)) = length (filter (\<lambda>fp. row_of env i fp \<noteq> None) fps) \<and>
    length more = (if bypass_cache env then 0 else length (filter (accepted env i) fps)) \<and>
    subseq (map (\<lambda>fp. dgetn fp ''id'') more) (map row_id (stored_rows env i fps (next_id d)))"
  using assms
proof (induction fps arbitrary: d final)
  case Nil
  then show ?case by simp
next
  case (Cons fp fps)
  let ?fd = "model_fields i fp"
  define d1 where "d1 = insert_left_over i (row_of env i fp) d"
  define new where "new = (if accepted env i fp \<and> \<not> bypass_cache env
    then [represent_dates env (AList.update ''id'' (PInt (int (next_id d))) ?fd)] else [])"
  have nr: "\<not> raises_on env i fp" and rest: "list_all (\<lambda>fp. \<not> raises_on env i fp) fps" using Cons.prems by simp_all
  have step: "persist_fingerprints env i (fp # fps) (d, final) = persist_fingerprints env i fps (d1, final @ new)"
    using nr by (cases "serialize env ?fd") (simp_all add: d1_def new_def row_of_def accepted_def raises_on_def Let_def)
  have rows: "stored_rows env i (fp # fps) (next_id d) =
      (case row_of env i fp of Some row \<Rightarrow> [row\<lparr>sf_id := next_id d\<rparr>] | None \<Rightarrow> []) @ stored_rows env i fps (next_id d1)"
    using nr by (simp add: d1_def split: option.split)
  have acc: "accepted env i fp \<Longrightarrow> row_of env i fp \<noteq> None"
    by (simp add: accepted_def row_of_def split: save_outcome.splits)
  from Cons.IH [OF rest, of d1 "final @ new"] obtain d' more where
    IH: "persist_fingerprints env i fps (d1, final @ new) = (d', Return ((final @ new) @ more))"
    "map sf_id (stored_rows env i fps (next_id d1)) = [next_id d1..<next_id d']" "next_id d1 \<le> next_id d'"
    "length (stored_rows env i fps (next_id d1)) = length (filter (\<lambda>fp. row_of env i fp \<noteq> None) fps)"
    "length more = (if bypass_cache env then 0 else length (filter (accepted env i) fps))"
    "subseq (map (\<lambda>fp. dgetn fp ''id'') more) (map row_id (stored_rows env i fps (next_id d1)))"
    by blast
  show ?case
  proof (intro exI [of _ d'] exI [of _ "new @ more"] conjI)
    show "persist_fingerprints env i (fp # fps) (d, final) = (d', Return (final @ new @ more))"
      using IH(1) step by simp
    show "length (new @ more) = (if bypass_cache env then 0 else length (filter (accepted env i) (fp # fps)))"
      using IH(5) by (simp add: new_def)
    show "subseq (map (\<lambda>fp. dgetn fp ''id'') (new @ more)) (map row_id (stored_rows env i (fp # fps) (next_id d)))"
      using IH(6) acc unfolding rows
      by (cases "row_of env i fp") (auto simp: new_def represent_dates_id dict_simps row_id_def)
    show "map sf_id (stored_rows env i (fp # fps) (next_id d)) = [next_id d..<next_id d']"
      using IH(2,3) unfolding rows by (cases "row_of env i fp") (simp_all add: d1_def upt_conv_Cons)
    show "next_id d \<le> next_id d'"
      using IH(3) by (cases "row_of env i fp") (simp_all add: d1_def)
    show "length (stored_rows env i (fp # fps) (next_id d)) = length (filter (\<lambda>fp. row_of env i fp \<noteq> None) (fp # fps))"
      using IH(4) unfolding rows by (cases "row_of env i fp") simp_all
  qed
qed

section \<open>Sample data\<close>

definition sample_env :: fp_env where
  "sample_env = \<lparr>bypass_cache = False,
     serialize = (\<lambda>fp. case dgetn fp ''name'' of
       PStr name \<Rightarrow> Saved (sample_row name True ''rhacs'' [] []) | _ \<Rightarrow> Invalid_fingerprint),
     date_representation = (\<lambda>v. v), uuid4 = sample_uuid, describe = (\<lambda>_. ''error'')\<rparr>"

definition sample_scanjob :: scanjob where
  "sample_scanjob = \<lparr>sj_id = 9, sj_scan_type = SCAN_TYPE_INSPECT, sj_status = RUNNING, sj_status_message = None,
     sj_start_time = None, sj_end_time = None, sj_scan = None, sj_connection_results = None, sj_report = Some 1\<rparr>"

definition sample_scantask :: scantask where
  "sample_scantask = new_task 8 9 SCAN_TYPE_FINGERPRINT 2 None None []"

definition sample_rerun_db :: db where
  "sample_rerun_db = sample_report_db\<lparr>
     inspect_groups := [sample_group\<lparr>ig_source_type := ''rhacs''\<rparr>],
     deployments_reports := [sample_deployment\<lparr>dr_cached_csv := Some ''old csv''\<rparr>],
     scanjobs := [sample_scanjob], next_id := 10\<rparr>"

lemma sample_rerun_ok:
  "sj_report sample_scanjob = Some 1" "get_report 1 sample_rerun_db = Some sample_report_row"
  "list_all (\<lambda>dr. dr_id dr < next_id sample_rerun_db) (deployments_reports sample_rerun_db)"
  "job_deployment sample_scanjob sample_rerun_db = Some (sample_deployment\<lparr>dr_cached_csv := Some ''old csv''\<rparr>)"
  "get_job (sj_id sample_scanjob) sample_rerun_db = Some sample_scanjob"
  by (simp_all add: sample_rerun_db_def sample_scanjob_def sample_report_db_def sample_report_row_def sample_deployment_def
      get_report_def row_get_def job_deployment_def get_deployment_def get_job_def)

definition strict_env :: fp_env where
  "strict_env = sample_env\<lparr>serialize := (\<lambda>_. Invalid_fingerprint)\<rparr>"

lemma sample_rerun_fails:
  "snd (snd (snd (execute_task strict_env sample_scanjob sample_scantask sample_rerun_db))) =
     Finished (no_fingerprints_message 1) FAILED"
  by code_simp

section \<open>Properties\<close>

text \<open>
  C2. After a fingerprint task the report can be downloaded exactly if the task completed: an engine
  that raises, a fingerprint that cannot be stored, a report without any valid fingerprint and a
  failure of the aggregate report all leave a deployments report with status failed, and no run
  leaves it pending.
\<close>

theorem download_iff_completed:
  assumes "sj_report j = Some k" and "get_report k d = Some r"
    and "list_all (\<lambda>dr. dr_id dr < next_id d) (deployments_reports d)"
    and "execute_task env j t d = (d', j', t', out)"
  shows "\<exists>r'. get_report k d' = Some r' \<and> cannot_download_reason r' d' \<noteq> Some DOWNLOAD_PENDING \<and>
    (can_download r' d' \<longleftrightarrow> (\<exists>m. out = Finished m COMPLETED))"
  using execute_task_deployment [OF assms]
  by (auto simp: can_download_def cannot_download_reason_def split: if_splits)

theorem download_iff_completed_witness:
  "\<exists>d' j' t' r'. execute_task strict_env sample_scanjob sample_scantask sample_rerun_db =
     (d', j', t', Finished (no_fingerprints_message 1) FAILED) \<and> get_report 1 d' = Some r' \<and> \<not> can_download r' d'"
proof -
  obtain d' j' t' out where r: "execute_task strict_env sample_scanjob sample_scantask sample_rerun_db = (d', j', t', out)"
    by (metis surj_pair)
  moreover have out: "out = Finished (no_fingerprints_message 1) FAILED" using sample_rerun_fails r by simp
  ultimately show ?thesis
    using download_iff_completed [OF sample_rerun_ok(1-3) r] by (auto simp: out)
qed



text \<open>
  C33. Running the fingerprint task of a report again keeps the rows of the earlier run and the CSV
  that was cached for them, whatever the outcome: the file exists, so its path is not cleared, and
  the download of the new report serves the old content.
\<close>

theorem rerun_keeps_stale_csv:
  assumes "sj_report j = Some k" and "get_report k d = Some r"
    and "list_all (\<lambda>dr. dr_id dr < next_id d) (deployments_reports d)"
    and "execute_task env j t d = (d', j', t', out)"
    and "job_deployment j d = Some dr"
  shows "\<exists>i dr'. get_report k d' = Some (r\<lparr>re_deployment_report := Some i\<rparr>) \<and> get_deployment i d' = Some dr' \<and>
    dr_cached_csv dr' = dr_cached_csv dr \<and>
    take (length (dr_system_fingerprints dr)) (dr_system_fingerprints dr') = dr_system_fingerprints dr"
  using execute_task_deployment [OF assms(1-4)] assms(5) by (auto simp: extends_def)

theorem rerun_keeps_stale_csv_witness:
  "\<exists>d' j' t' out dr' i. execute_task sample_env sample_scanjob sample_scantask sample_rerun_db = (d', j', t', out) \<and>
     get_deployment i d' = Some dr' \<and> dr_cached_csv dr' = Some ''old csv''"
proof -
  obtain d' j' t' out where r: "execute_task sample_env sample_scanjob sample_scantask sample_rerun_db = (d', j', t', out)"
    by (metis surj_pair)
  with rerun_keeps_stale_csv [OF sample_rerun_ok(1-3) r sample_rerun_ok(4)] show ?thesis by auto
qed

text \<open>
  Running the fingerprint task of a job never reopens or changes a finished job: with the runner
  of fingerprint tasks, a job keeps its status or goes from an unfinished to a final one.
\<close>

lemma fingerprint_run_advances_jobs:
  assumes "get_job (sj_id j) d = Some j"
  shows "job_advances i d (fst (run_task_runner (execute_task env) context_msg now j t d))"
  by (rule fingerprinter.run_task_runner_advances [OF assms])

lemma fingerprint_run_advances_jobs_example:
  "job_advances 9 sample_rerun_db
     (fst (run_task_runner (execute_task sample_env) (\<lambda>_ _. ''context'') 5 sample_scanjob sample_scantask sample_rerun_db))"
  by (rule fingerprint_run_advances_jobs [OF sample_rerun_ok(5)])

end
