(* ===== verification/Network_Process.thy ===== *)
theory Network_Process
  imports Fact_Utils
begin

text \<open>
  The post-processing of facts an Ansible playbook collects from a host:
  \<open>scanner/network/processing/process.py\<close> and the processors of
  \<open>scanner/network/processing/util.py\<close> that others are built from.

  A processor class is a record of its class attributes and its method \<open>process\<close>; the table
  \<open>PROCESSORS\<close>, which a metaclass fills, is an argument here and defined where all processors
  are known. Facts are JSON values, so no fact is an exception object. A \<open>ProcessedResult\<close> is the
  dict it is stored as. \<open>list(set(xs))\<close> has no specified order; it is \<open>remdups\<close>.
\<close>

section \<open>Access to values\<close>

definition NO_DATA :: pyval where "NO_DATA = PStr []"

definition SUDO_ERROR :: string where "SUDO_ERROR = ''sudo: a password is required''"

definition FORCE_POST_PROCESS :: string where "FORCE_POST_PROCESS = ''QUIPUCORDS_FORCE_POST_PROCESS''"

text \<open>\<open>v == 0\<close>\<close>

fun is_zero :: "pyval \<Rightarrow> bool" where
  "is_zero (PInt i) = (i = 0)"
| "is_zero (PBool b) = (\<not> b)"
| "is_zero (PFloat f) = (f = Fin 0)"
| "is_zero _ = False"

text \<open>A value whose \<open>str\<close> methods are called.\<close>

fun as_str :: "pyval \<Rightarrow> string res" where
  "as_str (PStr s) = Return s"
| "as_str _ = Raise AttributeError"

text \<open>\<open>v[-1]\<close>\<close>

fun py_last :: "pyval \<Rightarrow> pyval res" where
  "py_last (PList xs) = (if xs = [] then Raise IndexError else Return (last xs))"
| "py_last (PStr s) = (if s = [] then Raise IndexError else Return (PStr [last s]))"
| "py_last (PDict _) = Raise KeyError"
| "py_last _ = Raise TypeError"

text \<open>\<open>list(set(xs))\<close>\<close>

definition unique_list :: "pyval list \<Rightarrow> pyval list res" where
  "unique_list xs = bind_res (map_res as_key xs) (\<lambda>ks. Return (remdups ks))"

text \<open>The elements of \<open>v[k]\<close> and of \<open>v.get(k, [])\<close>.\<close>

definition item_iter :: "pyval \<Rightarrow> string \<Rightarrow> pyval list res" where
  "item_iter v k = bind_res (vitem v k) py_iter"

definition get_iter :: "pyval \<Rightarrow> string \<Rightarrow> pyval list res" where
  "get_iter v k = bind_res (vget v k (PList [])) py_iter"

text \<open>A comprehension \<open>[f(x) for x in xs if test(x)]\<close> whose parts may raise.\<close>

fun comprehension :: "(pyval \<Rightarrow> bool res) \<Rightarrow> (pyval \<Rightarrow> 'a res) \<Rightarrow> pyval list \<Rightarrow> 'a list res" where
  "comprehension test f [] = Return []"
| "comprehension test f (x # xs) =
     bind_res (test x) (\<lambda>b.
       if b then bind_res (f x) (\<lambda>y. bind_res (comprehension test f xs) (\<lambda>ys. Return (y # ys)))
       else comprehension test f xs)"

section \<open>The framework\<close>

record processor =
  DEPS :: "string list"
  REQUIRE_DEPS :: bool
  RETURN_CODE_ANY :: bool
  proc :: "pyval \<Rightarrow> pydict \<Rightarrow> pyval res"

fun is_sudo_error_value :: "pyval \<Rightarrow> bool" where
  "is_sudo_error_value (PStr s) = (s = SUDO_ERROR)"
| "is_sudo_error_value (PList xs) = (xs = [PStr SUDO_ERROR])"
| "is_sudo_error_value (PDict d) = (dget d ''stdout'' (PStr []) = PStr SUDO_ERROR)"
| "is_sudo_error_value _ = False"

fun is_ansible_task_result :: "pyval \<Rightarrow> bool" where
  "is_ansible_task_result (PDict d) =
     (has_key d ''skipped'' \<or> has_key d ''failed'' \<or> has_key d ''rc'' \<or> has_key d ''results'')"
| "is_ansible_task_result _ = False"

definition missing_dep :: "processor \<Rightarrow> pydict \<Rightarrow> bool" where
  "missing_dep p previous_host_facts \<longleftrightarrow>
     REQUIRE_DEPS p \<and> list_ex (\<lambda>dep. \<not> truthy (dgetn previous_host_facts dep)) (DEPS p)"

definition dependencies :: "processor \<Rightarrow> pydict \<Rightarrow> pydict" where
  "dependencies p previous_host_facts =
     fold (\<lambda>dep. AList.update dep (dgetn previous_host_facts dep)) (DEPS p) []"

text \<open>What the checks before the processor decide: go on, give up, or an exception that is raised
  while the message of a failed command is built.\<close>

definition unusable_result :: "processor \<Rightarrow> pyval \<Rightarrow> bool res" where
  "unusable_result p fact_value =
     (if fact_value = PStr FORCE_POST_PROCESS then Return False
      else
        (case fact_value of
           PDict d \<Rightarrow>
             if \<not> is_ansible_task_result fact_value then Return True
             else if truthy (dget d ''skipped'' (PBool False)) then Return True
             else if truthy (dget d ''rc'' (PInt 0)) \<and> \<not> RETURN_CODE_ANY p
             then bind_res (ditem d ''stdout'') (\<lambda>_. Return True)
             else Return False
         | _ \<Rightarrow> Return True))"

definition process_fact_value ::
  "(string \<times> processor) list \<Rightarrow> pydict \<Rightarrow> string \<Rightarrow> pyval \<Rightarrow> pyval res" where
  "process_fact_value PROCESSORS previous_host_facts fact_key fact_value =
     (if is_sudo_error_value fact_value then Return NO_DATA
      else
        (case map_of PROCESSORS fact_key of
           None \<Rightarrow> Return fact_value
         | Some p \<Rightarrow>
             if missing_dep p previous_host_facts then Return NO_DATA
             else
               bind_res (unusable_result p fact_value) (\<lambda>unusable.
                 if unusable then Return NO_DATA
                 else
                   (case proc p fact_value (dependencies p previous_host_facts) of
                      Return v \<Rightarrow> Return v
                    | Raise _ \<Rightarrow> Return NO_DATA))))"

section \<open>Building blocks of processors\<close>

definition plain :: "(pyval \<Rightarrow> pyval res) \<Rightarrow> processor" where
  "plain f = \<lparr>DEPS = [], REQUIRE_DEPS = True, RETURN_CODE_ANY = False, proc = (\<lambda>output _. f output)\<rparr>"

definition get_line :: "pyval \<Rightarrow> pyval res" where
  "get_line ls = (case py_last ls of Raise IndexError \<Rightarrow> Return NO_DATA | r \<Rightarrow> r)"

definition last_line :: "pyval \<Rightarrow> pyval res" where
  "last_line output = bind_res (vitem output ''stdout_lines'') get_line"

text \<open>\<open>line.split()[0]\<close>\<close>

definition first_word :: "string \<Rightarrow> string res" where
  "first_word s = (case split_ws s of [] \<Rightarrow> Raise IndexError | w # _ \<Rightarrow> Return w)"

definition InitLineFinder :: "string list \<Rightarrow> string list option \<Rightarrow> pyval \<Rightarrow> pyval res" where
  "InitLineFinder KEYWORDS IGNORE_WORDS output =
     bind_res (item_iter output ''stdout_lines'') (\<lambda>ls.
     bind_res (comprehension
       (\<lambda>line.
          if \<not> truthy line then Return False
          else
            bind_res (as_str line) (\<lambda>s.
            bind_res (first_word s) (\<lambda>start.
              Return (list_ex (\<lambda>k. contains k start) KEYWORDS \<and>
                (case IGNORE_WORDS of
                   None \<Rightarrow> True
                 | Some ws \<Rightarrow> ws \<noteq> [] \<and> \<not> list_ex (\<lambda>w. contains w start) ws)))))
       (\<lambda>line. bind_res (as_str line) (\<lambda>s. Return (PStr (py_strip s)))) ls) (\<lambda>matches.
       Return (PList matches)))"

text \<open>\<open>jar, date = version_stamp.split("**")\<close>\<close>

definition jar_version :: "string \<Rightarrow> pyval res" where
  "jar_version version_stamp =
     (case split_on ''**'' version_stamp of
        [jar, date] \<Rightarrow> Return (PDict [(''version'', PStr jar), (''date'', PStr date)])
      | _ \<Rightarrow> Raise ValueError)"

definition FindJarVer :: "pyval \<Rightarrow> pyval res" where
  "FindJarVer output =
     bind_res (item_iter output ''stdout_lines'') (\<lambda>ls.
     bind_res (comprehension (\<lambda>line. Return (line \<noteq> PStr []))
       (\<lambda>line. bind_res (as_str line) (\<lambda>s. map_res jar_version (split_on ''; '' s))) ls) (\<lambda>vss.
       Return (PList (concat vss))))"

definition FindJar :: "pyval \<Rightarrow> pyval res" where
  "FindJar output =
     bind_res (item_iter output ''stdout_lines'') (\<lambda>ls.
     bind_res (comprehension (\<lambda>line. bind_res (as_str line) (\<lambda>s. Return (py_strip s \<noteq> [])))
       (\<lambda>line. bind_res (as_str line) (\<lambda>s. Return (map PStr (split_on ''; '' s)))) ls) (\<lambda>vss.
       Return (PList (concat vss))))"

text \<open>The key a value gets in a dict that is stored as JSON.\<close>

fun json_key :: "pyval \<Rightarrow> string res" where
  "json_key (PStr s) = Return s"
| "json_key (PBool b) = Return (if b then ''true'' else ''false'')"
| "json_key PNone = Return ''null''"
| "json_key (PList _) = Raise TypeError"
| "json_key (PDict _) = Raise TypeError"
| "json_key v = Return (py_str v)"

definition per_item_step :: "(pyval \<Rightarrow> pyval res) \<Rightarrow> pyval \<Rightarrow> pydict \<Rightarrow> pydict res" where
  "per_item_step process_item item result =
     bind_res (vitem item ''item'') (\<lambda>item_name.
       if \<not> truthy item_name then Return result
       else
         (case process_item item of
            Raise _ \<Rightarrow> Return result
          | Return val \<Rightarrow>
              if val = PNone then Return result
              else bind_res (json_key item_name) (\<lambda>k. Return (AList.update k val result))))"

definition PerItemProcessor :: "(pyval \<Rightarrow> pyval res) \<Rightarrow> pyval \<Rightarrow> pyval res" where
  "PerItemProcessor process_item output =
     bind_res (item_iter output ''results'') (\<lambda>items.
     bind_res (fold_res (per_item_step process_item) items []) (\<lambda>result. Return (PDict result)))"

definition IndicatorFileFinder :: "string list \<Rightarrow> pyval \<Rightarrow> pyval res" where
  "IndicatorFileFinder INDICATOR_FILES item =
     bind_res (vget item ''rc'' (PBool True)) (\<lambda>rc.
       if truthy rc then Return (PList [])
       else
         bind_res (vitem item ''stdout_lines'') (\<lambda>files.
         bind_res (comprehension (\<lambda>f. bind_res (as_str f) (\<lambda>s. text_in s files)) Return
           (map PStr INDICATOR_FILES)) (\<lambda>found. Return (PList found))))"

definition StdoutSearchProcessor :: "string \<Rightarrow> pyval \<Rightarrow> pyval res" where
  "StdoutSearchProcessor SEARCH_STRING item =
     bind_res (vget item ''rc'' (PBool True)) (\<lambda>rc.
       if truthy rc then Return (PBool False)
       else
         bind_res (vitem item ''stdout'') (\<lambda>stdout.
         bind_res (text_in SEARCH_STRING stdout) (\<lambda>b. Return (PBool b))))"

definition StdoutPassthroughProcessor :: "pyval \<Rightarrow> pyval res" where
  "StdoutPassthroughProcessor item =
     bind_res (vitem item ''rc'') (\<lambda>rc.
       if is_zero rc then
         bind_res (vitem item ''stdout'') (\<lambda>stdout. bind_res (as_str stdout) (\<lambda>s. Return (PStr (py_strip s))))
       else Return (PBool False))"

definition ItemSuccessChecker :: "pyval \<Rightarrow> pyval res" where
  "ItemSuccessChecker item = bind_res (vget item ''rc'' (PInt 1)) (\<lambda>rc. Return (PBool (is_zero rc)))"

end
