(* ===== verification/Ip_Text.thy ===== *)
theory Ip_Text
  imports Py_Text
begin

text \<open>
  The part of Python's \<open>ipaddress\<close> the sources use: which texts are addresses, the number an
  address stands for, the text of a number, networks in the notation with a prefix length or a
  mask, and the hosts of a network. An address is a natural number; \<open>None\<close> stands for the
  subclasses of \<open>ValueError\<close> the constructors raise. The text of an IPv6 address is the one of
  Python 3.12.
\<close>

section \<open>IPv4 addresses\<close>

definition octet :: "string \<Rightarrow> nat option" where
  "octet s =
     (if s = [] \<or> list_ex (\<lambda>c. digit_val c = None) s \<or> length s > 3
         \<or> (length s > 1 \<and> hd s = CHR ''0'') then None
      else case digits_acc 0 s of Some n \<Rightarrow> if n > 255 then None else Some n | None \<Rightarrow> None)"

definition ipv4_int :: "string \<Rightarrow> nat option" where
  "ipv4_int s =
     (case map octet (split_on ''.'' s) of
        [Some a, Some b, Some c, Some d] \<Rightarrow> Some (((a * 256 + b) * 256 + c) * 256 + d)
      | _ \<Rightarrow> None)"

definition ipv4_text :: "nat \<Rightarrow> string" where
  "ipv4_text n =
     py_join ''.'' (map show_nat [n div 16777216 mod 256, n div 65536 mod 256, n div 256 mod 256, n mod 256])"

definition IPv4Address :: "string \<Rightarrow> nat option" where
  "IPv4Address s = (if contains ''/'' s then None else ipv4_int s)"

section \<open>IPv6 addresses\<close>

definition hextet :: "string \<Rightarrow> nat option" where
  "hextet s =
     (if s = [] \<or> length s > 4 \<or> list_ex (\<lambda>c. hex_val c = None) s then None
      else Some (foldl (\<lambda>a c. a * 16 + (case hex_val c of Some d \<Rightarrow> d | None \<Rightarrow> 0)) 0 s))"

fun hextets_int :: "nat \<Rightarrow> string list \<Rightarrow> nat option" where
  "hextets_int a [] = Some a"
| "hextets_int a (p # ps) = (case hextet p of None \<Rightarrow> None | Some h \<Rightarrow> hextets_int (a * 65536 + h) ps)"

fun hex_text :: "nat \<Rightarrow> string" where
  "hex_text n =
     (let digit = (\<lambda>d. char_of (if d < 10 then 48 + d else 87 + d))
      in if n < 16 then [digit n] else hex_text (n div 16) @ [digit (n mod 16)])"

declare hex_text.simps [simp del]

text \<open>An IPv4 address at the end stands for the last two groups.\<close>

definition ipv6_parts :: "string \<Rightarrow> string list option" where
  "ipv6_parts s =
     (let parts = split_on '':'' s
      in if s = [] \<or> length parts < 3 then None
         else if contains ''.'' (last parts) then
           map_option (\<lambda>n. butlast parts @ [hex_text (n div 65536), hex_text (n mod 65536)]) (IPv4Address (last parts))
         else Some parts)"

text \<open>The empty groups between the first and the last: where \<open>::\<close> is.\<close>

definition skip_positions :: "string list \<Rightarrow> nat list" where
  "skip_positions parts = filter (\<lambda>i. parts ! i = []) [1..<length parts - 1]"

definition ipv6_int :: "string \<Rightarrow> nat option" where
  "ipv6_int s =
     (case ipv6_parts s of
        None \<Rightarrow> None
      | Some parts \<Rightarrow>
          if length parts > 9 then None
          else
            (case skip_positions parts of
               [] \<Rightarrow> if length parts \<noteq> 8 then None else hextets_int 0 parts
             | [i] \<Rightarrow>
                 (let before = take i parts; after = drop (i + 1) parts;
                      hi = (if hd parts = [] then tl before else before);
                      lo = (if last parts = [] then butlast after else after)
                  in if (hd parts = [] \<and> hi \<noteq> []) \<or> (last parts = [] \<and> lo \<noteq> []) then None
                     else if length hi + length lo > 7 then None
                     else
                       (case hextets_int 0 hi of
                          None \<Rightarrow> None
                        | Some h \<Rightarrow> hextets_int (h * 65536 ^ (8 - (length hi + length lo))) lo))
             | _ \<Rightarrow> None))"

text \<open>The address and its scope.\<close>

definition IPv6Address :: "string \<Rightarrow> (nat \<times> string) option" where
  "IPv6Address s =
     (if contains ''/'' s then None
      else
        (case partition_at ''%'' s of (addr, sep, scope_id) \<Rightarrow>
           if sep \<and> (scope_id = [] \<or> contains ''%'' scope_id) then None
           else map_option (\<lambda>n. (n, scope_id)) (ipv6_int addr)))"

definition ipv6_groups :: "nat \<Rightarrow> nat list" where
  "ipv6_groups n = map (\<lambda>i. n div 65536 ^ i mod 65536) [7, 6, 5, 4, 3, 2, 1, 0]"

text \<open>The first of the longest runs of zero groups, if it has at least two groups.\<close>

definition zero_run :: "nat list \<Rightarrow> nat \<Rightarrow> nat" where
  "zero_run gs i = length (takeWhile (\<lambda>g. g = 0) (drop i gs))"

definition best_run :: "nat list \<Rightarrow> nat option" where
  "best_run gs =
     (let longest = Max (set (map (zero_run gs) [0..<length gs]))
      in if longest < 2 then None else find (\<lambda>i. zero_run gs i = longest) [0..<length gs])"

definition ipv6_text :: "nat \<Rightarrow> string" where
  "ipv6_text n =
     (let gs = ipv6_groups n; texts = map hex_text gs
      in case best_run gs of
           None \<Rightarrow> py_join '':'' texts
         | Some i \<Rightarrow> py_join '':'' (take i texts) @ ''::'' @ py_join '':'' (drop (i + zero_run gs i) texts))"

section \<open>Networks\<close>

definition prefix_from_prefix_string :: "nat \<Rightarrow> string \<Rightarrow> nat option" where
  "prefix_from_prefix_string width s =
     (if s = [] \<or> list_ex (\<lambda>c. digit_val c = None) s then None
      else case digits_acc 0 s of Some n \<Rightarrow> if n \<le> width then Some n else None | None \<Rightarrow> None)"

text \<open>A mask of ones followed by zeros, or its complement.\<close>

definition prefix_from_ip_int :: "nat \<Rightarrow> nat option" where
  "prefix_from_ip_int m = find (\<lambda>p. m = 2 ^ 32 - 2 ^ (32 - p)) [0..<33]"

definition prefix_from_ip_string :: "string \<Rightarrow> nat option" where
  "prefix_from_ip_string s =
     (case ipv4_int s of
        None \<Rightarrow> None
      | Some m \<Rightarrow>
          (case prefix_from_ip_int m of
             Some p \<Rightarrow> Some p
           | None \<Rightarrow> prefix_from_ip_int (2 ^ 32 - 1 - m)))"

definition make_netmask4 :: "string \<Rightarrow> nat option" where
  "make_netmask4 s =
     (case prefix_from_prefix_string 32 s of Some p \<Rightarrow> Some p | None \<Rightarrow> prefix_from_ip_string s)"

text \<open>The first address of the network an address is in.\<close>

definition network_base :: "nat \<Rightarrow> nat \<Rightarrow> nat \<Rightarrow> nat" where
  "network_base width p n = n - n mod 2 ^ (width - p)"

definition hosts4 :: "nat \<Rightarrow> nat \<Rightarrow> string list" where
  "hosts4 p n =
     (let base = network_base 32 p n
      in map ipv4_text
           (if p = 32 then [n]
            else if p = 31 then [base, base + 1]
            else [base + 1..<base + 2 ^ (32 - p) - 1]))"

definition hosts6 :: "nat \<Rightarrow> nat \<times> string \<Rightarrow> string list" where
  "hosts6 p a =
     (case a of (n, scope) \<Rightarrow>
       (let base = network_base 128 p n
        in if p = 128 then [ipv6_text n @ (if scope = [] then [] else ''%'' @ scope)]
           else map ipv6_text
             (if p = 127 then [base, base + 1] else [base + 1..<base + 2 ^ (128 - p)])))"

text \<open>\<open>[str(ip) for ip in ip_network(s, strict=False).hosts()]\<close> for a text with a slash.\<close>

definition network_hosts :: "string \<Rightarrow> string list option" where
  "network_hosts s =
     (case split_on ''/'' s of
        [addr, netmask] \<Rightarrow>
          (case (IPv4Address addr, make_netmask4 netmask) of
             (Some n, Some p) \<Rightarrow> Some (hosts4 p n)
           | _ \<Rightarrow>
               (case (IPv6Address addr, prefix_from_prefix_string 128 netmask) of
                  (Some a, Some p) \<Rightarrow> Some (hosts6 p a)
                | _ \<Rightarrow> None))
      | _ \<Rightarrow> None)"

section \<open>Splitting at a character\<close>

lemma split_at_absent: "c \<notin> set s \<Longrightarrow> partition_at [c] s = (s, False, [])"
  by (induction s) auto

lemma split_at_first: "c \<notin> set s \<Longrightarrow> partition_at [c] (s @ c # t) = (s, True, t)"
  by (induction s) auto

lemma split_on_absent: "c \<notin> set s \<Longrightarrow> split_on [c] s = [s]"
  by (subst split_on.simps) (simp add: split_at_absent)

lemma split_on_first: "c \<notin> set s \<Longrightarrow> split_on [c] (s @ c # t) = s # split_on [c] t"
  by (subst split_on.simps) (simp add: split_at_first)

lemma split_at_sound: "partition_at [c] s = (a, f, b) \<Longrightarrow> c \<notin> set a \<and> s = (if f then a @ c # b else a)"
proof (induction s arbitrary: a)
  case Nil
  then show ?case by simp
next
  case (Cons x s)
  then show ?case by (cases "x = c") (auto split: prod.splits)
qed

lemma split_at_nonempty: "split_on [c] s \<noteq> []"
  by (subst split_on.simps) (simp split: prod.split)

lemma join_split: "py_join [c] (split_on [c] s) = s"
proof (induction "length s" arbitrary: s rule: less_induct)
  case less
  obtain a f b where p: "partition_at [c] s = (a, f, b)" by (cases "partition_at [c] s")
  note sound = split_at_sound [OF p]
  show ?case
  proof (cases f)
    case True
    with sound have "length b < length s" by simp
    note IH = less [OF this]
    have "py_join [c] (a # split_on [c] b) = a @ c # py_join [c] (split_on [c] b)"
      using split_at_nonempty [of c b] by (cases "split_on [c] b") simp_all
    with p True IH sound show ?thesis by (subst split_on.simps) simp
  next
    case False
    with p sound show ?thesis by (subst split_on.simps) simp
  qed
qed

lemma split_on_set: "a \<in> set (split_on [c] s) \<Longrightarrow> c \<notin> set a"
proof (induction "length s" arbitrary: s rule: less_induct)
  case less
  obtain h f b where p: "partition_at [c] s = (h, f, b)" by (cases "partition_at [c] s")
  note sound = split_at_sound [OF p]
  show ?case
  proof (cases "f \<and> a \<in> set (split_on [c] b)")
    case True
    with sound have "length b < length s" by simp
    from less(1) [OF this] True show ?thesis by simp
  next
    case False
    from less(2) p have "a = h \<or> (f \<and> a \<in> set (split_on [c] b))"
      by (subst (asm) split_on.simps) (auto split: if_splits)
    with False have "a = h" by blast
    with sound show ?thesis by simp
  qed
qed

section \<open>IPv4 addresses and their text\<close>

lemma digits_acc_value:
  "list_all (\<lambda>c. digit_val c \<noteq> None) s \<Longrightarrow>
     digits_acc a s = Some (foldl (\<lambda>n c. 10 * n + the (digit_val c)) a s)"
proof (induction s arbitrary: a)
  case Nil
  then show ?case by simp
next
  case (Cons c s)
  then obtain d where "digit_val c = Some d" by auto
  with Cons show ?case by (simp add: digits_acc_digit)
qed

lemma digit_char_val: "digit_val c = Some d \<Longrightarrow> digit_char d = c"
  by (auto simp: digit_val_def digit_char_def code_def split: if_splits)

lemma octet_text: "n < 256 \<Longrightarrow> octet (show_nat n) = Some n"
proof -
  assume n: "n < 256"
  have dig: "\<not> list_ex (\<lambda>c. digit_val c = None) (show_nat n)"
    using show_nat_digits [of _ n] by (fastforce simp: list_ex_iff)
  have short: "length (show_nat n) \<le> 3 \<and> (1 < length (show_nat n) \<longrightarrow> hd (show_nat n) \<noteq> CHR ''0'')"
  proof -
    have zero: "digit_char d \<noteq> CHR ''0''" if "0 < d" "d < 10" for d
      using that digit_val_digit_char [of d] by (auto simp: digit_val_def code_def)
    consider "n < 10" | "10 \<le> n" "n < 100" | "100 \<le> n" by linarith
    then show ?thesis
    proof cases
      case 1
      then show ?thesis by (simp add: show_nat.simps [of n])
    next
      case 2
      then have "show_nat (n div 10) = [digit_char (n div 10)]" by (simp add: show_nat.simps)
      moreover have "0 < n div 10" "n div 10 < 10" using 2 by auto
      ultimately show ?thesis using 2 zero by (simp add: show_nat.simps [of n])
    next
      case 3
      have q: "0 < n div 100" "n div 100 < 10" "n div 10 div 10 = n div 100" using 3 n by auto
      then have "show_nat (n div 10) = [digit_char (n div 100), digit_char (n div 10 mod 10)]"
        using 3 by (subst show_nat.simps) (simp add: show_nat.simps [of "n div 100"])
      then show ?thesis using 3 q zero by (simp add: show_nat.simps [of n])
    qed
  qed
  then show ?thesis
    using n dig digits_acc_show_nat [of n] by (auto simp: octet_def)
qed

lemma octet_sound: "octet s = Some n \<Longrightarrow> n < 256 \<and> s = show_nat n"
proof -
  assume o: "octet s = Some n"
  then have dig: "list_all (\<lambda>c. digit_val c \<noteq> None) s" and len: "s \<noteq> []" "length s \<le> 3"
    and lead: "length s \<le> 1 \<or> hd s \<noteq> CHR ''0''" and val: "digits_acc 0 s = Some n" and n: "n < 256"
    by (auto simp: octet_def list_all_iff list_ex_iff split: if_splits option.splits)
  have nz: "0 < d" if "digit_val c = Some d" "c \<noteq> CHR ''0''" for c d
  proof (rule ccontr)
    assume "\<not> 0 < d"
    with that have "code c = code (CHR ''0'')" by (auto simp: digit_val_def code_def split: if_splits)
    then have "c = CHR ''0''" by (simp only: code_def of_char_eq_iff)
    with that show False by simp
  qed
  have two: "show_nat (10 * x + y) = [digit_char x, digit_char y]" if "0 < x" "x < 10" "y < 10" for x y
    using that by (simp add: show_nat.simps [of "10 * x + y"] show_nat.simps [of x])
  consider a where "s = [a]" | a b where "s = [a, b]" | a b c where "s = [a, b, c]"
    using len by (cases s; cases "tl s"; cases "tl (tl s)"; cases "tl (tl (tl s))") auto
  then have "s = show_nat n"
  proof cases
    case 1
    with dig obtain x where "digit_val a = Some x" by auto
    with 1 val digit_val_less [of a x] digit_char_val [of a x] show ?thesis
      by (simp add: show_nat.simps)
  next
    case 2
    with dig obtain x y where xy: "digit_val a = Some x" "digit_val b = Some y" by auto
    then have "0 < x" "x < 10" "y < 10" using 2 lead nz digit_val_less by auto
    moreover have "n = 10 * x + y" using 2 val xy by simp
    ultimately show ?thesis
      using 2 digit_char_val [OF xy(1)] digit_char_val [OF xy(2)] by (simp add: two)
  next
    case 3
    with dig obtain x y z where xyz: "digit_val a = Some x" "digit_val b = Some y" "digit_val c = Some z"
      by auto
    then have lt: "0 < x" "x < 10" "y < 10" "z < 10" using 3 lead nz digit_val_less by auto
    have eq: "n = 10 * (10 * x + y) + z" using 3 val xyz by simp
    have m: "(10 * k + z) div 10 = k" "(10 * k + z) mod 10 = z" for k using lt by simp_all
    have "n div 10 = 10 * x + y" "n mod 10 = z" unfolding eq by (rule m)+
    moreover have "\<not> n < 10" unfolding eq using lt(1) by (cases x) simp_all
    moreover have "show_nat (10 * x + y) = [a, b]"
      using lt digit_char_val [OF xyz(1)] digit_char_val [OF xyz(2)] by (simp add: two)
    ultimately show ?thesis using 3 digit_char_val [OF xyz(3)] by (simp add: show_nat.simps [of n])
  qed
  with n show ?thesis by simp
qed

lemma show_nat_no_dot: "CHR ''.'' \<notin> set (show_nat n)" "CHR ''/'' \<notin> set (show_nat n)"
  using show_nat_digits [of _ n]
  by (fastforce simp: digit_char_def code_def dest!: arg_cong [of _ _ code] simp: code_char_of)+

lemma split_ipv4_text:
  "split_on ''.'' (ipv4_text n) =
     map show_nat [n div 16777216 mod 256, n div 65536 mod 256, n div 256 mod 256, n mod 256]"
proof -
  have "split_on ''.'' (show_nat m @ CHR ''.'' # t) = show_nat m # split_on ''.'' t" for m t
    by (rule split_on_first) (rule show_nat_no_dot)
  moreover have "split_on ''.'' (show_nat m) = [show_nat m]" for m
    by (rule split_on_absent) (rule show_nat_no_dot)
  ultimately show ?thesis by (simp add: ipv4_text_def)
qed

lemma digits256: "n < 2 ^ 32 \<Longrightarrow>
  ((n div 16777216 mod 256 * 256 + n div 65536 mod 256) * 256 + n div 256 mod 256) * 256 + n mod 256 = (n::nat)"
proof -
  assume n: "n < 2 ^ 32"
  have e: "n div 65536 = n div 256 div 256" "n div 16777216 = n div 256 div 256 div 256"
    by (simp_all add: div_mult2_eq [symmetric])
  have "n div 256 div 256 div 256 < 256" using n by (simp add: div_mult2_eq [symmetric] div_less_iff_less_mult)
  then have "n div 16777216 mod 256 = n div 256 div 256 div 256" by (simp only: e mod_less)
  then show ?thesis by (simp only: e div_mult_mod_eq)
qed

lemma ipv4_int_text: "n < 2 ^ 32 \<Longrightarrow> ipv4_int (ipv4_text n) = Some n"
  using digits256 [of n] by (simp add: ipv4_int_def split_ipv4_text octet_text)

lemma undigits256:
  assumes "a < 256" "b < 256" "c < 256" "d < (256::nat)"
  defines "n \<equiv> ((a * 256 + b) * 256 + c) * 256 + d"
  shows "n mod 256 = d" "n div 256 mod 256 = c" "n div 65536 mod 256 = b" "n div 16777216 mod 256 = a"
    "n < 2 ^ 32"
proof -
  have e: "n div 65536 = n div 256 div 256" "n div 16777216 = n div 256 div 256 div 256"
    by (simp_all add: div_mult2_eq [symmetric])
  have n1: "n div 256 = (a * 256 + b) * 256 + c" using assms by simp
  have n2: "n div 256 div 256 = a * 256 + b" unfolding n1 using assms by simp
  have n3: "n div 256 div 256 div 256 = a" unfolding n2 using assms by simp
  have m: "(x * 256 + y) mod 256 = y" if "y < 256" for x y :: nat using that by simp
  show "n mod 256 = d" unfolding n_def using assms(4) by (rule m)
  show "n div 256 mod 256 = c" unfolding n1 using assms(3) by (rule m)
  show "n div 65536 mod 256 = b" unfolding e n2 using assms(2) by (rule m)
  show "n div 16777216 mod 256 = a" unfolding e n3 using assms by simp
  show "n < 2 ^ 32" using assms by simp
qed

lemma ipv4_int_sound: "ipv4_int s = Some n \<Longrightarrow> n < 2 ^ 32 \<and> ipv4_text n = s"
proof -
  assume i: "ipv4_int s = Some n"
  obtain p q r t where sp: "split_on ''.'' s = [p, q, r, t]"
    and o: "octet p \<noteq> None" "octet q \<noteq> None" "octet r \<noteq> None" "octet t \<noteq> None"
    using i by (auto simp: ipv4_int_def split: list.splits option.splits)
  then obtain a b c d where oo: "octet p = Some a" "octet q = Some b" "octet r = Some c" "octet t = Some d"
    by auto
  then have n: "n = ((a * 256 + b) * 256 + c) * 256 + d" using i sp by (simp add: ipv4_int_def)
  note snd = oo [THEN octet_sound]
  have lt: "a < 256" "b < 256" "c < 256" "d < 256" using snd by auto
  have "s = py_join ''.'' [p, q, r, t]" using join_split [of "CHR ''.''" s] sp by simp
  then show ?thesis using snd undigits256 [OF lt] unfolding n by (simp add: ipv4_text_def)
qed

lemma ipv4_no_slash: "\<not> contains ''/'' (ipv4_text n)"
proof
  assume "contains ''/'' (ipv4_text n)"
  then have "CHR ''/'' \<in> set (ipv4_text n)" by (auto simp: contains_sublist sublist_def)
  then show False using show_nat_no_dot(2) by (auto simp: ipv4_text_def)
qed

lemma ipv4_text_inject: "ipv4_text m = ipv4_text n \<Longrightarrow> m < 2 ^ 32 \<Longrightarrow> n < 2 ^ 32 \<Longrightarrow> m = n"
  by (metis ipv4_int_text option.inject)

end
