(* ===== verification/Json_Text.thy ===== *)
theory Json_Text
  imports Py_Convert
begin

text \<open>
  \<open>json.loads\<close> of Python's standard library: white space, literals (with \<open>NaN\<close> and the infinities),
  numbers, strings with escapes, arrays and objects, where the last of equal keys wins. \<open>None\<close>
  stands for a \<open>JSONDecodeError\<close>. An escape beyond the first 256 code points gives a question
  mark. The parsers of values take fuel; a text needs no more than its length.
\<close>

type_synonym 'a parser = "string \<Rightarrow> ('a \<times> string) option"

definition json_space :: "char \<Rightarrow> bool" where
  "json_space c \<longleftrightarrow> code c \<in> {9, 10, 13, 32}"

definition skip_space :: "string \<Rightarrow> string" where
  "skip_space = dropWhile json_space"

definition is_digit_char :: "char \<Rightarrow> bool" where
  "is_digit_char c \<longleftrightarrow> digit_val c \<noteq> None"

definition hex4 :: "string \<Rightarrow> nat option" where
  "hex4 s =
     (case map hex_val s of
        [Some a, Some b, Some c, Some d] \<Rightarrow> Some (((a * 16 + b) * 16 + c) * 16 + d)
      | _ \<Rightarrow> None)"

definition escape_char :: "char \<Rightarrow> char option" where
  "escape_char c =
     (if code c \<in> {34, 92, 47} then Some c
      else map_option char_of (map_of [(98::nat, 8::nat), (102, 12), (110, 10), (114, 13), (116, 9)] (code c)))"

text \<open>The rest of a string after its opening quote.\<close>

fun json_string :: "string parser" where
  "json_string [] = None"
| "json_string (c # s) =
     (if code c = 34 then Some ([], s)
      else if code c < 32 then None
      else if code c \<noteq> 92 then map_option (\<lambda>(t, r). (c # t, r)) (json_string s)
      else
        (case s of
           [] \<Rightarrow> None
         | e # s' \<Rightarrow>
             if code e = 117 then
               (case hex4 (take 4 s') of
                  None \<Rightarrow> None
                | Some n \<Rightarrow>
                    map_option (\<lambda>(t, r). ((if n < 256 then char_of n else CHR ''?'') # t, r)) (json_string (drop 4 s')))
             else
               (case escape_char e of
                  None \<Rightarrow> None
                | Some x \<Rightarrow> map_option (\<lambda>(t, r). (x # t, r)) (json_string s'))))"

text \<open>A number: an optional sign, digits without a leading zero, a fraction, an exponent.\<close>

definition json_digits :: "string \<Rightarrow> string \<times> string" where
  "json_digits s = (takeWhile is_digit_char s, dropWhile is_digit_char s)"

definition json_integer :: "string \<Rightarrow> (string \<times> string) option" where
  "json_integer s =
     (case s of
        [] \<Rightarrow> None
      | c # r \<Rightarrow>
          if c = CHR ''0'' then Some (''0'', r)
          else if is_digit_char c then Some (json_digits s)
          else None)"

definition json_fraction :: "string \<Rightarrow> string \<times> string" where
  "json_fraction s =
     (case s of
        c # d # r \<Rightarrow> if c = CHR ''.'' \<and> is_digit_char d then (case json_digits (d # r) of (ds, t) \<Rightarrow> (c # ds, t)) else ([], s)
      | _ \<Rightarrow> ([], s))"

definition json_exponent :: "string \<Rightarrow> string \<times> string" where
  "json_exponent s =
     (case s of
        c # r \<Rightarrow>
          if c \<in> {CHR ''e'', CHR ''E''} then
            (let sign = (case r of x # _ \<Rightarrow> if x \<in> {CHR ''+'', CHR ''-''} then [x] else [] | [] \<Rightarrow> []);
                 (ds, t) = json_digits (drop (length sign) r)
             in if ds = [] then ([], s) else (c # sign @ ds, t))
          else ([], s)
      | [] \<Rightarrow> ([], s))"

definition json_number :: "pyval parser" where
  "json_number s =
     (let sign = (case s of c # _ \<Rightarrow> if c = CHR ''-'' then ''-'' else [] | [] \<Rightarrow> [])
      in case json_integer (drop (length sign) s) of
           None \<Rightarrow> None
         | Some (i, r) \<Rightarrow>
             (case json_fraction r of (f, r1) \<Rightarrow>
             (case json_exponent r1 of (e, r2) \<Rightarrow>
                if f = [] \<and> e = [] then map_option (\<lambda>n. (PInt n, r2)) (parse_int (sign @ i))
                else map_option (\<lambda>x. (PFloat x, r2)) (parse_float (sign @ i @ f @ e)))))"

definition json_literals :: "(string \<times> pyval) list" where
  "json_literals =
     [(''null'', PNone), (''true'', PBool True), (''false'', PBool False), (''NaN'', PFloat NaN),
      (''Infinity'', PFloat PosInf), (''-Infinity'', PFloat NegInf)]"

definition json_literal :: "pyval parser" where
  "json_literal s =
     (case find (\<lambda>(t, _). startswith s t) json_literals of
        Some (t, v) \<Rightarrow> Some (v, drop (length t) s)
      | None \<Rightarrow> None)"

fun json_value :: "nat \<Rightarrow> pyval parser"
and json_items :: "nat \<Rightarrow> pyval list parser"
and json_pairs :: "nat \<Rightarrow> pydict \<Rightarrow> pydict parser"
where
  "json_value 0 s = None"
| "json_value (Suc n) s =
     (case s of
        [] \<Rightarrow> None
      | c # r \<Rightarrow>
          if code c = 34 then map_option (\<lambda>(t, r). (PStr t, r)) (json_string r)
          else if c = CHR ''['' then
            (case skip_space r of
               x # r' \<Rightarrow> if x = CHR '']'' then Some (PList [], r')
                 else map_option (\<lambda>(vs, r). (PList vs, r)) (json_items n (x # r'))
             | [] \<Rightarrow> None)
          else if c = CHR ''{'' then
            (case skip_space r of
               x # r' \<Rightarrow> if x = CHR ''}'' then Some (PDict [], r')
                 else map_option (\<lambda>(d, r). (PDict d, r)) (json_pairs n [] (x # r'))
             | [] \<Rightarrow> None)
          else (case json_literal s of Some x \<Rightarrow> Some x | None \<Rightarrow> json_number s))"
| "json_items 0 s = None"
| "json_items (Suc n) s =
     (case json_value n s of
        None \<Rightarrow> None
      | Some (v, r) \<Rightarrow>
          (case skip_space r of
             [] \<Rightarrow> None
           | c # r' \<Rightarrow>
               if c = CHR '']'' then Some ([v], r')
               else if c = CHR '','' then map_option (\<lambda>(vs, r). (v # vs, r)) (json_items n (skip_space r'))
               else None))"
| "json_pairs 0 d s = None"
| "json_pairs (Suc n) d s =
     (case s of
        [] \<Rightarrow> None
      | q # s' \<Rightarrow>
          if code q \<noteq> 34 then None
          else
            (case json_string s' of
               None \<Rightarrow> None
             | Some (k, r) \<Rightarrow>
                 (case skip_space r of
                    [] \<Rightarrow> None
                  | c # r1 \<Rightarrow>
                      if c \<noteq> CHR '':'' then None
                      else
                        (case json_value n (skip_space r1) of
                           None \<Rightarrow> None
                         | Some (v, r2) \<Rightarrow>
                             (case skip_space r2 of
                                [] \<Rightarrow> None
                              | c' # r3 \<Rightarrow>
                                  if c' = CHR ''}'' then Some (AList.update k v d, r3)
                                  else if c' = CHR '','' then json_pairs n (AList.update k v d) (skip_space r3)
                                  else None)))))"

definition json_loads :: "string \<Rightarrow> pyval option" where
  "json_loads s =
     (case json_value (Suc (length s)) (skip_space s) of
        Some (v, r) \<Rightarrow> if skip_space r = [] then Some v else None
      | None \<Rightarrow> None)"

section \<open>The fuel is enough\<close>

lemma skip_space_length: "length (skip_space s) \<le> length s"
  by (simp add: skip_space_def length_dropWhile_le)

lemma json_string_length: "json_string s = Some (t, r) \<Longrightarrow> length r < length s"
proof (induction s arbitrary: t rule: json_string.induct)
  case 1
  then show ?case by simp
next
  case (2 c s)
  consider "code c = 34" | "code c \<noteq> 34" "code c \<noteq> 92" | "code c = 92" by blast
  then show ?case
  proof cases
    case 1
    with 2 show ?thesis by simp
  next
    case c: 2
    with "2.prems" obtain t' where "code c \<ge> 32" "json_string s = Some (t', r)"
      by (auto split: if_splits)
    with c "2.IH"(1) [of t'] show ?thesis by simp
  next
    case 3
    with "2.prems" obtain e s' where s: "s = e # s'" by (cases s) auto
    show ?thesis
    proof (cases "code e = 117")
      case True
      with 3 s "2.prems" obtain n t' where "hex4 (take 4 s') = Some n" "json_string (drop 4 s') = Some (t', r)"
        by (auto split: option.splits)
      with 3 s True "2.IH"(2) [of e s' n t'] show ?thesis by simp
    next
      case False
      with 3 s "2.prems" obtain x t' where "escape_char e = Some x" "json_string s' = Some (t', r)"
        by (auto split: option.splits)
      with 3 s False "2.IH"(3) [of e s' x t'] show ?thesis by simp
    qed
  qed
qed

lemma json_digits_length: "json_digits s = (ds, r) \<Longrightarrow> length ds + length r = length s"
  by (auto simp: json_digits_def) (metis length_append takeWhile_dropWhile_id)

lemma json_integer_length: "json_integer s = Some (i, r) \<Longrightarrow> length r < length s"
  by (cases s) (auto simp: json_integer_def json_digits_def is_digit_char_def length_dropWhile_le
      le_imp_less_Suc split: if_splits)

lemma json_fraction_length: "json_fraction s = (f, r) \<Longrightarrow> length r \<le> length s"
  by (cases s; cases "tl s") (auto simp: json_fraction_def json_digits_def length_dropWhile_le le_SucI
      split: if_splits)

lemma json_exponent_length: "json_exponent s = (e, r) \<Longrightarrow> length r \<le> length s"
proof (cases s)
  case (Cons c t)
  assume "json_exponent s = (e, r)"
  moreover have "length (dropWhile is_digit_char (drop k t)) \<le> length t" for k
    using length_dropWhile_le [of is_digit_char "drop k t"] by simp
  ultimately show ?thesis
    using Cons by (auto simp: json_exponent_def json_digits_def Let_def le_SucI split: if_splits)
qed (simp add: json_exponent_def)

lemma json_number_length: "json_number s = Some (v, r) \<Longrightarrow> length r < length s"
proof -
  assume n: "json_number s = Some (v, r)"
  obtain k i r0 f r1 e r2 where "json_integer (drop k s) = Some (i, r0)"
    "json_fraction r0 = (f, r1)" "json_exponent r1 = (e, r2)" "r = r2"
    using n by (auto simp: json_number_def Let_def split: option.splits prod.splits if_splits)
  with json_integer_length [of "drop k s" i r0] json_fraction_length [of r0 f r1] json_exponent_length [of r1 e r2]
  show ?thesis by simp
qed

lemma json_literal_length: "json_literal s = Some (v, r) \<Longrightarrow> length r < length s"
  by (auto simp: json_literal_def json_literals_def startswith_def prefix_def split: if_splits)

text \<open>A result with any fuel is the result with fuel for the characters it consumed.\<close>

definition consumed :: "(nat \<Rightarrow> 'a parser) \<Rightarrow> string \<Rightarrow> 'a \<Rightarrow> string \<Rightarrow> bool" where
  "consumed p s v r \<longleftrightarrow> length r < length s \<and> (\<forall>k. length s \<le> k + length r \<longrightarrow> p k s = Some (v, r))"

lemma consumed_fuel: "consumed p s v r \<Longrightarrow> length s \<le> k + length r \<Longrightarrow> p k s = Some (v, r)"
  by (simp add: consumed_def)

lemma consumedI:
  "(\<And>k. length s \<le> Suc k + length r \<Longrightarrow> p (Suc k) s = Some (v, r)) \<Longrightarrow> length r < length s \<Longrightarrow> consumed p s v r"
proof (unfold consumed_def, intro conjI allI impI)
  fix k
  assume step: "\<And>k. length s \<le> Suc k + length r \<Longrightarrow> p (Suc k) s = Some (v, r)"
    and lt: "length r < length s" and k: "length s \<le> k + length r"
  then show "p k s = Some (v, r)" by (cases k) auto
qed

lemma json_value_consumed:
  assumes IHi: "\<And>s vs r. json_items n s = Some (vs, r) \<Longrightarrow> consumed json_items s vs r"
    and IHp: "\<And>s d r. json_pairs n [] s = Some (d, r) \<Longrightarrow> consumed (\<lambda>k. json_pairs k []) s d r"
    and val: "json_value (Suc n) (c # s) = Some (v, r)"
  shows "consumed json_value (c # s) v r"
proof -
  consider "code c = 34" | "c = CHR ''[''" | "c = CHR ''{''"
    | "code c \<noteq> 34" "c \<noteq> CHR ''[''" "c \<noteq> CHR ''{''" by blast
  then show ?thesis
  proof cases
    case 1
    with val obtain t where "json_string s = Some (t, r)" "v = PStr t" by auto
    with 1 json_string_length [of s t r] show ?thesis by (intro consumedI) simp_all
  next
    case 2
    then have c: "code c \<noteq> 34" by (simp add: code_def)
    obtain x t where xt: "skip_space s = x # t" using val 2 c by (cases "skip_space s") auto
    show ?thesis
    proof (cases "x = CHR '']''")
      case True
      with val 2 c xt skip_space_length [of s] show ?thesis by (intro consumedI) auto
    next
      case False
      with val 2 c xt obtain vs where vs: "json_items n (x # t) = Some (vs, r)" "v = PList vs" by auto
      note IHi [OF vs(1)]
      with False vs 2 c xt skip_space_length [of s] show ?thesis
        by (intro consumedI) (auto simp: consumed_def)
    qed
  next
    case 3
    then have c: "code c \<noteq> 34" by (simp add: code_def)
    obtain x t where xt: "skip_space s = x # t" using val 3 c by (cases "skip_space s") auto
    show ?thesis
    proof (cases "x = CHR ''}''")
      case True
      with val 3 c xt skip_space_length [of s] show ?thesis by (intro consumedI) auto
    next
      case False
      with val 3 c xt obtain d where d: "json_pairs n [] (x # t) = Some (d, r)" "v = PDict d" by auto
      note IHp [OF d(1)]
      with False d 3 c xt skip_space_length [of s] show ?thesis
        by (intro consumedI) (auto simp: consumed_def)
    qed
  next
    case 4
    with val have "(case json_literal (c # s) of Some x \<Rightarrow> Some x | None \<Rightarrow> json_number (c # s)) = Some (v, r)"
      by simp
    with 4 show ?thesis
      using json_literal_length [of "c # s" v r] json_number_length [of "c # s" v r]
      by (intro consumedI) (auto split: option.splits)
  qed
qed

lemma json_items_consumed:
  assumes IHv: "\<And>s v r. json_value n s = Some (v, r) \<Longrightarrow> consumed json_value s v r"
    and IHi: "\<And>s vs r. json_items n s = Some (vs, r) \<Longrightarrow> consumed json_items s vs r"
    and val: "json_items (Suc n) s = Some (vs, r)"
  shows "consumed json_items s vs r"
proof -
  from val obtain v r1 c r2 where v: "json_value n s = Some (v, r1)" "skip_space r1 = c # r2"
    by (auto split: option.splits list.splits)
  note cv = IHv [OF v(1)]
  have len: "length r2 < length r1" using skip_space_length [of r1] v(2) by simp
  show ?thesis
  proof (cases "c = CHR '']''")
    case True
    with val v have "vs = [v]" "r = r2" by auto
    with True v cv len show ?thesis by (intro consumedI) (auto simp: consumed_def)
  next
    case False
    with val v obtain vs' where vs: "c = CHR '',''" "json_items n (skip_space r2) = Some (vs', r)" "vs = v # vs'"
      by (auto split: if_splits)
    note ci = IHi [OF vs(2)]
    with vs v cv len skip_space_length [of r2] show ?thesis by (intro consumedI) (auto simp: consumed_def)
  qed
qed

lemma json_pairs_consumed:
  assumes IHv: "\<And>s v r. json_value n s = Some (v, r) \<Longrightarrow> consumed json_value s v r"
    and IHp: "\<And>s d e r. json_pairs n d s = Some (e, r) \<Longrightarrow> consumed (\<lambda>k. json_pairs k d) s e r"
    and val: "json_pairs (Suc n) d s = Some (e, r)"
  shows "consumed (\<lambda>k. json_pairs k d) s e r"
proof -
  from val obtain q s' where s: "s = q # s'" "code q = 34" by (auto split: list.splits if_splits)
  with val obtain key r0 r1 v r2 c r3 where k: "json_string s' = Some (key, r0)" "skip_space r0 = CHR '':'' # r1"
    "json_value n (skip_space r1) = Some (v, r2)" "skip_space r2 = c # r3"
    by (auto split: option.splits list.splits if_splits)
  note cv = IHv [OF k(3)]
  have len: "length r0 < length s'" "length r1 < length r0" "length r3 < length r2" "length (skip_space r1) \<le> length r1"
    using json_string_length [OF k(1)] skip_space_length [of r0] skip_space_length [of r2] skip_space_length [of r1] k
    by simp_all
  show ?thesis
  proof (cases "c = CHR ''}''")
    case True
    with val s k have "e = AList.update key v d" "r = r3" by auto
    with True s k cv len show ?thesis by (intro consumedI) (auto simp: consumed_def)
  next
    case False
    with val s k have p: "c = CHR '',''" "json_pairs n (AList.update key v d) (skip_space r3) = Some (e, r)"
      by (auto split: if_splits)
    note IHp [OF p(2)]
    with p s k cv len skip_space_length [of r3] show ?thesis by (intro consumedI) (auto simp: consumed_def)
  qed
qed

lemma json_consumed:
  "(json_value n s = Some (v, r) \<longrightarrow> consumed json_value s v r) \<and>
   (json_items n s = Some (vs, r) \<longrightarrow> consumed json_items s vs r) \<and>
   (json_pairs n d s = Some (e, r) \<longrightarrow> consumed (\<lambda>k. json_pairs k d) s e r)"
proof (induction n arbitrary: s v r vs d e)
  case 0
  then show ?case by simp
next
  case (Suc n)
  have "json_value (Suc n) s = Some (v, r) \<longrightarrow> consumed json_value s v r"
    using json_value_consumed [of n] Suc.IH by (cases s) auto
  then show ?case
    using json_items_consumed [of n s vs r] json_pairs_consumed [of n d s e r] Suc.IH by blast
qed

lemma json_loads_complete:
  "json_value n (skip_space s) = Some (v, r) \<Longrightarrow> skip_space r = [] \<Longrightarrow> json_loads s = Some v"
proof -
  assume v: "json_value n (skip_space s) = Some (v, r)" and r: "skip_space r = []"
  from v have "consumed json_value (skip_space s) v r" using json_consumed by blast
  then have "json_value (Suc (length s)) (skip_space s) = Some (v, r)"
    by (rule consumed_fuel) (use skip_space_length [of s] in simp)
  with r show ?thesis by (simp add: json_loads_def del: json_value.simps)
qed

end
