(* ===== verification/Network_Facts.thy ===== *)
theory Network_Facts
  imports Network_Process Ip_Text Json_Text
begin

text \<open>
  The processors of \<open>scanner/network/processing\<close>, one definition per class and one section per
  module, and the table \<open>PROCESSORS\<close> in the order the package imports its modules.

  A subclass that only sets class attributes is the record its base class gives with these
  attributes. The message with typographic quotes of \<open>ProcessIdUJboss\<close> is outside the first 256
  code points and left out.
\<close>

section \<open>Shapes of processors\<close>

text \<open>A processor that looks only at the facts it depends on, all of them optional.\<close>

definition dependent :: "string list \<Rightarrow> (pydict \<Rightarrow> pyval res) \<Rightarrow> processor" where
  "dependent deps f = \<lparr>DEPS = deps, REQUIRE_DEPS = False, RETURN_CODE_ANY = False, proc = (\<lambda>_. f)\<rparr>"

text \<open>\<open>result and result.get("rc") == 0\<close>\<close>

definition succeeded :: "pyval \<Rightarrow> bool res" where
  "succeeded result =
     (if \<not> truthy result then Return False else bind_res (vget result ''rc'' PNone) (\<lambda>rc. Return (is_zero rc)))"

text \<open>\<open>v[0]\<close> and \<open>v[1]\<close>, \<open>v[:-1]\<close>, \<open>v[::-1]\<close>, \<open>len(v)\<close>, \<open>v or ""\<close>\<close>

fun py_nth :: "pyval \<Rightarrow> nat \<Rightarrow> pyval res" where
  "py_nth (PList xs) i = (if i < length xs then Return (xs ! i) else Raise IndexError)"
| "py_nth (PStr s) i = (if i < length s then Return (PStr [s ! i]) else Raise IndexError)"
| "py_nth (PDict _) i = Raise KeyError"
| "py_nth _ i = Raise TypeError"

fun py_butlast :: "pyval \<Rightarrow> pyval res" where
  "py_butlast (PList xs) = Return (PList (butlast xs))"
| "py_butlast (PStr s) = Return (PStr (butlast s))"
| "py_butlast _ = Raise TypeError"

fun py_reversed :: "pyval \<Rightarrow> pyval list res" where
  "py_reversed (PList xs) = Return (rev xs)"
| "py_reversed (PStr s) = Return (map (\<lambda>c. PStr [c]) (rev s))"
| "py_reversed _ = Raise TypeError"

fun py_len :: "pyval \<Rightarrow> nat res" where
  "py_len (PList xs) = Return (length xs)"
| "py_len (PStr s) = Return (length s)"
| "py_len (PDict d) = Return (length d)"
| "py_len _ = Raise TypeError"

definition or_empty :: "pyval \<Rightarrow> pyval" where
  "or_empty v = (if truthy v then v else PStr [])"

text \<open>\<open>[line.strip() for line in lines]\<close>, \<open>[line for line in lines if line]\<close>,
  \<open>[line for line in lines if line.strip()]\<close> and \<open>[line.strip() for line in lines if line]\<close>\<close>

definition always :: "pyval \<Rightarrow> bool res" where
  "always _ = Return True"

definition nonempty :: "pyval \<Rightarrow> bool res" where
  "nonempty v = Return (truthy v)"

definition nonblank :: "pyval \<Rightarrow> bool res" where
  "nonblank v = bind_res (as_str v) (\<lambda>s. Return (py_strip s \<noteq> []))"

definition stripped :: "pyval \<Rightarrow> pyval res" where
  "stripped v = bind_res (as_str v) (\<lambda>s. Return (PStr (py_strip s)))"

section \<open>\<open>cloud_provider.py\<close>\<close>

definition ProcessDmiChassisAssetTag :: processor where
  "ProcessDmiChassisAssetTag =
     dependent [''internal_dmi_chassis_asset_tag''] (\<lambda>deps.
       let tag = dgetn deps ''internal_dmi_chassis_asset_tag''
       in bind_res (succeeded tag) (\<lambda>ok.
          if \<not> ok then Return (PStr [])
          else
            bind_res (vget tag ''stdout_lines'' PNone) (\<lambda>result.
              if \<not> truthy result then Return (PStr [])
              else
                bind_res (py_nth result 0) (\<lambda>first.
                  if first \<noteq> PStr [] then Return first
                  else bind_res (py_len result) (\<lambda>n. if n > 1 then py_nth result 1 else Return first)))))"

definition ProcessDmiSystemProductName :: processor where
  "ProcessDmiSystemProductName =
     dependent [''internal_dmi_system_product_name''] (\<lambda>deps.
       let name = dgetn deps ''internal_dmi_system_product_name''
       in bind_res (succeeded name) (\<lambda>ok.
          if \<not> ok then Return (PStr [])
          else
            bind_res (vget name ''stdout_lines'' (PList [])) (\<lambda>result.
              if \<not> truthy result then Return (PStr []) else bind_res (py_last result) stripped)))"

definition ProcessCloudProvider :: processor where
  "ProcessCloudProvider =
     dependent [''dmi_bios_version'', ''dmi_chassis_asset_tag'', ''dmi_system_manufacturer'', ''dmi_system_product_name'']
       (\<lambda>deps.
          let dmi_bios_version = or_empty (dget deps ''dmi_bios_version'' (PStr []));
              dmi_chassis_asset_tag = or_empty (dget deps ''dmi_chassis_asset_tag'' (PStr []));
              dmi_system_manufacturer = or_empty (dget deps ''dmi_system_manufacturer'' (PStr []));
              dmi_system_product_name = or_empty (dget deps ''dmi_system_product_name'' (PStr []))
          in bind_res (as_str dmi_bios_version) (\<lambda>bios.
             if contains ''amazon'' (py_lower bios) then Return (PStr ''aws'')
             else if contains ''google'' (py_lower bios) then Return (PStr ''gcp'')
             else
               bind_res (text_in ''7783-7084-3265-9085-8269-3286-77'' dmi_chassis_asset_tag) (\<lambda>azure.
                 if azure then Return (PStr ''azure'')
                 else
                   bind_res (as_str dmi_system_manufacturer) (\<lambda>manufacturer.
                     if contains ''alibaba cloud'' (py_lower manufacturer) then Return (PStr ''alibaba'')
                     else
                       bind_res (as_str dmi_system_product_name) (\<lambda>product.
                         if contains ''alibaba cloud ecs'' (py_lower product) then Return (PStr ''alibaba'')
                         else Return (PStr []))))))"

section \<open>\<open>cpu.py\<close>\<close>

definition ProcessCpuModelVer :: processor where "ProcessCpuModelVer = plain last_line"

definition ProcessCpuVendorId :: processor where "ProcessCpuVendorId = plain last_line"

definition ProcessCpuModelName :: processor where "ProcessCpuModelName = plain last_line"

definition int_value :: "pyval \<Rightarrow> pyval" where
  "int_value v = (case convert_to_int v of Some i \<Rightarrow> PInt i | None \<Rightarrow> PNone)"

definition populated_sockets :: "pyval \<Rightarrow> nat res" where
  "populated_sockets dmi_cpu_socket_count =
     bind_res (vget dmi_cpu_socket_count ''stdout_lines'' PNone) (\<lambda>dmi_status.
     bind_res (py_iter dmi_status) (\<lambda>ls.
     bind_res (comprehension
       (\<lambda>status. bind_res (as_str status) (\<lambda>s. Return (contains ''status: populated'' (py_lower s)))) Return ls)
       (\<lambda>found. Return (length found))))"

definition cpuinfo_sockets :: "pyval \<Rightarrow> int option res" where
  "cpuinfo_sockets cpuinfo_cpu_socket_count =
     bind_res (succeeded cpuinfo_cpu_socket_count) (\<lambda>ok.
       if \<not> ok then Return None
       else
         bind_res (vget cpuinfo_cpu_socket_count ''stdout_lines'' PNone) (\<lambda>ls.
           if \<not> truthy ls then Return None
           else
             bind_res (py_last ls) (\<lambda>cpuinfo_count.
               Return
                 (case convert_to_int cpuinfo_count of
                    Some i \<Rightarrow> if i \<noteq> 0 \<and> i \<le> 8 then Some i else None
                  | None \<Rightarrow> None))))"

definition cpu_socket_count :: "pydict \<Rightarrow> pyval res" where
  "cpu_socket_count deps =
     (let dmi = dgetn deps ''internal_cpu_socket_count_dmi'';
          fallback =
            bind_res (cpuinfo_sockets (dgetn deps ''internal_cpu_socket_count_cpuinfo'')) (\<lambda>n.
              case n of
                Some i \<Rightarrow> Return (PInt i)
              | None \<Rightarrow> Return (int_value (dgetn deps ''cpu_count'')))
      in bind_res (succeeded dmi) (\<lambda>ok.
           if \<not> ok then fallback
           else bind_res (populated_sockets dmi) (\<lambda>n. if n > 0 then Return (PInt (int n)) else fallback)))"

definition ProcessCpuSocketCount :: processor where
  "ProcessCpuSocketCount =
     dependent [''internal_cpu_socket_count_dmi'', ''internal_cpu_socket_count_cpuinfo'', ''cpu_count''] cpu_socket_count"

text \<open>\<open>i / 2\<close> is a float, or an \<open>OverflowError\<close> when it is too large for one.\<close>

definition half :: "int \<Rightarrow> pyval res" where
  "half i = (if of_int \<bar>i\<bar> / 2 \<ge> float_limit then Raise OverflowError else Return (PFloat (Fin (of_int i / 2))))"

definition cpu_core_count :: "pydict \<Rightarrow> pyval res" where
  "cpu_core_count deps =
     (let cpu_socket_count = convert_to_int (dgetn deps ''cpu_socket_count'');
          cpu_core_per_socket = convert_to_int (dgetn deps ''cpu_core_per_socket'');
          cpu_count = convert_to_int (dgetn deps ''cpu_count'');
          cpu_hyperthreading = dgetn deps ''cpu_hyperthreading'';
          virt_type = dgetn deps ''virt_type''
      in case (virt_type = PStr ''vmware'', cpu_core_per_socket, cpu_socket_count, cpu_count) of
           (True, _, _, Some n) \<Rightarrow> Return (PInt n)
         | (_, Some c, Some s, _) \<Rightarrow> Return (PInt (c * s))
         | (_, _, _, Some n) \<Rightarrow> if truthy cpu_hyperthreading then half n else Return (PInt n)
         | _ \<Rightarrow> Return PNone)"

definition ProcessCpuCoreCount :: processor where
  "ProcessCpuCoreCount =
     dependent [''cpu_socket_count'', ''cpu_core_per_socket'', ''cpu_count'', ''cpu_hyperthreading'', ''virt_type'']
       cpu_core_count"

section \<open>\<open>date.py\<close>\<close>

definition ProcessDateFilesystemCreate :: processor where "ProcessDateFilesystemCreate = plain last_line"

definition ProcessDateMachineId :: processor where "ProcessDateMachineId = plain last_line"

section \<open>\<open>dmi.py\<close>\<close>

fun first_uuid :: "pyval list \<Rightarrow> pyval res" where
  "first_uuid [] = Return (PStr [])"
| "first_uuid (x # xs) = bind_res (py_len x) (\<lambda>n. if 0 < n \<and> n \<le> 36 then Return x else first_uuid xs)"

definition dmi_system_uuid :: "pydict \<Rightarrow> pyval res" where
  "dmi_system_uuid deps =
     (let uuid = dgetn deps ''internal_dmi_system_uuid''
      in bind_res (succeeded uuid) (\<lambda>ok.
           if \<not> ok then Return (PStr [])
           else bind_res (vget uuid ''stdout_lines'' (PList [])) (\<lambda>ls. bind_res (py_reversed ls) first_uuid)))"

definition ProcessDmiSystemUuid :: processor where
  "ProcessDmiSystemUuid = dependent [''internal_dmi_system_uuid''] dmi_system_uuid"

section \<open>\<open>eap.py\<close>\<close>

definition FIND_WARNING :: string where
  "FIND_WARNING =
     ''find: WARNING: Hard link count is wrong for /proc: this may'' @ '' be a bug in your filesystem driver.''"

text \<open>\<open>[path.strip() for path in output["stdout_lines"] if path]\<close>\<close>

definition stripped_paths :: "pyval \<Rightarrow> pyval res" where
  "stripped_paths output =
     bind_res (item_iter output ''stdout_lines'') (\<lambda>ls.
     bind_res (comprehension nonempty stripped ls) (\<lambda>result. Return (PList result)))"

definition ProcessJbossEapRunningPaths :: processor where
  "ProcessJbossEapRunningPaths =
     (plain (\<lambda>output.
        bind_res (vitem output ''stdout'') (\<lambda>stdout.
        bind_res (text_in FIND_WARNING stdout) (\<lambda>warned.
          if warned then Return NO_DATA else stripped_paths output))))
     \<lparr>DEPS := [''internal_have_java'']\<rparr>"

definition ProcessFindJboss :: processor where
  "ProcessFindJboss =
     plain (\<lambda>output.
       bind_res (get_iter output ''stdout_lines'') (\<lambda>ls.
       bind_res (comprehension (\<lambda>line. bind_res (as_str line) (\<lambda>s. Return (split_ws s \<noteq> []))) Return ls) (\<lambda>result.
         Return (PList result))))"

definition ProcessIdUJboss :: processor where
  "ProcessIdUJboss =
     (plain (\<lambda>output.
        bind_res (vget output ''rc'' (PInt 1)) (\<lambda>rc.
          if is_zero rc then Return (PBool True)
          else
            bind_res (vitem output ''stdout'') (\<lambda>stdout.
            bind_res (as_str stdout) (\<lambda>s.
              if py_lower (py_strip s) \<in>
                   {''id: jboss: no such user'', ''id: '' @ [char_of (39::nat)] @ ''jboss'' @ [char_of (39::nat)] @ '': no such user''}
              then Return (PBool False) else Return NO_DATA)))))
     \<lparr>RETURN_CODE_ANY := True\<rparr>"

definition ProcessJbossEapCommonFiles :: processor where
  "ProcessJbossEapCommonFiles =
     plain (\<lambda>output.
       bind_res (get_iter output ''results'') (\<lambda>items.
       bind_res (map_res
         (\<lambda>item.
            bind_res (vitem item ''item'') (\<lambda>directory.
            bind_res (vget item ''rc'' PNone) (\<lambda>rc. Return (if is_zero rc then [directory] else [])))) items) (\<lambda>out_list.
         Return (PList (concat out_list)))))"

definition IGNORE_PROCESSES :: "string list" where
  "IGNORE_PROCESSES = [''bash'', ''grep'', ''oom_reaper'']"

definition jboss_processes :: "pyval \<Rightarrow> pyval res" where
  "jboss_processes output =
     bind_res (vget output ''rc'' (PInt 1)) (\<lambda>rc.
       if \<not> is_zero rc then Return (PInt 0)
       else
         bind_res (item_iter output ''stdout_lines'') (\<lambda>ls.
         bind_res (comprehension
           (\<lambda>line. bind_res (as_str line) (\<lambda>s. bind_res (first_word s) (\<lambda>w. Return (w \<notin> set IGNORE_PROCESSES))))
           Return ls) (\<lambda>matches. Return (PInt (int (length matches))))))"

definition ProcessJbossProcesses :: processor where
  "ProcessJbossProcesses = (plain jboss_processes) \<lparr>RETURN_CODE_ANY := True\<rparr>"

definition ProcessJbossEapPackages :: processor where
  "ProcessJbossEapPackages =
     plain (\<lambda>output.
       bind_res (vitem output ''stdout_lines'') (\<lambda>ls. bind_res (py_len ls) (\<lambda>n. Return (PInt (int n)))))"

definition ProcessJbossEapLocate :: processor where
  "ProcessJbossEapLocate = (plain stripped_paths) \<lparr>DEPS := [''internal_have_locate'']\<rparr>"

definition ProcessJbossEapChkconfig :: processor where
  "ProcessJbossEapChkconfig =
     (plain (InitLineFinder [''jboss'', ''eap''] (Some [''e2scrub_reap'']))) \<lparr>DEPS := [''internal_have_chkconfig'']\<rparr>"

definition ProcessJbossEapSystemctl :: processor where
  "ProcessJbossEapSystemctl =
     (plain (InitLineFinder [''jboss'', ''eap''] (Some [''e2scrub_reap'']))) \<lparr>DEPS := [''internal_have_systemctl'']\<rparr>"

definition ProcessEapHomeLs :: processor where
  "ProcessEapHomeLs = plain (PerItemProcessor (IndicatorFileFinder [''JBossEULA.txt'', ''version.txt'']))"

text \<open>\<open>re.compile(p).match(v)\<close> accepts only text.\<close>

fun re_text :: "pyval \<Rightarrow> string res" where
  "re_text (PStr s) = Return s"
| "re_text _ = Raise TypeError"

definition removesuffix :: "string \<Rightarrow> string \<Rightarrow> string" where
  "removesuffix s suf = (if endswith s suf then take (length s - length suf) s else s)"

text \<open>The text that follows a fixed start up to the next white space, if there is any.\<close>

definition VERSION_RE :: "string \<Rightarrow> string option" where
  "VERSION_RE s =
     (let start = ''Red Hat JBoss Enterprise Application Platform - Version '';
          version = takeWhile (\<lambda>c. \<not> is_space c) (drop (length start) s)
      in if startswith s start \<and> version \<noteq> [] then Some version else None)"

definition eap_home_version_txt :: "pyval \<Rightarrow> pyval res" where
  "eap_home_version_txt item =
     bind_res (vget item ''rc'' (PBool True)) (\<lambda>rc.
       if truthy rc then Return (PBool False)
       else
         bind_res (vitem item ''stdout'') (\<lambda>stdout.
         bind_res (as_str stdout) (\<lambda>s.
           Return (PStr
             (case VERSION_RE (py_strip s) of
                Some version \<Rightarrow> removesuffix version ''.GA''
              | None \<Rightarrow> py_strip s)))))"

definition ProcessEapHomeVersionTxt :: processor where
  "ProcessEapHomeVersionTxt = plain (PerItemProcessor eap_home_version_txt)"

definition ProcessEapHomeReadmeTxt :: processor where
  "ProcessEapHomeReadmeTxt = plain (PerItemProcessor (StdoutSearchProcessor ''Welcome to WildFly''))"

definition ProcessJbossModulesManifestMf :: processor where
  "ProcessJbossModulesManifestMf = plain (PerItemProcessor StdoutPassthroughProcessor)"

definition ProcessJbossModulesVersion :: processor where
  "ProcessJbossModulesVersion = plain (PerItemProcessor StdoutPassthroughProcessor)"

definition ProcessEapHomeBinForFuse :: processor where
  "ProcessEapHomeBinForFuse = plain (PerItemProcessor (IndicatorFileFinder [''fuseconfig.sh'', ''fusepatch.sh'']))"

definition ProcessEapHomeLayers :: processor where
  "ProcessEapHomeLayers = plain (PerItemProcessor ItemSuccessChecker)"

definition ProcessEapHomeLayersConf :: processor where
  "ProcessEapHomeLayersConf = plain (PerItemProcessor ItemSuccessChecker)"

definition ProcessFindJbossEAPJarVer :: processor where "ProcessFindJbossEAPJarVer = plain FindJarVer"

definition ProcessFindJbossEAPRunJarVer :: processor where "ProcessFindJbossEAPRunJarVer = plain FindJarVer"

section \<open>\<open>eap5.py\<close>\<close>

definition ProcessVersionTxt :: processor where
  "ProcessVersionTxt =
     plain (PerItemProcessor (StdoutSearchProcessor ''JBoss Enterprise Application Platform - Version 5''))"

definition ProcessReadmeHtml :: processor where
  "ProcessReadmeHtml =
     plain (PerItemProcessor (StdoutSearchProcessor ''JBoss Enterprise Application Platform 5''))"

definition ProcessLsJbossAs :: processor where
  "ProcessLsJbossAs = plain (PerItemProcessor (IndicatorFileFinder [''JBossEULA.txt'']))"

definition ProcessRunJarVersion :: processor where
  "ProcessRunJarVersion = plain (PerItemProcessor (StdoutSearchProcessor ''JBoss''))"

text \<open>The last tag of the line, up to white space: the \<open>.*\<close> before it is greedy and does not cross a
  line feed.\<close>

definition tag_at :: "string \<Rightarrow> string option" where
  "tag_at s =
     (let tag = takeWhile (\<lambda>c. \<not> is_space c) (drop 7 s)
      in if (startswith s ''CVSTag='' \<or> startswith s ''SVNTag='') \<and> tag \<noteq> [] then Some tag else None)"

definition VERSION_REGEXP :: "string \<Rightarrow> string option" where
  "VERSION_REGEXP line =
     (let start = ''Implementation-Version:''; rest = drop (length start) line;
          reach = length (takeWhile (\<lambda>c. code c \<noteq> 10) rest)
      in if \<not> startswith line start then None
         else case find (\<lambda>k. tag_at (drop k rest) \<noteq> None) (rev [0..<Suc reach]) of
                Some k \<Rightarrow> tag_at (drop k rest)
              | None \<Rightarrow> None)"

fun first_version :: "pyval list \<Rightarrow> pyval res" where
  "first_version [] = Return PNone"
| "first_version (line # ls) =
     bind_res (re_text line) (\<lambda>s.
       case VERSION_REGEXP s of Some v \<Rightarrow> Return (PStr v) | None \<Rightarrow> first_version ls)"

definition ProcessRunJarManifest :: processor where
  "ProcessRunJarManifest =
     plain (PerItemProcessor (\<lambda>item. bind_res (item_iter item ''stdout_lines'') first_version))"

section \<open>\<open>fuse.py\<close>\<close>

definition ProcessFindJbossActiveMQJar :: processor where "ProcessFindJbossActiveMQJar = plain FindJar"

definition ProcessFindJbossCamelJar :: processor where "ProcessFindJbossCamelJar = plain FindJar"

definition ProcessFindJbossCXFJar :: processor where "ProcessFindJbossCXFJar = plain FindJar"

section \<open>\<open>hostnamectl.py\<close>\<close>

definition processed_result :: "pyval \<Rightarrow> pyval \<Rightarrow> pyval \<Rightarrow> pyval" where
  "processed_result return_code error_msg value =
     PDict [(''return_code'', return_code), (''error_msg'', error_msg), (''value'', value)]"

definition hostnamectl_line :: "pyval \<Rightarrow> pydict \<Rightarrow> pydict res" where
  "hostnamectl_line line facts =
     bind_res (text_in '':'' line) (\<lambda>found.
       if \<not> found then Return facts
       else
         bind_res (as_str line) (\<lambda>s.
           case partition_at '':'' s of (name, _, val) \<Rightarrow>
             (let fact_name = replace_char (CHR '' '') ''_'' (py_lower (py_strip name))
              in bind_res (if fact_name = ''chassis'' then first_word val else Return val) (\<lambda>fact_value.
                   Return (AList.update fact_name (PStr (py_strip fact_value)) facts)))))"

definition handle_non_zero_rc :: "pyval \<Rightarrow> pyval res" where
  "handle_non_zero_rc output =
     bind_res (vget output ''rc'' PNone) (\<lambda>return_code.
     bind_res (vget output ''stderr'' PNone) (\<lambda>stderr.
     bind_res (vget output ''stdout'' PNone) (\<lambda>stdout.
       if truthy stdout then
         Return (processed_result return_code
           (PStr (''unexpected return code ('' @ py_str return_code @ '') for '' @ [char_of (39::nat)] @ ''hostnamectl status'' @
              [char_of (39::nat)] @ ''. Full output from command:'' @ [char_of (10::nat)] @ py_str stdout)) PNone)
       else if truthy stderr then Return (processed_result return_code stderr PNone)
       else Raise UnboundLocalError)))"

definition hostnamectl :: "pyval \<Rightarrow> pyval res" where
  "hostnamectl output =
     bind_res (vget output ''rc'' PNone) (\<lambda>rc.
       if \<not> is_zero rc then handle_non_zero_rc output
       else
         bind_res (vget output ''stdout_lines'' PNone) (\<lambda>stdout_lines.
         bind_res (py_iter stdout_lines) (\<lambda>ls.
         bind_res (fold_res hostnamectl_line ls []) (\<lambda>facts.
           Return (processed_result (PInt 0) PNone (PDict facts))))))"

definition ProcessHostnameCTL :: processor where "ProcessHostnameCTL = plain hostnamectl"

section \<open>\<open>ifconfig.py\<close>\<close>

definition INET_PREFIXES :: "string list" where "INET_PREFIXES = [''inet addr:'', ''inet '']"

definition INET6_PREFIXES :: "string list" where "INET6_PREFIXES = [''inet6 '']"

text \<open>The loop over prefixes stops at the first that fits.\<close>

definition inet_address :: "string list \<Rightarrow> string \<Rightarrow> string \<Rightarrow> string list res" where
  "inet_address starts loopback line =
     (case find (startswith line) starts of
        None \<Rightarrow> Return []
      | Some p \<Rightarrow> bind_res (first_word (drop (length p) line)) (\<lambda>w. Return (if w = loopback then [] else [w])))"

definition ifconfig_line :: "string \<Rightarrow> string list res" where
  "ifconfig_line line =
     bind_res (inet_address INET_PREFIXES ''127.0.0.1'' line) (\<lambda>v4.
     bind_res (inet_address INET6_PREFIXES ''::1'' line) (\<lambda>v6. Return (v4 @ v6)))"

definition ifconfig_ip_addresses :: "pyval \<Rightarrow> pyval res" where
  "ifconfig_ip_addresses output =
     bind_res (item_iter output ''stdout_lines'') (\<lambda>ls.
     bind_res (map_res as_str ls) (\<lambda>texts.
     bind_res (map_res ifconfig_line (map py_strip texts)) (\<lambda>result.
       Return (PList (map PStr (remdups (concat result)))))))"

definition ProcessIPAddresses :: processor where "ProcessIPAddresses = plain ifconfig_ip_addresses"

definition ProcessMacAddresses :: processor where
  "ProcessMacAddresses =
     plain (\<lambda>output.
       bind_res (get_iter output ''stdout_lines'') (\<lambda>addresses.
       bind_res (unique_list (filter truthy addresses)) (\<lambda>result. Return (PList result))))"

section \<open>\<open>installed_products.py\<close>\<close>

definition product_line :: "string \<Rightarrow> pydict \<Rightarrow> pydict" where
  "product_line line product_dict =
     (if \<not> (py_strip line \<noteq> [] \<and> contains '':'' line) then product_dict
      else
        (case partition_at '':'' (py_strip line) of (key, _, val) \<Rightarrow>
           if key \<in> {''Name'', ''ID''} then AList.update (py_lower key) (PStr (py_strip val)) product_dict
           else product_dict))"

definition parse_product :: "string \<Rightarrow> pydict" where
  "parse_product product = fold product_line (splitlines product) []"

definition add_product :: "string \<Rightarrow> pydict list \<Rightarrow> pydict list" where
  "add_product product products =
     (let product_dict = parse_product product; product_id = dgetn product_dict ''id''
      in if \<not> truthy product_id \<or> list_ex (\<lambda>p. dgetn p ''id'' = product_id) products then products
         else products @ [product_dict])"

definition installed_products :: "pyval \<Rightarrow> pyval res" where
  "installed_products output =
     bind_res (vget output ''stdout'' (PStr [])) (\<lambda>stdout.
     bind_res (as_str stdout) (\<lambda>s.
       Return (PList (map PDict (fold add_product (split_on ''--'' s) [])))))"

definition ProcessInstalledProducts :: processor where "ProcessInstalledProducts = plain installed_products"

section \<open>\<open>ip.py\<close> and the validity tests of \<open>network/utils.py\<close>\<close>

definition is_valid_ipv4_address :: "string \<Rightarrow> bool" where
  "is_valid_ipv4_address address \<longleftrightarrow> IPv4Address address \<noteq> None"

definition is_valid_ipv6_address :: "string \<Rightarrow> bool" where
  "is_valid_ipv6_address address \<longleftrightarrow> IPv6Address address \<noteq> None"

text \<open>A \<open>$\<close> also matches before a final line feed.\<close>

definition mac_char :: "nat \<Rightarrow> char \<Rightarrow> bool" where
  "mac_char i c \<longleftrightarrow>
     (if i mod 3 = 2 then c = CHR '':''
      else (48 \<le> code c \<and> code c \<le> 57) \<or> (97 \<le> code c \<and> code c \<le> 102))"

definition mac_text :: "string \<Rightarrow> bool" where
  "mac_text s \<longleftrightarrow> length s = 17 \<and> list_all (\<lambda>i. mac_char i (s ! i)) [0..<17]"

definition is_valid_mac_address :: "string \<Rightarrow> bool" where
  "is_valid_mac_address address \<longleftrightarrow>
     mac_text address \<or> (address \<noteq> [] \<and> code (last address) = 10 \<and> mac_text (butlast address))"

text \<open>\<open>line.strip().split(" ")[1].split("/")[0]\<close>\<close>

definition address_word :: "string \<Rightarrow> string res" where
  "address_word line =
     (case split_on '' '' (py_strip line) of
        _ # w # _ \<Rightarrow> Return (hd (split_on ''/'' w))
      | _ \<Rightarrow> Raise IndexError)"

definition ip_address_show :: "string \<Rightarrow> string list \<Rightarrow> (string \<Rightarrow> bool) \<Rightarrow> pyval \<Rightarrow> pyval res" where
  "ip_address_show start exclude valid output =
     bind_res (item_iter output ''stdout_lines'') (\<lambda>ls.
     bind_res (map_res as_str ls) (\<lambda>texts.
     bind_res (map_res address_word (filter (\<lambda>line. startswith line start) (map py_lstrip texts))) (\<lambda>addresses.
       Return (PList (map PStr (filter (\<lambda>a. a \<notin> set exclude \<and> valid a) (remdups addresses)))))))"

definition ProcessIpAddressesIPv4 :: processor where
  "ProcessIpAddressesIPv4 = plain (ip_address_show ''inet '' [''127.0.0.1'', ''0.0.0.0''] is_valid_ipv4_address)"

definition ProcessIpAddressesIPv6 :: processor where
  "ProcessIpAddressesIPv6 = plain (ip_address_show ''inet6 '' [''::1''] is_valid_ipv6_address)"

definition ProcessIpAddressesMAC :: processor where
  "ProcessIpAddressesMAC =
     plain (ip_address_show ''link/'' [''00:00:00:00:00:00'', ''ff:ff:ff:ff:ff:ff''] is_valid_mac_address)"

section \<open>\<open>jws.py\<close>\<close>

text \<open>A test of the last line, false when there is none.\<close>

definition last_line_test :: "(pyval \<Rightarrow> bool res) \<Rightarrow> pyval \<Rightarrow> pyval res" where
  "last_line_test test output =
     bind_res (vget output ''stdout_lines'' (PList [])) (\<lambda>stdout_lines.
       if \<not> truthy stdout_lines then Return (PBool False)
       else bind_res (py_last stdout_lines) (\<lambda>line. bind_res (test line) (\<lambda>b. Return (PBool b))))"

definition ProcessJWSInstalledWithRpm :: processor where
  "ProcessJWSInstalledWithRpm =
     (plain (last_line_test (text_in ''Red Hat JBoss Web Server''))) \<lparr>RETURN_CODE_ANY := True\<rparr>"

definition ProcessHasJBossEULA :: processor where
  "ProcessHasJBossEULA = plain (last_line_test (\<lambda>line. Return (line = PStr ''true'')))"

definition ProcessJWSHasCert :: processor where
  "ProcessJWSHasCert =
     (plain (last_line_test (\<lambda>line. bind_res (as_str line) (\<lambda>s. Return (endswith s ''.pem'')))))
     \<lparr>RETURN_CODE_ANY := True\<rparr>"

section \<open>\<open>karaf.py\<close>\<close>

definition ProcessKarafRunningProcesses :: processor where
  "ProcessKarafRunningProcesses =
     plain (\<lambda>output.
       bind_res (vitem output ''stdout'') (\<lambda>stdout.
       bind_res (text_in FIND_WARNING stdout) (\<lambda>warned. if warned then Return NO_DATA else stripped stdout)))"

definition ProcessFindKaraf :: processor where
  "ProcessFindKaraf = plain (\<lambda>output. vitem output ''stdout_lines'')"

definition ProcessLocateKaraf :: processor where
  "ProcessLocateKaraf =
     (plain (\<lambda>output.
        bind_res (get_iter output ''stdout_lines'') (\<lambda>ls.
        bind_res (comprehension nonblank Return ls) (\<lambda>result. Return (PList result)))))
     \<lparr>DEPS := [''internal_have_locate'']\<rparr>"

definition ProcessJbossFuseChkconfig :: processor where
  "ProcessJbossFuseChkconfig =
     (plain (InitLineFinder [''fuse''] None)) \<lparr>DEPS := [''internal_have_chkconfig'']\<rparr>"

definition ProcessJbossFuseSystemctl :: processor where
  "ProcessJbossFuseSystemctl =
     (plain (InitLineFinder [''fuse''] (Some [''sys-fs-fuse-connections.mount'', ''fuse.mount''])))
     \<lparr>DEPS := [''internal_have_systemctl'']\<rparr>"

definition success_by_key :: "(pyval \<Rightarrow> string res) \<Rightarrow> pyval \<Rightarrow> pyval res" where
  "success_by_key key output =
     bind_res (item_iter output ''results'') (\<lambda>results.
     bind_res (fold_res
       (\<lambda>result d.
          bind_res (key result) (\<lambda>k.
          bind_res (vget result ''rc'' (PInt 1)) (\<lambda>rc. Return (AList.update k (PBool (is_zero rc)) d)))) results []) (\<lambda>d.
       Return (PDict d)))"

definition ProcessKarafHomeBinFuse :: processor where
  "ProcessKarafHomeBinFuse = plain (success_by_key (\<lambda>result. bind_res (vitem result ''item'') json_key))"

definition ProcessKarafHomeSystemOrgJboss :: processor where
  "ProcessKarafHomeSystemOrgJboss =
     plain (success_by_key (\<lambda>result. bind_res (vitem result ''stdout_lines'') (\<lambda>ls. Return (py_str ls))))"

definition fuse_version_item :: "pyval \<Rightarrow> pyval list res" where
  "fuse_version_item item =
     bind_res (vget item ''item'' PNone) (\<lambda>item_name.
       if \<not> truthy item_name then Return []
       else
         bind_res (vget item ''rc'' (PBool True)) (\<lambda>rc.
           if truthy rc then Return []
           else
             bind_res (vget item ''stdout'' (PStr [])) (\<lambda>stdout.
             bind_res (nonblank stdout) (\<lambda>some.
               if \<not> some then Return []
               else
                 bind_res (get_iter item ''stdout_lines'') (\<lambda>ls.
                 bind_res (comprehension nonblank Return ls) (\<lambda>value.
                 bind_res (unique_list value) (\<lambda>version.
                   Return [PDict [(''install_home'', item_name), (''version'', PList version)]])))))))"

definition FuseVersionProcessor :: "pyval \<Rightarrow> pyval res" where
  "FuseVersionProcessor output =
     bind_res (item_iter output ''results'') (\<lambda>items.
     bind_res (map_res fuse_version_item items) (\<lambda>results. Return (PList (concat results))))"

text \<open>The text of \<open>stdout\<close> is compared with a list and always different from it.\<close>

definition FuseVersionProcessorLocate :: "pyval \<Rightarrow> pyval res" where
  "FuseVersionProcessorLocate output =
     bind_res (vget output ''rc'' (PInt 1)) (\<lambda>rc.
       if \<not> is_zero rc then Return (PList [])
       else
         bind_res (vget output ''stdout'' (PStr [])) (\<lambda>stdout.
         bind_res (stripped stdout) (\<lambda>text.
           if text = PList [PStr []] then Return (PList [])
           else
             bind_res (get_iter output ''stdout_lines'') (\<lambda>ls.
             bind_res (comprehension nonblank Return ls) (\<lambda>value.
             bind_res (unique_list value) (\<lambda>result. Return (PList result)))))))"

definition ProcessJbossFuseCamelVersion :: processor where
  "ProcessJbossFuseCamelVersion = plain FuseVersionProcessor"

definition ProcessJbossFuseActivemqVersion :: processor where
  "ProcessJbossFuseActivemqVersion = plain FuseVersionProcessor"

definition ProcessJbossFuseCxfVersion :: processor where
  "ProcessJbossFuseCxfVersion = plain FuseVersionProcessor"

definition ProcessJbossFuseOnEapCamelVersion :: processor where
  "ProcessJbossFuseOnEapCamelVersion = plain FuseVersionProcessor"

definition ProcessJbossFuseOnEapActivemqVersion :: processor where
  "ProcessJbossFuseOnEapActivemqVersion = plain FuseVersionProcessor"

definition ProcessJbossFuseOnEapCxfVersion :: processor where
  "ProcessJbossFuseOnEapCxfVersion = plain FuseVersionProcessor"

definition ProcessLocateCamel :: processor where
  "ProcessLocateCamel = (plain FuseVersionProcessorLocate) \<lparr>DEPS := [''internal_have_locate'']\<rparr>"

definition ProcessLocateActivemq :: processor where
  "ProcessLocateActivemq = (plain FuseVersionProcessorLocate) \<lparr>DEPS := [''internal_have_locate'']\<rparr>"

definition ProcessLocateCxf :: processor where
  "ProcessLocateCxf = (plain FuseVersionProcessorLocate) \<lparr>DEPS := [''internal_have_locate'']\<rparr>"

section \<open>\<open>redhat_packages.py\<close>\<close>

definition ProcessRedHatPackagesCerts :: processor where
  "ProcessRedHatPackagesCerts =
     plain (\<lambda>output.
       bind_res (vget output ''rc'' (PBool True)) (\<lambda>rc.
         if truthy rc then Return (PStr [])
         else
           bind_res (vget output ''stdout'' PNone) (\<lambda>certs.
             if \<not> truthy certs then Return certs
             else bind_res (py_last certs) (\<lambda>c. if c = PStr '';'' then py_butlast certs else Return certs))))"

section \<open>\<open>subman.py\<close>\<close>

text \<open>A line that does not split into a name and an id is logged and skipped.\<close>

definition entitlement_line :: "pyval \<Rightarrow> pyval list res" where
  "entitlement_line line =
     (if \<not> truthy line then Return []
      else
        bind_res (as_str line) (\<lambda>s.
          Return
            (case split_on '' - '' s of
               [name, entitlement_id] \<Rightarrow>
                 [PDict [(''name'', PStr name), (''entitlement_id'', PStr entitlement_id)]]
             | _ \<Rightarrow> [])))"

definition ProcessSubmanConsumed :: processor where
  "ProcessSubmanConsumed =
     plain (\<lambda>output.
       bind_res (get_iter output ''stdout_lines'') (\<lambda>entitlements.
       bind_res (map_res entitlement_line entitlements) (\<lambda>data. Return (PList (concat data)))))"

section \<open>\<open>system_purpose.py\<close>\<close>

text \<open>Until the text is JSON, its first line is dropped.\<close>

definition drop_line :: "string \<Rightarrow> string" where
  "drop_line s = tl (dropWhile (\<lambda>c. code c \<noteq> 10) s)"

function purpose_loop :: "string \<Rightarrow> pyval" where
  "purpose_loop s =
     (if s = [] then PNone
      else
        (case json_loads s of
           Some v \<Rightarrow> v
         | None \<Rightarrow> if list_ex (\<lambda>c. code c = 10) s then purpose_loop (drop_line s) else PNone))"
  by pat_completeness auto

lemma drop_line_length: "s \<noteq> [] \<Longrightarrow> length (drop_line s) < length s"
  using length_dropWhile_le [of "\<lambda>c. code c \<noteq> 10" s]
  by (simp add: drop_line_def flip: length_greater_0_conv)

termination purpose_loop
  by (relation "measure length") (simp_all add: drop_line_length)

declare purpose_loop.simps [simp del]

definition system_purpose_json :: "pyval \<Rightarrow> pyval res" where
  "system_purpose_json output =
     bind_res (vget output ''stdout'' PNone) (\<lambda>stdout.
       if \<not> truthy stdout then Return PNone
       else bind_res (re_text stdout) (\<lambda>s. Return (purpose_loop s)))"

definition ProcessSystemPurpose :: processor where "ProcessSystemPurpose = plain system_purpose_json"

section \<open>\<open>user_data.py\<close>\<close>

definition is_user_line :: "pyval \<Rightarrow> bool res" where
  "is_user_line line =
     bind_res (text_in ''/sbin/nologin'' line) (\<lambda>nologin.
       if nologin then Return False
       else
         bind_res (text_in ''/home/'' line) (\<lambda>home. if home then Return True else text_in ''/root:/'' line))"

definition system_user_count :: "pydict \<Rightarrow> pyval res" where
  "system_user_count deps =
     (let users = dgetn deps ''internal_system_user_count''
      in bind_res (succeeded users) (\<lambda>ok.
           if \<not> ok then Return (PStr [])
           else
             bind_res (vget users ''stdout_lines'' PNone) (\<lambda>lines.
             bind_res (py_iter lines) (\<lambda>ls.
             bind_res (comprehension is_user_line Return ls) (\<lambda>found.
             bind_res (unique_list found) (\<lambda>unique_users. Return (PInt (int (length unique_users)))))))))"

definition ProcessSystemUserCount :: processor where
  "ProcessSystemUserCount = dependent [''internal_system_user_count''] system_user_count"

section \<open>\<open>virt.py\<close>\<close>

definition nonempty_lines :: "pyval \<Rightarrow> pyval list res" where
  "nonempty_lines output = bind_res (get_iter output ''stdout_lines'') (\<lambda>ls. Return (filter truthy ls))"

definition is_last_stdout_line_y :: "pyval \<Rightarrow> pyval res" where
  "is_last_stdout_line_y output =
     bind_res (nonempty_lines output) (\<lambda>ls. Return (PBool (ls \<noteq> [] \<and> last ls = PStr ''Y'')))"

definition ProcessVirtXenPrivcmdFound :: processor where
  "ProcessVirtXenPrivcmdFound = plain is_last_stdout_line_y"

definition ProcessVirtKvmFound :: processor where "ProcessVirtKvmFound = plain is_last_stdout_line_y"

definition ProcessVirtXenGuest :: processor where
  "ProcessVirtXenGuest =
     plain (\<lambda>output.
       bind_res (nonempty_lines output) (\<lambda>ls.
         Return (PBool (ls \<noteq> [] \<and> (case convert_to_int (last ls) of Some i \<Rightarrow> i > 0 | None \<Rightarrow> False)))))"

definition ProcessSystemManufacturer :: processor where
  "ProcessSystemManufacturer =
     (plain (\<lambda>output. bind_res (nonempty_lines output) (\<lambda>ls. Return (if ls = [] then PNone else last ls))))
     \<lparr>REQUIRE_DEPS := False\<rparr>"

definition ProcessVirtCpuModelNameKvm :: processor where
  "ProcessVirtCpuModelNameKvm = plain is_last_stdout_line_y"

definition virt_type_manufacturer :: "string \<Rightarrow> pyval" where
  "virt_type_manufacturer manufacturer =
     (if contains ''vmware'' manufacturer then PStr ''vmware''
      else if contains ''innotek gmbh'' manufacturer then PStr ''virtualbox''
      else if contains ''microsoft'' manufacturer then PStr ''virtualpc''
      else if contains ''qemu'' manufacturer then PStr ''kvm''
      else PNone)"

definition virt_type :: "pydict \<Rightarrow> pyval res" where
  "virt_type deps =
     (if deps = [] then Return PNone
      else
        bind_res
          (if truthy (dgetn deps ''internal_have_dmidecode'') \<and> truthy (dgetn deps ''internal_sys_manufacturer'')
           then
             bind_res (as_str (dgetn deps ''internal_sys_manufacturer'')) (\<lambda>s.
               Return (virt_type_manufacturer (py_lower s)))
           else Return PNone) (\<lambda>v.
          if v \<noteq> PNone then Return v
          else if truthy (dgetn deps ''internal_cpu_model_name_kvm'') then Return (PStr ''kvm'')
          else if truthy (dgetn deps ''internal_kvm_found'') then Return (PStr ''kvm'')
          else if truthy (dgetn deps ''internal_xen_guest'') then Return (PStr ''xen'')
          else if truthy (dgetn deps ''internal_xen_privcmd_found'') then Return (PStr ''xen'')
          else Return PNone))"

definition ProcessVirtType :: processor where
  "ProcessVirtType =
     dependent [''internal_have_dmidecode'', ''internal_sys_manufacturer'', ''internal_cpu_model_name_kvm'',
       ''internal_xen_guest'', ''internal_kvm_found'', ''internal_xen_privcmd_found''] virt_type"

definition ProcessVirtVirt :: processor where
  "ProcessVirtVirt =
     dependent [''internal_kvm_found'', ''virt_type''] (\<lambda>deps.
       if deps = [] then Return PNone
       else if truthy (dgetn deps ''internal_kvm_found'') then Return (PStr ''virt-host'')
       else if truthy (dgetn deps ''virt_type'') then Return (PStr ''virt-guest'')
       else Return PNone)"

section \<open>\<open>virt_what.py\<close>\<close>

definition ProcessVirtWhat :: processor where
  "ProcessVirtWhat =
     plain (\<lambda>output.
       bind_res (vget output ''rc'' PNone) (\<lambda>exit_code.
         if \<not> is_zero exit_code then Return (processed_result exit_code PNone (PList []))
         else
           bind_res (get_iter output ''stdout_lines'') (\<lambda>ls.
           bind_res (comprehension nonblank stripped ls) (\<lambda>value.
             Return (processed_result exit_code PNone (PList value))))))"

section \<open>\<open>yum.py\<close>\<close>

text \<open>\<open>xs[xs.index(x) + 1:]\<close>\<close>

definition index_after :: "pyval list \<Rightarrow> pyval \<Rightarrow> pyval list res" where
  "index_after xs x = (case dropWhile (\<lambda>y. y \<noteq> x) xs of [] \<Rightarrow> Raise ValueError | _ # r \<Rightarrow> Return r)"

text \<open>The loop runs over the lines of the output while it shortens its own copy of them.\<close>

definition repolist_step :: "pyval \<Rightarrow> pyval list \<times> bool \<Rightarrow> (pyval list \<times> bool) res" where
  "repolist_step line state =
     bind_res (text_in ''repo id'' line) (\<lambda>hit.
       if hit then bind_res (index_after (fst state) line) (\<lambda>rest. Return (rest, True)) else Return state)"

text \<open>The head of \<open>s.rpartition(" ")\<close>\<close>

definition rpartition_head :: "string \<Rightarrow> string" where
  "rpartition_head s =
     (if CHR '' '' \<in> set s then rev (tl (dropWhile (\<lambda>c. c \<noteq> CHR '' '') (rev s))) else [])"

definition repo_line :: "pyval \<Rightarrow> pyval list res" where
  "repo_line line =
     bind_res (as_str line) (\<lambda>s.
       case partition_at '' '' s of (repo, _, remainder) \<Rightarrow>
         (let repo = py_strip repo; repo_name = py_strip (rpartition_head remainder)
          in Return (if repo \<noteq> [] \<and> repo_name \<noteq> [] then [PDict [(''name'', PStr repo_name), (''repo'', PStr repo)]] else [])))"

definition yum_enabled_repolist :: "pyval \<Rightarrow> pyval res" where
  "yum_enabled_repolist output =
     bind_res (vitem output ''stdout_lines'') (\<lambda>stdout_lines.
     bind_res (py_iter stdout_lines) (\<lambda>out_lines.
     bind_res (fold_res repolist_step out_lines (out_lines, False)) (\<lambda>(rest, found_repos).
       if \<not> found_repos then Return (PList [])
       else if is_dict stdout_lines then Raise AttributeError
       else bind_res (map_res repo_line rest) (\<lambda>repos. Return (PList (concat repos))))))"

definition ProcessEnableYumRepolist :: processor where
  "ProcessEnableYumRepolist = (plain yum_enabled_repolist) \<lparr>RETURN_CODE_ANY := True\<rparr>"

section \<open>The table of processors\<close>

definition PROCESSORS :: "(string \<times> processor) list" where
  "PROCESSORS =
     [(''dmi_chassis_asset_tag'', ProcessDmiChassisAssetTag),
      (''dmi_system_product_name'', ProcessDmiSystemProductName),
      (''cloud_provider'', ProcessCloudProvider),
      (''cpu_model_ver'', ProcessCpuModelVer), (''cpu_vendor_id'', ProcessCpuVendorId),
      (''cpu_model_name'', ProcessCpuModelName), (''cpu_socket_count'', ProcessCpuSocketCount),
      (''cpu_core_count'', ProcessCpuCoreCount),
      (''date_filesystem_create'', ProcessDateFilesystemCreate), (''date_machine_id'', ProcessDateMachineId),
      (''dmi_system_uuid'', ProcessDmiSystemUuid),
      (''jboss_eap_running_paths'', ProcessJbossEapRunningPaths),
      (''jboss_eap_find_jboss_modules_jar'', ProcessFindJboss), (''jboss_eap_id_jboss'', ProcessIdUJboss),
      (''jboss_eap_common_files'', ProcessJbossEapCommonFiles), (''jboss_processes'', ProcessJbossProcesses),
      (''jboss_eap_packages'', ProcessJbossEapPackages),
      (''jboss_eap_locate_jboss_modules_jar'', ProcessJbossEapLocate),
      (''jboss_eap_chkconfig'', ProcessJbossEapChkconfig),
      (''jboss_eap_systemctl_unit_files'', ProcessJbossEapSystemctl), (''eap_home_ls'', ProcessEapHomeLs),
      (''eap_home_version_txt'', ProcessEapHomeVersionTxt), (''eap_home_readme_txt'', ProcessEapHomeReadmeTxt),
      (''eap_home_jboss_modules_manifest'', ProcessJbossModulesManifestMf),
      (''eap_home_jboss_modules_version'', ProcessJbossModulesVersion),
      (''eap_home_bin'', ProcessEapHomeBinForFuse), (''eap_home_layers'', ProcessEapHomeLayers),
      (''eap_home_layers_conf'', ProcessEapHomeLayersConf), (''jboss_eap_jar_ver'', ProcessFindJbossEAPJarVer),
      (''jboss_eap_run_jar_ver'', ProcessFindJbossEAPRunJarVer),
      (''eap5_home_version_txt'', ProcessVersionTxt), (''eap5_home_readme_html'', ProcessReadmeHtml),
      (''eap5_home_ls_jboss_as'', ProcessLsJbossAs), (''eap5_home_run_jar_version'', ProcessRunJarVersion),
      (''eap5_home_run_jar_manifest'', ProcessRunJarManifest),
      (''jboss_activemq_ver'', ProcessFindJbossActiveMQJar), (''jboss_camel_ver'', ProcessFindJbossCamelJar),
      (''jboss_cxf_ver'', ProcessFindJbossCXFJar),
      (''hostnamectl'', ProcessHostnameCTL),
      (''ifconfig_ip_addresses'', ProcessIPAddresses), (''ifconfig_mac_addresses'', ProcessMacAddresses),
      (''installed_products'', ProcessInstalledProducts),
      (''ip_address_show_ipv4'', ProcessIpAddressesIPv4), (''ip_address_show_ipv6'', ProcessIpAddressesIPv6),
      (''ip_address_show_mac'', ProcessIpAddressesMAC),
      (''jws_installed_with_rpm'', ProcessJWSInstalledWithRpm), (''jws_has_eula_txt_file'', ProcessHasJBossEULA),
      (''jws_has_cert'', ProcessJWSHasCert),
      (''karaf_running_processes'', ProcessKarafRunningProcesses), (''karaf_find_karaf_jar'', ProcessFindKaraf),
      (''karaf_locate_karaf_jar'', ProcessLocateKaraf), (''jboss_fuse_chkconfig'', ProcessJbossFuseChkconfig),
      (''jboss_fuse_systemctl_unit_files'', ProcessJbossFuseSystemctl),
      (''karaf_home_bin_fuse'', ProcessKarafHomeBinFuse),
      (''karaf_home_system_org_jboss'', ProcessKarafHomeSystemOrgJboss),
      (''jboss_fuse_on_karaf_camel_ver'', ProcessJbossFuseCamelVersion),
      (''jboss_fuse_on_karaf_activemq_ver'', ProcessJbossFuseActivemqVersion),
      (''jboss_fuse_on_karaf_cxf_ver'', ProcessJbossFuseCxfVersion),
      (''jboss_fuse_on_eap_camel_ver'', ProcessJbossFuseOnEapCamelVersion),
      (''jboss_fuse_on_eap_activemq_ver'', ProcessJbossFuseOnEapActivemqVersion),
      (''jboss_fuse_on_eap_cxf_ver'', ProcessJbossFuseOnEapCxfVersion),
      (''jboss_fuse_camel_ver'', ProcessLocateCamel), (''jboss_fuse_activemq_ver'', ProcessLocateActivemq),
      (''jboss_fuse_cxf_ver'', ProcessLocateCxf),
      (''redhat_packages_certs'', ProcessRedHatPackagesCerts), (''subman_consumed'', ProcessSubmanConsumed),
      (''system_purpose_json'', ProcessSystemPurpose), (''system_user_count'', ProcessSystemUserCount),
      (''internal_xen_privcmd_found'', ProcessVirtXenPrivcmdFound), (''internal_kvm_found'', ProcessVirtKvmFound),
      (''internal_xen_guest'', ProcessVirtXenGuest), (''internal_sys_manufacturer'', ProcessSystemManufacturer),
      (''internal_cpu_model_name_kvm'', ProcessVirtCpuModelNameKvm), (''virt_type'', ProcessVirtType),
      (''virt_virt'', ProcessVirtVirt), (''virt_what'', ProcessVirtWhat),
      (''yum_enabled_repolist'', ProcessEnableYumRepolist)]"

section \<open>Lemmas\<close>

lemma processors_distinct: "distinct (map fst PROCESSORS)"
  unfolding PROCESSORS_def by code_simp

subsection \<open>The repository list\<close>

definition after_last :: "('a \<Rightarrow> bool) \<Rightarrow> 'a list \<Rightarrow> 'a list" where
  "after_last P xs = rev (takeWhile (\<lambda>x. \<not> P x) (rev xs))"

lemma after_last_Cons:
  "after_last P (x # xs) = (if list_ex P xs then after_last P xs else if P x then xs else x # xs)"
proof (cases "list_ex P xs")
  case True
  then obtain y where "y \<in> set (rev xs)" "\<not> \<not> P y" by (auto simp: list_ex_iff)
  then have "takeWhile (\<lambda>x. \<not> P x) (rev xs @ [x]) = takeWhile (\<lambda>x. \<not> P x) (rev xs)"
    by (rule takeWhile_append1)
  with True show ?thesis by (simp add: after_last_def)
next
  case False
  then have "takeWhile (\<lambda>x. \<not> P x) (rev xs @ [x]) = rev xs @ takeWhile (\<lambda>x. \<not> P x) [x]"
    by (intro takeWhile_append2) (auto simp: list_ex_iff)
  with False show ?thesis by (simp add: after_last_def)
qed

definition is_header :: "string \<Rightarrow> bool" where
  "is_header line = contains ''repo id'' line"

lemma index_after_first:
  "list_all (\<lambda>y. y \<noteq> x) t \<Longrightarrow> index_after (map PStr (t @ x # r)) (PStr x) = Return (map PStr r)"
  by (induction t) (auto simp: index_after_def)

lemma repolist_loop:
  "list_all (\<lambda>y. \<not> is_header y) t \<Longrightarrow>
     fold_res repolist_step (map PStr ls) (map PStr (t @ ls), f) =
       Return (map PStr (if list_ex is_header ls then after_last is_header ls else t @ ls), f \<or> list_ex is_header ls)"
proof (induction ls arbitrary: t f)
  case Nil
  then show ?case by simp
next
  case (Cons x ls)
  show ?case
  proof (cases "is_header x")
    case True
    then have "list_all (\<lambda>y. y \<noteq> x) t" using Cons.prems by (auto simp: list_all_iff)
    then have "repolist_step (PStr x) (map PStr (t @ x # ls), f) = Return (map PStr ls, True)"
      using True index_after_first [of x t ls] by (simp add: repolist_step_def is_header_def)
    with True Cons.IH [of "[]" True] show ?thesis by (simp add: after_last_Cons del: map_append)
  next
    case False
    then have "repolist_step (PStr x) (map PStr (t @ x # ls), f) = Return (map PStr ((t @ [x]) @ ls), f)"
      by (simp add: repolist_step_def is_header_def)
    moreover have "list_all (\<lambda>y. \<not> is_header y) (t @ [x])" using Cons.prems False by simp
    ultimately show ?thesis
      using False Cons.IH [of "t @ [x]" f] by (simp add: after_last_Cons del: map_append)
  qed
qed

definition repo_entry :: "string \<Rightarrow> pyval list" where
  "repo_entry s =
     (case partition_at '' '' s of (repo, _, remainder) \<Rightarrow>
        if py_strip repo \<noteq> [] \<and> py_strip (rpartition_head remainder) \<noteq> []
        then [PDict [(''name'', PStr (py_strip (rpartition_head remainder))), (''repo'', PStr (py_strip repo))]]
        else [])"

lemma repo_line_text: "repo_line (PStr s) = Return (repo_entry s)"
  by (simp add: repo_line_def repo_entry_def Let_def split: prod.split)

subsection \<open>Lines without a word\<close>

lemma comprehension_raises:
  assumes "x \<in> set xs" and "test x = Raise e" and "\<And>y. y \<in> set xs \<Longrightarrow> \<not> is_return (f y) \<Longrightarrow> False"
  shows "\<exists>e'. comprehension test f xs = Raise e'"
  using assms
proof (induction xs)
  case Nil
  then show ?case by simp
next
  case (Cons y xs)
  show ?case
  proof (cases "y = x")
    case True
    with Cons.prems show ?thesis by simp
  next
    case False
    with Cons.prems have "\<exists>e'. comprehension test f xs = Raise e'" by (intro Cons.IH) auto
    then obtain e' where "comprehension test f xs = Raise e'" ..
    then show ?thesis by (cases "test y"; cases "f y") auto
  qed
qed

lemma strip_empty: "py_strip s = [] \<longleftrightarrow> list_all is_space s"
proof
  assume "py_strip s = []"
  then have "list_all is_space (py_lstrip s)"
    by (simp add: py_strip_def py_rstrip_def dropWhile_eq_Nil_conv list_all_iff)
  then have "py_lstrip s = []" using lstrip_hd [of s] by (cases "py_lstrip s") auto
  then show "list_all is_space s" by (simp add: py_lstrip_def dropWhile_eq_Nil_conv list_all_iff)
next
  assume "list_all is_space s"
  then have "py_lstrip s = []" by (simp add: py_lstrip_def dropWhile_eq_Nil_conv list_all_iff)
  then show "py_strip s = []" by (simp add: py_strip_def py_rstrip_def)
qed

lemma split_ws_blank: "list_all is_space s \<Longrightarrow> split_ws s = []"
  by (induction s) (simp_all add: split_ws_def)

lemma first_word_blank: "py_strip s = [] \<Longrightarrow> first_word s = Raise IndexError"
  by (simp add: first_word_def strip_empty split_ws_blank)

section \<open>Properties\<close>

text \<open>
  C36. What the post-processing of a fact raises, for any table of processors: nothing but a
  \<open>KeyError\<close>, and it exactly for a command that failed, was neither skipped nor a \<open>sudo\<close> error, has a
  processor that does not take failures, and left no \<open>stdout\<close> for the message of the failure.
\<close>

theorem process_raises_iff:
  "process_fact_value procs previous key v = Raise e \<longleftrightarrow>
     e = KeyError \<and> \<not> is_sudo_error_value v \<and>
     (\<exists>p d. map_of procs key = Some p \<and> v = PDict d \<and> \<not> missing_dep p previous \<and>
        \<not> RETURN_CODE_ANY p \<and> is_ansible_task_result v \<and> \<not> truthy (dget d ''skipped'' (PBool False)) \<and>
        truthy (dget d ''rc'' (PInt 0)) \<and> \<not> has_key d ''stdout'')"
proof -
  have "unusable_result p v = Raise e \<longleftrightarrow>
     e = KeyError \<and> (\<exists>d. v = PDict d \<and> \<not> RETURN_CODE_ANY p \<and> is_ansible_task_result v \<and>
       \<not> truthy (dget d ''skipped'' (PBool False)) \<and> truthy (dget d ''rc'' (PInt 0)) \<and> \<not> has_key d ''stdout'')" for p
    by (cases v) (auto simp: unusable_result_def ditem_def has_key_map_of split: option.split)
  note raised = this
  show ?thesis
  proof (cases "map_of procs key")
    case None
    then show ?thesis by (simp add: process_fact_value_def)
  next
    case (Some p)
    have "process_fact_value procs previous key v = Raise e \<longleftrightarrow>
        \<not> is_sudo_error_value v \<and> \<not> missing_dep p previous \<and> unusable_result p v = Raise e"
      using Some by (auto simp: process_fact_value_def bind_res_eq_Raise split: res.splits)
    with Some raised show ?thesis by auto
  qed
qed

text \<open>
  C14. The list of enabled repositories: the loop that shortens its copy of the lines at every header
  while it runs over all of them never fails to find the header and ends with the lines after the
  last one; every other line counts as noise.
\<close>

theorem repolist_after_last_header:
  assumes "ditem d ''stdout_lines'' = Return (PList (map PStr ls))"
  shows "yum_enabled_repolist (PDict d) =
    Return (PList (if list_ex is_header ls then concat (map repo_entry (after_last is_header ls)) else []))"
proof -
  have "map_res repo_line (map PStr xs) = Return (map repo_entry xs)" for xs
    by (induction xs) (simp_all add: repo_line_text)
  then show ?thesis
    using assms repolist_loop [of "[]" ls False] by (simp add: yum_enabled_repolist_def)
qed

definition sample_repolist :: "string list" where
  "sample_repolist =
     [''Loaded plugins: repo id'', ''repo id   repo name   status'', ''rhel-7   RHEL 7 Server   100'', ''repolist: 100'']"

theorem repolist_after_last_header_witness:
  "yum_enabled_repolist (PDict [(''stdout_lines'', PList (map PStr sample_repolist))]) =
     Return (PList [PDict [(''name'', PStr ''RHEL 7 Server''), (''repo'', PStr ''rhel-7'')]])"
proof -
  have "(if list_ex is_header sample_repolist then concat (map repo_entry (after_last is_header sample_repolist)) else [])
      = [PDict [(''name'', PStr ''RHEL 7 Server''), (''repo'', PStr ''rhel-7'')]]"
    unfolding sample_repolist_def by code_simp
  then show ?thesis
    using repolist_after_last_header [of "[(''stdout_lines'', PList (map PStr sample_repolist))]" sample_repolist]
    by (simp add: ditem_def)
qed

subsection \<open>Products\<close>

definition products_ok :: "pydict list \<Rightarrow> bool" where
  "products_ok ps \<longleftrightarrow> distinct (map (\<lambda>p. dgetn p ''id'') ps) \<and>
     list_all (\<lambda>p. truthy (dgetn p ''id'') \<and> wf_dict p \<and> set (map fst p) \<subseteq> {''name'', ''id''}) ps"

lemma parse_product_ok: "wf_dict (parse_product s) \<and> set (map fst (parse_product s)) \<subseteq> {''name'', ''id''}"
proof -
  have low: "py_lower ''Name'' = ''name''" "py_lower ''ID'' = ''id''" by code_simp+
  have upd: "set (map fst (AList.update k v d)) = insert k (set (map fst d))" for k v and d :: pydict
    using has_key_update [of k v d] unfolding has_key_def by blast
  have step: "wf_dict (product_line l d) \<and> set (map fst (product_line l d)) \<subseteq> {''name'', ''id''}"
    if "wf_dict d \<and> set (map fst d) \<subseteq> {''name'', ''id''}" for l d
    using that unfolding product_line_def
    by (auto simp: low upd simp del: set_map split: prod.split intro: wf_dict_update)
  have "wf_dict (fold product_line ls d) \<and> set (map fst (fold product_line ls d)) \<subseteq> {''name'', ''id''}"
    if "wf_dict d \<and> set (map fst d) \<subseteq> {''name'', ''id''}" for ls d
    using that
  proof (induction ls arbitrary: d)
    case Nil
    then show ?case by simp
  next
    case (Cons l ls)
    then show ?case using step [of d l] by simp
  qed
  from this [of "[]" "splitlines s"] show ?thesis by (simp add: parse_product_def)
qed

lemma add_product_ok: "products_ok ps \<Longrightarrow> products_ok (add_product s ps)"
  using parse_product_ok [of s] by (auto simp: products_ok_def add_product_def Let_def list_ex_iff)

lemma add_products_ok: "products_ok ps \<Longrightarrow> products_ok (fold add_product ss ps)"
  by (induction ss arbitrary: ps) (auto intro: add_product_ok)

lemma add_product_mono: "p \<in> set ps \<Longrightarrow> p \<in> set (add_product s ps)"
  by (simp add: add_product_def Let_def)

lemma add_products_mono: "p \<in> set ps \<Longrightarrow> p \<in> set (fold add_product ss ps)"
  by (induction ss arbitrary: ps) (auto intro: add_product_mono)

lemma add_products_all:
  "s \<in> set ss \<Longrightarrow> truthy (dgetn (parse_product s) ''id'') \<Longrightarrow>
     \<exists>p \<in> set (fold add_product ss ps). dgetn p ''id'' = dgetn (parse_product s) ''id''"
proof (induction ss arbitrary: ps)
  case Nil
  then show ?case by simp
next
  case (Cons x ss)
  show ?case
  proof (cases "s = x")
    case True
    have "\<exists>p \<in> set (add_product x ps). dgetn p ''id'' = dgetn (parse_product s) ''id''"
      using True Cons.prems(2) by (auto simp: add_product_def Let_def list_ex_iff)
    then show ?thesis using add_products_mono [of _ "add_product x ps" ss] by auto
  next
    case False
    with Cons show ?thesis by simp
  qed
qed


definition newline :: string where "newline = [char_of (10::nat)]"

definition sample_products :: string where
  "sample_products = py_join newline [''Name: A'', ''ID: 1'', ''--'', ''ID: 1'', ''Name: B'', ''--'', ''noise'', ''--'', ''ID: 2'']"


subsection \<open>Addresses\<close>

lemma ip_address_show_valid:
  assumes "ip_address_show start exclude valid output = Return v"
  shows "\<exists>as. v = PList (map PStr as) \<and> distinct as \<and> list_all (\<lambda>a. a \<notin> set exclude \<and> valid a) as"
proof -
  from assms obtain as where "v = PList (map PStr (filter (\<lambda>a. a \<notin> set exclude \<and> valid a) (remdups as)))"
    by (auto simp: ip_address_show_def bind_res_eq_Return)
  then show ?thesis
    by (intro exI [of _ "filter (\<lambda>a. a \<notin> set exclude \<and> valid a) (remdups as)"]) (auto simp: list_all_iff)
qed

lemma valid_ipv4_text: "is_valid_ipv4_address a \<Longrightarrow> \<exists>n < 2 ^ 32. a = ipv4_text n"
  using ipv4_int_sound [of a] by (auto simp: is_valid_ipv4_address_def IPv4Address_def split: if_splits)

lemma special_ipv4: "ipv4_text 0 = ''0.0.0.0''" "ipv4_text 2130706433 = ''127.0.0.1''"
proof -
  have "py_join ''.'' (map show_nat [0, 0, 0, 0]) = ''0.0.0.0''" "py_join ''.'' (map show_nat [127, 0, 0, 1]) = ''127.0.0.1''"
    by code_simp+
  then show "ipv4_text 0 = ''0.0.0.0''" "ipv4_text 2130706433 = ''127.0.0.1''" by (simp_all add: ipv4_text_def)
qed

text \<open>
  C37. The IPv4 addresses of a host: if the output of \<open>ip address show\<close> can be processed, the fact lists
  addresses in canonical text, each once, and neither the loopback address nor the unspecified one.
  Equal addresses therefore have equal texts, which deduplication and merging compare.
\<close>

theorem ipv4_fact_canonical:
  assumes "proc ProcessIpAddressesIPv4 output deps = Return v"
  shows "\<exists>ns. v = PList (map (\<lambda>n. PStr (ipv4_text n)) ns) \<and> distinct ns \<and>
    list_all (\<lambda>n. n < 2 ^ 32 \<and> n \<noteq> 0 \<and> n \<noteq> 2130706433) ns"
proof -
  from assms have "ip_address_show ''inet '' [''127.0.0.1'', ''0.0.0.0''] is_valid_ipv4_address output = Return v"
    by (simp add: ProcessIpAddressesIPv4_def plain_def)
  from ip_address_show_valid [OF this] obtain as where as: "v = PList (map PStr as)" "distinct as"
    "list_all (\<lambda>a. a \<notin> set [''127.0.0.1'', ''0.0.0.0''] \<and> is_valid_ipv4_address a) as"
    by (elim exE conjE) (rule that)
  define num where "num = (\<lambda>a. the (ipv4_int a))"
  have num: "a = ipv4_text (num a) \<and> num a < 2 ^ 32 \<and> num a \<noteq> 0 \<and> num a \<noteq> 2130706433" if "a \<in> set as" for a
  proof -
    from that as(3) have ok: "is_valid_ipv4_address a" "a \<noteq> ''127.0.0.1''" "a \<noteq> ''0.0.0.0''" by (auto simp: list_all_iff)
    from valid_ipv4_text [OF ok(1)] obtain n where n: "n < 2 ^ 32" "a = ipv4_text n" by blast
    from n(2) ok special_ipv4 have "n \<noteq> 0" "n \<noteq> 2130706433" by metis+
    with n show ?thesis by (simp add: num_def ipv4_int_text)
  qed
  then have "map (\<lambda>n. PStr (ipv4_text n)) (map num as) = map PStr as" by simp
  moreover have "inj_on num (set as)"
    by (rule inj_on_inverseI [where g = ipv4_text]) (use num in simp)
  then have "distinct (map num as)" using as(2) by (simp add: distinct_map)
  moreover have "list_all (\<lambda>n. n < 2 ^ 32 \<and> n \<noteq> 0 \<and> n \<noteq> 2130706433) (map num as)"
    using num by (auto simp: list_all_iff)
  ultimately show ?thesis using as(1) by (intro exI [of _ "map num as"]) simp
qed

theorem ipv4_fact_canonical_witness:
  "\<exists>v ns. proc ProcessIpAddressesIPv4 (PDict [(''stdout_lines'', PList (map PStr
       [''    inet 0.0.0.0/8 scope host lo'', ''    inet 0.0.1.7/20 brd 0.0.1.255 scope global'',
        ''    inet 0.0.1.07/20 brd 0.0.1.255'', ''    inet 0.0.1.7/24 scope global'']))]) [] = Return v \<and>
     v = PList [PStr ''0.0.1.7''] \<and> v = PList (map (\<lambda>n. PStr (ipv4_text n)) ns) \<and> distinct ns"
proof -
  have r: "proc ProcessIpAddressesIPv4 (PDict [(''stdout_lines'', PList (map PStr
       [''    inet 0.0.0.0/8 scope host lo'', ''    inet 0.0.1.7/20 brd 0.0.1.255 scope global'',
        ''    inet 0.0.1.07/20 brd 0.0.1.255'', ''    inet 0.0.1.7/24 scope global'']))]) [] = Return (PList [PStr ''0.0.1.7''])"
    by code_simp
  from ipv4_fact_canonical [OF r] obtain ns where
    ns: "PList [PStr ''0.0.1.7''] = PList (map (\<lambda>n. PStr (ipv4_text n)) ns)" "distinct ns"
    by (elim exE conjE) (rule that)
  show ?thesis by (intro exI conjI) (rule r, rule refl, rule ns(1), rule ns(2))
qed

subsection \<open>Processes\<close>

lemma jboss_processes_blank:
  assumes "ditem d ''stdout_lines'' = Return (PList (map PStr ls))" and "list_ex (\<lambda>l. py_strip l = []) ls"
    and "is_zero (dget d ''rc'' (PInt 1))"
  shows "\<exists>e. jboss_processes (PDict d) = Raise e"
proof -
  from assms(2) obtain l where "l \<in> set ls" "py_strip l = []" by (auto simp: list_ex_iff)
  then have "\<exists>e. comprehension (\<lambda>line. bind_res (as_str line) (\<lambda>s. bind_res (first_word s) (\<lambda>w.
      Return (w \<notin> set IGNORE_PROCESSES)))) Return (map PStr ls) = Raise e"
    by (intro comprehension_raises [of "PStr l"]) (auto simp: first_word_blank)
  with assms show ?thesis by (auto simp: jboss_processes_def item_iter_def)
qed

text \<open>
  One blank line in the list of processes loses the whole fact: the processor takes the first word
  of every line, a blank line has none, and the exception discards the count of all other lines.
\<close>

lemma blank_line_loses_processes:
  assumes "ditem d ''stdout_lines'' = Return (PList (map PStr ls))" and "list_ex (\<lambda>l. py_strip l = []) ls"
    and "is_zero (dget d ''rc'' (PInt 1))"
  shows "process_fact_value PROCESSORS previous ''jboss_processes'' (PDict d) = Return NO_DATA"
proof -
  have p: "map_of PROCESSORS ''jboss_processes'' = Some ProcessJbossProcesses" by (simp add: PROCESSORS_def)
  have a: "RETURN_CODE_ANY ProcessJbossProcesses" "proc ProcessJbossProcesses x y = jboss_processes x" for x y
    by (simp_all add: ProcessJbossProcesses_def plain_def)
  have "\<not> missing_dep ProcessJbossProcesses previous"
    by (simp add: missing_dep_def ProcessJbossProcesses_def plain_def)
  with p a jboss_processes_blank [OF assms] show ?thesis
    by (auto simp: process_fact_value_def unusable_result_def)
qed

lemma blank_line_loses_processes_example:
  "process_fact_value PROCESSORS [] ''jboss_processes''
     (PDict [(''rc'', PInt 0), (''stdout_lines'', PList (map PStr [''java -jar jboss-modules.jar'', '' '', ''java -D jboss'']))]) =
   Return NO_DATA"
  by (rule blank_line_loses_processes [where ls = "[''java -jar jboss-modules.jar'', '' '', ''java -D jboss'']"])
    (simp_all add: ditem_def dget_def, code_simp)

subsection \<open>System purpose\<close>

definition text_lines :: "string list \<Rightarrow> string" where
  "text_lines ls = concat (map (\<lambda>l. l @ newline) ls)"

lemma drop_line_first:
  "list_all (\<lambda>c. code c \<noteq> 10) l \<Longrightarrow> drop_line (l @ newline @ t) = t"
  by (induction l) (simp_all add: drop_line_def newline_def code_char_of)

lemma purpose_skip:
  "s \<noteq> [] \<Longrightarrow> json_loads s = None \<Longrightarrow> list_ex (\<lambda>c. code c = 10) s \<Longrightarrow> purpose_loop s = purpose_loop (drop_line s)"
  by (subst purpose_loop.simps) simp

text \<open>
  C38. Noise before the system purpose does not matter: if the output is any number of lines followed
  by a JSON text, and no suffix that starts at one of those lines is JSON itself, the fact is the value of
  that JSON text.
\<close>

theorem purpose_after_noise:
  assumes "json_loads t = Some v" and "list_all (list_all (\<lambda>c. code c \<noteq> 10)) ls"
    and "list_all (\<lambda>k. json_loads (text_lines (drop k ls) @ t) = None) [0..<length ls]"
  shows "purpose_loop (text_lines ls @ t) = v"
  using assms
proof (induction ls)
  case Nil
  then have "t \<noteq> []" by (auto simp: json_loads_def skip_space_def)
  with Nil show ?case by (subst purpose_loop.simps) (simp add: text_lines_def)
next
  case (Cons l ls)
  let ?s = "text_lines (l # ls) @ t"
  have s: "?s = l @ newline @ text_lines ls @ t" by (simp add: text_lines_def)
  have "json_loads ?s = None" using Cons.prems(3) by (simp add: upt_conv_Cons del: upt_Suc)
  moreover have "list_ex (\<lambda>c. code c = 10) ?s" by (simp add: s newline_def code_char_of)
  moreover have "drop_line ?s = text_lines ls @ t" unfolding s using Cons.prems(2) by (intro drop_line_first) simp
  moreover have "?s \<noteq> []" by (simp add: s newline_def)
  moreover have "purpose_loop (text_lines ls @ t) = v"
  proof (rule Cons.IH)
    show "list_all (\<lambda>k. json_loads (text_lines (drop k ls) @ t) = None) [0..<length ls]"
      unfolding list_all_iff
    proof
      fix k
      assume "k \<in> set [0..<length ls]"
      then have "Suc k \<in> set [0..<length (l # ls)]" by auto
      with Cons.prems(3) have "json_loads (text_lines (drop (Suc k) (l # ls)) @ t) = None"
        unfolding list_all_iff by blast
      then show "json_loads (text_lines (drop k ls) @ t) = None" by simp
    qed
  qed (use Cons.prems in simp_all)
  ultimately show ?case using purpose_skip [of ?s] by metis
qed

theorem purpose_after_noise_witness:
  "purpose_loop (text_lines [''Welcome!'', ''Last login: today''] @ ''[true, {}, 7]'') = PList [PBool True, PDict [], PInt 7]"
  by (rule purpose_after_noise) (simp_all add: text_lines_def newline_def, code_simp+)

end
