(* ===== verification/Network_Connect.thy ===== *)
theory Network_Connect
  imports Scan_Runner Network_Process Ip_Text "HOL-Library.Multiset"
begin

text \<open>
  Connecting to the hosts of a network source: the host patterns and the inventory of
  \<open>scanner/network/utils.py\<close>, the callback of \<open>scanner/network/connect_callback.py\<close>, and
  \<open>ConnectResultStore\<close>, \<open>_connect\<close> and \<open>run_with_result_store\<close> of \<open>scanner/network/inspect.py\<close>.

  Ansible is a record of parameters: its parsing of host patterns, the decryption of stored secrets,
  and a run of a playbook, which ends with a status or an error after it delivered a list of events
  to the event handler one by one. An exception of the handler ends the run. The host of an event is
  text. A credential is its id; its name and its data as a dict are parameters. Adding a key to the
  ssh agent, which only talks to another process, and the time limits of a run are left out.
\<close>

section \<open>Host patterns and inventories\<close>

datatype run_result = Ran "pydict list" string | Run_error "pydict list" string

record run_call =
  rc_playbook :: string
  rc_group :: string
  rc_forks :: nat
  rc_inventory :: pyval

record ansible =
  detect_range :: "string \<Rightarrow> bool"
  expand_hostname_range :: "string \<Rightarrow> string list option"
  parse_address :: "string \<Rightarrow> string option"
  decrypt_data_as_unicode :: "pyval \<Rightarrow> pyval"
  ansible_run :: "run_call \<Rightarrow> db \<Rightarrow> run_result"
  credential_name :: "nat \<Rightarrow> string"
  credential_data :: "nat \<Rightarrow> pydict"
  exn_text :: "exn \<Rightarrow> string"

definition expand_cidr :: "string \<Rightarrow> string list option" where
  "expand_cidr pat = (if \<not> contains ''/'' pat then None else network_hosts pat)"

definition expand_ansible_range :: "ansible \<Rightarrow> string \<Rightarrow> string list option" where
  "expand_ansible_range a pat = (if \<not> detect_range a pat then None else expand_hostname_range a pat)"

definition strip_port :: "ansible \<Rightarrow> string \<Rightarrow> string" where
  "strip_port a hostpattern = (case parse_address a hostpattern of Some pat \<Rightarrow> pat | None \<Rightarrow> hostpattern)"

text \<open>An empty expansion counts as none.\<close>

definition expand_hostpattern :: "ansible \<Rightarrow> string \<Rightarrow> string list" where
  "expand_hostpattern a hostpattern =
     (case expand_cidr hostpattern of
        Some (h # hs) \<Rightarrow> h # hs
      | _ \<Rightarrow>
          (let pat = strip_port a hostpattern
           in case expand_ansible_range a pat of Some (h # hs) \<Rightarrow> h # hs | _ \<Rightarrow> [pat]))"

definition set_truthy :: "string \<Rightarrow> (pyval \<Rightarrow> pyval) \<Rightarrow> pyval \<Rightarrow> pydict \<Rightarrow> pydict" where
  "set_truthy k f v d = (if truthy v then AList.update k (f v) d else d)"

definition credential_vars :: "ansible \<Rightarrow> pydict \<Rightarrow> pydict" where
  "credential_vars a credential =
     (let ssh_keyfile = (if truthy (dgetn credential ''generated_ssh_keyfile'')
                         then dgetn credential ''generated_ssh_keyfile'' else dgetn credential ''ssh_keyfile'')
      in (set_truthy ''ansible_become_user'' id (dgetn credential ''become_user'')
         \<circ> set_truthy ''ansible_become_method'' id (dgetn credential ''become_method'')
         \<circ> set_truthy ''ansible_become_pass'' (decrypt_data_as_unicode a) (dgetn credential ''become_password'')
         \<circ> set_truthy ''ansible_ssh_private_key_file'' id ssh_keyfile
         \<circ> set_truthy ''ansible_ssh_pass'' (decrypt_data_as_unicode a) (dgetn credential ''password''))
           [(''ansible_user'', dgetn credential ''username'')])"

definition construct_vars :: "ansible \<Rightarrow> pyval \<Rightarrow> pydict option \<Rightarrow> pydict" where
  "construct_vars a connection_port credential =
     (let ansible_vars = [(''ansible_port'', connection_port)]
      in case credential of
           None \<Rightarrow> ansible_vars
         | Some c \<Rightarrow> fold (\<lambda>(k, v). AList.update k v) (credential_vars a c) ansible_vars)"

text \<open>A host is its name, or its name with the data of its credential.\<close>

datatype host_entry = Host string | Host_with string pydict

fun host_name :: "host_entry \<Rightarrow> string" where
  "host_name (Host h) = h"
| "host_name (Host_with h _) = h"

fun get_host_vars :: "ansible \<Rightarrow> host_entry \<Rightarrow> string \<times> pydict" where
  "get_host_vars a (Host h) = (h, [(''ansible_host'', PStr h)])"
| "get_host_vars a (Host_with h c) = (h, AList.update ''ansible_host'' (PStr h) (credential_vars a c))"

definition format_hosts_dict :: "ansible \<Rightarrow> host_entry list \<Rightarrow> pydict" where
  "format_hosts_dict a hosts =
     fold (\<lambda>host d. case get_host_vars a host of (h, v) \<Rightarrow> AList.update h (PDict v) d) hosts []"

text \<open>\<open>[hosts[i : i + n] for i in range(0, len(hosts), n)]\<close>\<close>

function chunks :: "nat \<Rightarrow> 'a list \<Rightarrow> 'a list list" where
  "chunks n xs = (if n = 0 \<or> xs = [] then [] else take n xs # chunks n (drop n xs))"
  by pat_completeness auto

termination chunks
  by (relation "measure (\<lambda>(n, xs). length xs)") simp_all

declare chunks.simps [simp del]

definition group_name :: "nat \<Rightarrow> string" where
  "group_name index = ''group_'' @ show_nat index"

text \<open>Hosts with credentials are not hashable, so they cannot be combined with excluded hosts.\<close>

definition exclude_from :: "host_entry list \<Rightarrow> string list option \<Rightarrow> host_entry list res" where
  "exclude_from hosts exclude_hosts =
     (case exclude_hosts of
        None \<Rightarrow> Return hosts
      | Some xs \<Rightarrow>
          if list_ex (\<lambda>h. case h of Host_with _ _ \<Rightarrow> True | Host _ \<Rightarrow> False) hosts then Raise TypeError
          else Return (filter (\<lambda>h. host_name h \<notin> set xs) (remdups hosts)))"

definition construct_inventory ::
  "ansible \<Rightarrow> host_entry list \<Rightarrow> pyval \<Rightarrow> nat \<Rightarrow> pydict option \<Rightarrow> string list option \<Rightarrow> (string list \<times> pyval) res"
where
  "construct_inventory a hosts connection_port concurrency_count credential exclude_hosts =
     bind_res (exclude_from hosts exclude_hosts) (\<lambda>hosts.
       if concurrency_count = 0 then Raise ValueError
       else
         (let groups = chunks concurrency_count hosts;
              children = map (\<lambda>(index, g). (group_name index, PDict [(''hosts'', PDict (format_hosts_dict a g))]))
                           (enumerate 0 groups)
          in Return (map fst children,
               PDict [(''all'', PDict [(''children'', PDict children),
                                       (''vars'', PDict (construct_vars a connection_port credential))])])))"

section \<open>Recording connection results\<close>

record connect_state =
  cs_db :: db
  cs_task :: scantask
  cs_remaining :: "string list"

definition get_source :: "nat \<Rightarrow> db \<Rightarrow> source option" where
  "get_source i d = row_get so_id i (sources d)"

definition wanted_hosts :: "ansible \<Rightarrow> source \<Rightarrow> string list" where
  "wanted_hosts a src =
     (let exclude_hosts = concat (map (expand_hostpattern a) (so_exclude_hosts src))
      in filter (\<lambda>h. h \<notin> set exclude_hosts) (remdups (concat (map (expand_hostpattern a) (so_hosts src)))))"

definition init_store :: "ansible \<Rightarrow> source \<Rightarrow> scantask \<Rightarrow> db \<Rightarrow> connect_state res" where
  "init_store a src t d =
     (let hosts = wanted_hosts a src
      in bind_res (update_stats (Some (length hosts)) (Some 0) (Some 0) (Some 0) t d) (\<lambda>(d', t').
           Return \<lparr>cs_db = d', cs_task = t', cs_remaining = hosts\<rparr>))"

text \<open>The rows are written in one transaction, so a host that is not waited for leaves no row; the
  instance of the task keeps the counters it read inside.\<close>

definition record_result ::
  "string \<Rightarrow> nat option \<Rightarrow> conn_status \<Rightarrow> connect_state \<Rightarrow> connect_state \<times> unit res"
where
  "record_result name credential status s =
     (case st_connection_result (cs_task s) of
        None \<Rightarrow> (s, Raise IntegrityError)
      | Some c \<Rightarrow>
          (let row = \<lparr>scr_name = name, scr_credential = credential, scr_source = st_source (cs_task s),
                      scr_status = status, scr_task_connection_result = c\<rparr>;
               d = (cs_db s)\<lparr>system_connection_results := system_connection_results (cs_db s) @ [row]\<rparr>
           in case increment_stats False (status = SUCCESS) (status = CONN_FAILED) (status = UNREACHABLE)
                     (cs_task s) d of
                Raise e \<Rightarrow> (s, Raise e)
              | Return (d', t') \<Rightarrow>
                  if name \<in> set (cs_remaining s)
                  then (s\<lparr>cs_db := d', cs_task := t', cs_remaining := remove1 name (cs_remaining s)\<rparr>, Return ())
                  else (s\<lparr>cs_task := t'\<rparr>, Raise KeyError)))"

section \<open>The event handler\<close>

definition permission_denied :: "pyval \<Rightarrow> bool res" where
  "permission_denied result_message =
     (if result_message = PNone then Return False
      else bind_res (as_str result_message) (\<lambda>s. Return (contains ''permission denied'' (py_lower s))))"

definition connect_on_ok :: "nat \<Rightarrow> string \<Rightarrow> pyval \<Rightarrow> connect_state \<Rightarrow> connect_state \<times> unit res" where
  "connect_on_ok credential host task_result s =
     (case bind_res (text_in ''rc'' task_result) (\<lambda>has_rc.
             if has_rc then bind_res (vitem task_result ''rc'') (\<lambda>rc. Return (is_zero rc)) else Return False) of
        Raise e \<Rightarrow> (s, Raise e)
      | Return ok \<Rightarrow> if ok then record_result host (Some credential) SUCCESS s else (s, Return ()))"

definition connect_on_unreachable :: "nat \<Rightarrow> string \<Rightarrow> pyval \<Rightarrow> connect_state \<Rightarrow> connect_state \<times> unit res" where
  "connect_on_unreachable credential host task_result s =
     (case bind_res (vget task_result ''msg'' (PStr ''No information given on unreachable warning.'')) permission_denied of
        Raise e \<Rightarrow> (s, Raise e)
      | Return denied \<Rightarrow> if denied then (s, Return ()) else record_result host (Some credential) UNREACHABLE s)"

definition connect_on_failed :: "pyval \<Rightarrow> connect_state \<Rightarrow> connect_state \<times> unit res" where
  "connect_on_failed task_result s =
     (case bind_res (vget task_result ''stderr'' (PStr ''No information given on failure.'')) permission_denied of
        Raise e \<Rightarrow> (s, Raise e)
      | Return _ \<Rightarrow> (s, Return ()))"

text \<open>An unexpected event is only logged.\<close>

definition connect_event :: "nat \<Rightarrow> pydict \<Rightarrow> connect_state \<Rightarrow> connect_state \<times> unit res" where
  "connect_event credential event_dict s =
     (let event_data = dgetn event_dict ''event_data''
      in if event_dict = [] then (s, Return ())
         else
           (case dgetn event_dict ''event'' of
              PNone \<Rightarrow> (s, Return ())
            | PStr event \<Rightarrow>
                if event = ''runner_on_start'' \<or> \<not> startswith event ''runner'' then (s, Return ())
                else
                  (case bind_res (vget event_data ''host'' PNone) (\<lambda>host.
                          bind_res (vget event_data ''res'' PNone) (\<lambda>res. Return (host, res))) of
                     Raise e \<Rightarrow> (s, Raise e)
                   | Return (PStr host, task_result) \<Rightarrow>
                       if task_result = PNone then (s, Return ())
                       else if event = ''runner_on_ok'' then connect_on_ok credential host task_result s
                       else if event = ''runner_on_unreachable'' then connect_on_unreachable credential host task_result s
                       else if event = ''runner_on_failed'' then connect_on_failed task_result s
                       else (s, Return ())
                   | Return _ \<Rightarrow> (s, Return ()))
            | _ \<Rightarrow> (s, Raise AttributeError)))"

text \<open>A handler called on one thing after the other, up to the first exception.\<close>

fun deliver :: "('e \<Rightarrow> 's \<Rightarrow> 's \<times> unit res) \<Rightarrow> 'e list \<Rightarrow> 's \<Rightarrow> 's \<times> unit res" where
  "deliver handler [] s = (s, Return ())"
| "deliver handler (ev # evs) s =
     (case handler ev s of
        (s', Return _) \<Rightarrow> deliver handler evs s'
      | (s', Raise e) \<Rightarrow> (s', Raise e))"

text \<open>A run with a handler: the state after it, and its final status or the text of its error.\<close>

definition run_playbook ::
  "ansible \<Rightarrow> run_call \<Rightarrow> (pydict \<Rightarrow> 's \<Rightarrow> 's \<times> unit res) \<Rightarrow> ('s \<Rightarrow> db) \<Rightarrow> 's \<Rightarrow> 's \<times> (string + string)"
where
  "run_playbook a call handler db_of s =
     (case ansible_run a call (db_of s) of
        Ran evs status \<Rightarrow>
          (case deliver handler evs s of
             (s', Return _) \<Rightarrow> (s', Inr status)
           | (s', Raise e) \<Rightarrow> (s', Inl (exn_text a e)))
      | Run_error evs m \<Rightarrow>
          (case deliver handler evs s of
             (s', Return _) \<Rightarrow> (s', Inl m)
           | (s', Raise e) \<Rightarrow> (s', Inl (exn_text a e))))"

text \<open>
  The contract of a handler: an invariant of the state every call keeps, and a relation of the states
  before and after it. Both then hold of a sequence of calls and, for a handler of events, of a whole
  run.
\<close>

locale step_handler =
  fixes handler :: "'e \<Rightarrow> 's \<Rightarrow> 's \<times> unit res"
    and ok :: "'s \<Rightarrow> bool"
    and rel :: "'s \<Rightarrow> 's \<Rightarrow> bool"
  assumes step_keeps: "ok s \<Longrightarrow> handler ev s = (s', Return u) \<Longrightarrow> ok s' \<and> rel s s'"
    and rel_refl: "rel s s"
    and rel_trans: "rel s s' \<Longrightarrow> rel s' s'' \<Longrightarrow> rel s s''"
begin

lemma deliver_keeps:
  "ok s \<Longrightarrow> deliver handler evs s = (s', Return u) \<Longrightarrow> ok s' \<and> rel s s'"
proof (induction evs arbitrary: s)
  case Nil
  then show ?case by (simp add: rel_refl)
next
  case (Cons ev evs)
  then obtain s1 w where s1: "handler ev s = (s1, Return w)" "deliver handler evs s1 = (s', Return u)"
    by (auto split: prod.splits res.splits)
  with Cons.prems(1) step_keeps have "ok s1" "rel s s1" by blast+
  with Cons.IH [OF _ s1(2)] show ?case by (auto intro: rel_trans)
qed

end

locale event_handler = step_handler handler ok rel
  for handler :: "pydict \<Rightarrow> 's \<Rightarrow> 's \<times> unit res" and ok rel
begin

lemma run_keeps:
  "ok s \<Longrightarrow> run_playbook a call handler db_of s = (s', Inr final) \<Longrightarrow> ok s' \<and> rel s s'"
  using deliver_keeps by (auto simp: run_playbook_def split: run_result.splits prod.splits res.splits)

end

section \<open>Connecting with the credentials of a source\<close>

datatype connect_outcome = Done "string option" status | Ansible_error string | Crashed exn

definition expected_statuses :: "string list" where
  "expected_statuses = [''successful'', ''unreachable'', ''failed'']"

definition playbook_stopped :: "string \<Rightarrow> string" where
  "playbook_stopped phase = ''NETWORK '' @ phase @ '': Playbook status has been reported as canceled.''"

definition playbook_error :: "string \<Rightarrow> string" where
  "playbook_error final_status =
     (if final_status = ''timeout'' then ''A timeout was reached while executing the Ansible playbook.''
      else ''An error occurred while executing the Ansible playbook. See logs for further details.'')"

definition connect_fail :: "string \<Rightarrow> string" where
  "connect_fail final_status =
     ''Unexpected ansible status '' @ final_status @ ''. Failing scan because there were no successful'' @
     '' system connections. Ansible error: '' @ playbook_error final_status"

fun connect_groups ::
  "ansible \<Rightarrow> nat \<Rightarrow> nat \<Rightarrow> pyval \<Rightarrow> string list \<Rightarrow> bool \<Rightarrow> connect_state \<Rightarrow> connect_state \<times> connect_outcome"
where
  "connect_groups a credential forks inventory [] any_successful s =
     (s, if any_successful then Done None COMPLETED else Done (Some ''No successful connections'') FAILED)"
| "connect_groups a credential forks inventory (g # gs) any_successful s =
     (case run_playbook a \<lparr>rc_playbook = ''connect'', rc_group = g, rc_forks = forks, rc_inventory = inventory\<rparr>
             (connect_event credential) cs_db s of
        (s', Inl m) \<Rightarrow> (s', Ansible_error m)
      | (s', Inr final_status) \<Rightarrow>
          (let scanned = st_systems_scanned (cs_task s')
           in if final_status = ''canceled'' then (s', Done (Some (playbook_stopped ''CONNECT'')) CANCELED)
              else if final_status \<notin> set expected_statuses \<and> scanned = 0
              then (s', Done (Some (connect_fail final_status)) FAILED)
              else connect_groups a credential forks inventory gs (any_successful \<or> scanned \<ge> 1) s'))"

definition connect :: "ansible \<Rightarrow> nat \<Rightarrow> pyval \<Rightarrow> nat \<Rightarrow> connect_state \<Rightarrow> connect_state \<times> connect_outcome" where
  "connect a forks connection_port credential s =
     (case construct_inventory a (map Host (cs_remaining s)) connection_port forks
             (Some (credential_data a credential)) None of
        Raise e \<Rightarrow> (s, Crashed e)
      | Return (group_names, inventory) \<Rightarrow> connect_groups a credential forks inventory group_names False s)"

definition credential_failed :: "ansible \<Rightarrow> nat \<Rightarrow> string \<Rightarrow> connect_state \<Rightarrow> string" where
  "credential_failed a credential err s =
     ''Connect scan task failed with credential '' @ credential_name a credential @ ''. Error: '' @ err @
     '' Hosts: '' @ py_join '', '' (cs_remaining s)"

text \<open>The loop over the credentials: \<open>None\<close> when it ends without a return.\<close>

fun try_credentials ::
  "ansible \<Rightarrow> nat \<Rightarrow> pyval \<Rightarrow> nat list \<Rightarrow> connect_state \<Rightarrow> connect_state \<times> connect_outcome option"
where
  "try_credentials a forks connection_port [] s = (s, None)"
| "try_credentials a forks connection_port (c # cs) s =
     (if cs_remaining s = [] then (s, None)
      else
        (case connect a forks connection_port c s of
           (s', Done m st) \<Rightarrow>
             if st \<noteq> COMPLETED then (s', Some (Done m st)) else try_credentials a forks connection_port cs s'
         | (s', Ansible_error m) \<Rightarrow> (s', Some (Done (Some (credential_failed a c m s')) FAILED))
         | (s', Crashed e) \<Rightarrow> (s', Some (Crashed e))))"

definition record_failures :: "string list \<Rightarrow> connect_state \<Rightarrow> connect_state \<times> unit res" where
  "record_failures = deliver (\<lambda>host. record_result host None CONN_FAILED)"

definition run_with_result_store ::
  "ansible \<Rightarrow> nat \<Rightarrow> pyval \<Rightarrow> nat list \<Rightarrow> connect_state \<Rightarrow> connect_state \<times> connect_outcome"
where
  "run_with_result_store a forks connection_port credentials s =
     (case try_credentials a forks connection_port credentials s of
        (s', Some out) \<Rightarrow> (s', out)
      | (s', None) \<Rightarrow>
          (case record_failures (cs_remaining s') s' of
             (s'', Return _) \<Rightarrow> (s'', Done None COMPLETED)
           | (s'', Raise e) \<Rightarrow> (s'', Crashed e)))"

definition check_connection :: "ansible \<Rightarrow> nat \<Rightarrow> scantask \<Rightarrow> db \<Rightarrow> db \<times> scantask \<times> connect_outcome" where
  "check_connection a forks t d =
     (case Option.bind (st_source t) (\<lambda>i. get_source i d) of
        None \<Rightarrow> (d, t, Crashed AttributeError)
      | Some src \<Rightarrow>
          (case init_store a src t d of
             Raise e \<Rightarrow> (d, t, Crashed e)
           | Return s \<Rightarrow>
               (case run_with_result_store a forks (case so_port src of Some p \<Rightarrow> PInt (int p) | None \<Rightarrow> PNone)
                       (so_credentials src) s of
                  (s', out) \<Rightarrow> (cs_db s', cs_task s', out))))"

section \<open>Lemmas\<close>

definition conn_rows :: "nat \<Rightarrow> db \<Rightarrow> system_connection_result list" where
  "conn_rows c d = filter (\<lambda>r. scr_task_connection_result r = c) (system_connection_results d)"

definition with_status :: "conn_status \<Rightarrow> system_connection_result list \<Rightarrow> nat" where
  "with_status st rows = length (filter (\<lambda>r. scr_status r = st) rows)"

text \<open>Every host has one result or is waited for, and the counters of the task count the results.\<close>

definition connect_ok :: "string set \<Rightarrow> nat \<Rightarrow> connect_state \<Rightarrow> bool" where
  "connect_ok H c s \<longleftrightarrow>
     (let t = cs_task s; rows = conn_rows c (cs_db s)
      in st_connection_result t = Some c \<and> get_task (st_id t) (cs_db s) = Some t \<and>
         distinct (map scr_name rows @ cs_remaining s) \<and> set (map scr_name rows @ cs_remaining s) = H \<and>
         st_systems_count t = card H \<and> st_systems_scanned t = with_status SUCCESS rows \<and>
         st_systems_failed t = with_status CONN_FAILED rows \<and>
         st_systems_unreachable t = with_status UNREACHABLE rows)"

text \<open>Results are only added, those in between by one credential.\<close>

definition grows :: "nat option \<Rightarrow> nat \<Rightarrow> connect_state \<Rightarrow> connect_state \<Rightarrow> bool" where
  "grows cr c s s' \<longleftrightarrow>
     (\<exists>new. conn_rows c (cs_db s') = conn_rows c (cs_db s) @ new \<and> list_all (\<lambda>r. scr_credential r = cr) new)"

lemma grows_refl [simp]: "grows cr c s s"
  by (simp add: grows_def)

lemma grows_trans: "grows cr c s s' \<Longrightarrow> grows cr c s' s'' \<Longrightarrow> grows cr c s s''"
  by (auto simp: grows_def)

lemma increment_stats_frame:
  "increment_stats c s f u t d = Return (d', t') \<Longrightarrow>
     system_connection_results d' = system_connection_results d \<and> scanjobs d' = scanjobs d"
  by (auto simp: increment_stats_def Let_def split: if_splits option.splits)

lemma record_result_row:
  assumes ok: "connect_ok H c s" and n: "n \<in> set (cs_remaining s)"
  obtains s' row where "record_result n cr st s = (s', Return ())" and "connect_ok H c s'"
    and "cs_remaining s' = remove1 n (cs_remaining s)" and "conn_rows c (cs_db s') = conn_rows c (cs_db s) @ [row]"
    and "scr_credential row = cr" and "scr_status row = st"
proof -
  let ?t = "cs_task s"
  let ?row = "\<lparr>scr_name = n, scr_credential = cr, scr_source = st_source ?t, scr_status = st, scr_task_connection_result = c\<rparr>"
  let ?d = "(cs_db s)\<lparr>system_connection_results := system_connection_results (cs_db s) @ [?row]\<rparr>"
  let ?b = "bump_row False (st = SUCCESS) (st = CONN_FAILED) (st = UNREACHABLE) ?t"
  from ok have c: "st_connection_result ?t = Some c" and g: "get_task (st_id ?t) (cs_db s) = Some ?t"
    by (simp_all add: connect_ok_def Let_def)
  from g have "get_task (st_id ?t) ?d = Some ?t" by (simp add: get_task_def)
  from increment_stats_row [OF this, of False "st = SUCCESS" "st = CONN_FAILED" "st = UNREACHABLE" "st_id ?t"]
  obtain d' where d': "increment_stats False (st = SUCCESS) (st = CONN_FAILED) (st = UNREACHABLE) ?t ?d = Return (d', ?b)"
    and g': "get_task (st_id ?t) d' = Some ?b" by (cases st) auto
  let ?s = "s\<lparr>cs_db := d', cs_task := ?b, cs_remaining := remove1 n (cs_remaining s)\<rparr>"
  from increment_stats_frame [OF d'] have rows: "conn_rows c d' = conn_rows c (cs_db s) @ [?row]"
    by (simp add: conn_rows_def)
  have rr: "record_result n cr st s = (?s, Return ())"
    using c d' n by (simp add: record_result_def Let_def)
  have "connect_ok H c ?s"
    using ok n c g' rows
    by (auto simp: connect_ok_def Let_def bump_row_def bump_def with_status_def distinct_remove1 set_remove1_eq)
  then show thesis using rr rows by (intro that [of ?s ?row]) simp_all
qed

lemma record_result_Return:
  assumes "connect_ok H c s" and "record_result n cr st s = (s', Return u)"
  shows "connect_ok H c s' \<and> grows cr c s s'"
proof -
  have "n \<in> set (cs_remaining s)"
    using assms by (auto simp: record_result_def Let_def split: option.splits res.splits if_splits prod.splits)
  from record_result_row [OF assms(1) this, of cr st] obtain s1 row where
    "record_result n cr st s = (s1, Return ())" "connect_ok H c s1"
    "conn_rows c (cs_db s1) = conn_rows c (cs_db s) @ [row]" "scr_credential row = cr"
    by blast
  with assms(2) show ?thesis by (simp add: grows_def)
qed

lemma connect_event_cases:
  "connect_event cr ev s = (s', Return u) \<Longrightarrow> s' = s \<or> (\<exists>h st. record_result h (Some cr) st s = (s', Return ()))"
  unfolding connect_event_def connect_on_ok_def connect_on_unreachable_def connect_on_failed_def Let_def
  by (auto split: if_splits pyval.splits res.splits prod.splits)

lemma connect_event_ok:
  "connect_ok H c s \<Longrightarrow> connect_event cr ev s = (s', Return u) \<Longrightarrow> connect_ok H c s' \<and> grows (Some cr) c s s'"
  using connect_event_cases [of cr ev s s' u] record_result_Return [of H c s] by auto

interpretation connecting: event_handler "connect_event cr" "connect_ok H c" "grows (Some cr) c" for cr H c
  by unfold_locales (auto dest: connect_event_ok intro: grows_trans)

lemma scanned_grows:
  assumes "connect_ok H c s" and "connect_ok H c s'" and "grows cr c s s'"
  shows "st_systems_scanned (cs_task s) \<le> st_systems_scanned (cs_task s')"
  using assms by (auto simp: connect_ok_def Let_def grows_def with_status_def)

lemma connect_groups_ok:
  assumes "connect_ok H c s" and "connect_groups a cr forks iv gs b s = (s', Done m st)"
  shows "connect_ok H c s' \<and> grows (Some cr) c s s' \<and>
    (st = COMPLETED \<longrightarrow> b \<or> st_systems_scanned (cs_task s') \<ge> 1)"
  using assms
proof (induction gs arbitrary: b s)
  case Nil
  then show ?case by (auto split: if_splits)
next
  case (Cons g gs)
  let ?call = "\<lparr>rc_playbook = ''connect'', rc_group = g, rc_forks = forks, rc_inventory = iv\<rparr>"
  obtain s1 final where r: "run_playbook a ?call (connect_event cr) cs_db s = (s1, Inr final)"
    using Cons.prems(2) by (auto split: prod.splits sum.splits)
  with connecting.run_keeps [OF Cons.prems(1)] have s1: "connect_ok H c s1" "grows (Some cr) c s s1" by blast+
  let ?b = "b \<or> st_systems_scanned (cs_task s1) \<ge> 1"
  consider "s' = s1" "st \<noteq> COMPLETED" | "connect_groups a cr forks iv gs ?b s1 = (s', Done m st)"
    using Cons.prems(2) r by (auto simp: Let_def split: if_splits)
  then show ?case
  proof cases
    case 1
    with s1 show ?thesis by simp
  next
    case 2
    from Cons.IH [OF s1(1) 2] have IH: "connect_ok H c s'" "grows (Some cr) c s1 s'"
      "st = COMPLETED \<longrightarrow> ?b \<or> st_systems_scanned (cs_task s') \<ge> 1" by blast+
    with scanned_grows [OF s1(1) IH(1,2)] s1(2) show ?thesis by (auto intro: grows_trans)
  qed
qed

lemma connect_step_ok:
  assumes "connect_ok H c s" and "connect a forks port cr s = (s', Done m st)"
  shows "connect_ok H c s' \<and> grows (Some cr) c s s' \<and> (st = COMPLETED \<longrightarrow> st_systems_scanned (cs_task s') \<ge> 1)"
proof -
  from assms(2) obtain gs iv where "connect_groups a cr forks iv gs False s = (s', Done m st)"
    by (auto simp: connect_def split: res.splits)
  from connect_groups_ok [OF assms(1) this] show ?thesis by simp
qed

definition extends :: "nat \<Rightarrow> connect_state \<Rightarrow> connect_state \<Rightarrow> bool" where
  "extends c s s' \<longleftrightarrow> (\<exists>new. conn_rows c (cs_db s') = conn_rows c (cs_db s) @ new)"

lemma grows_extends: "grows cr c s s' \<Longrightarrow> extends c s s'"
  by (auto simp: grows_def extends_def)

lemma extends_refl [simp]: "extends c s s"
  by (simp add: extends_def)

lemma extends_trans: "extends c s s' \<Longrightarrow> extends c s' s'' \<Longrightarrow> extends c s s''"
  by (auto simp: extends_def)

lemma try_credentials_ok:
  "connect_ok H c s \<Longrightarrow> try_credentials a forks port crs s = (s', None) \<Longrightarrow> connect_ok H c s' \<and> extends c s s'"
proof (induction crs arbitrary: s)
  case Nil
  then show ?case by simp
next
  case (Cons cr crs)
  show ?case
  proof (cases "cs_remaining s = []")
    case True
    with Cons.prems show ?thesis by simp
  next
    case False
    with Cons.prems(2) obtain s1 m where s1: "connect a forks port cr s = (s1, Done m COMPLETED)"
      "try_credentials a forks port crs s1 = (s', None)"
      by (auto split: prod.splits connect_outcome.splits if_splits)
    from connect_step_ok [OF Cons.prems(1) s1(1)] have "connect_ok H c s1" "extends c s s1"
      by (auto intro: grows_extends)
    with Cons.IH [OF _ s1(2)] show ?thesis by (auto intro: extends_trans)
  qed
qed

lemma record_failures_ok:
  "connect_ok H c s \<Longrightarrow> cs_remaining s = hs \<Longrightarrow>
     \<exists>s'. record_failures hs s = (s', Return ()) \<and> connect_ok H c s' \<and> extends c s s' \<and> cs_remaining s' = []"
proof (induction hs arbitrary: s)
  case Nil
  then show ?case by (simp add: record_failures_def)
next
  case (Cons h hs)
  then have "h \<in> set (cs_remaining s)" by simp
  from record_result_row [OF Cons.prems(1) this, of None CONN_FAILED] obtain s1 row where
    s1: "record_result h None CONN_FAILED s = (s1, Return ())" "connect_ok H c s1"
      "cs_remaining s1 = remove1 h (cs_remaining s)" "conn_rows c (cs_db s1) = conn_rows c (cs_db s) @ [row]"
    by blast
  from s1(3) Cons.prems(2) have "cs_remaining s1 = hs" by simp
  from Cons.IH [OF s1(2) this] obtain s' where "record_failures hs s1 = (s', Return ())" "connect_ok H c s'"
    "extends c s1 s'" "cs_remaining s' = []"
    by (elim exE conjE) (rule that)
  moreover have "extends c s s1" using s1(4) by (auto simp: extends_def)
  ultimately show ?case using s1(1) by (auto simp: record_failures_def intro: extends_trans)
qed

lemma run_with_result_store_ok:
  assumes "connect_ok H c s" and "run_with_result_store a forks port crs s = (s', Done m COMPLETED)"
  shows "connect_ok H c s' \<and> cs_remaining s' = [] \<and>
    (\<exists>s1. try_credentials a forks port crs s = (s1, None) \<and> extends c s1 s')"
proof -
  have never: "try_credentials a forks port crs s \<noteq> (s', Some (Done m COMPLETED))"
    by (induction crs arbitrary: s) (auto split: prod.splits connect_outcome.splits if_splits)
  from never assms(2) obtain s1 where s1: "try_credentials a forks port crs s = (s1, None)"
    by (auto simp: run_with_result_store_def split: prod.splits option.splits)
  with try_credentials_ok [OF assms(1)] have "connect_ok H c s1" by blast
  from record_failures_ok [OF this refl] obtain s2 where
    "record_failures (cs_remaining s1) s1 = (s2, Return ())" "connect_ok H c s2" "extends c s1 s2" "cs_remaining s2 = []"
    by (elim exE conjE) (rule that)
  with s1 assms(2) show ?thesis by (auto simp: run_with_result_store_def)
qed

lemma set_wanted_hosts:
  "set (wanted_hosts a src) =
     (\<Union>p \<in> set (so_hosts src). set (expand_hostpattern a p)) - (\<Union>p \<in> set (so_exclude_hosts src). set (expand_hostpattern a p))"
  by (auto simp: wanted_hosts_def Let_def)

lemma distinct_wanted_hosts: "distinct (wanted_hosts a src)"
  by (simp add: wanted_hosts_def Let_def)

lemma update_stats_all:
  assumes "get_task (st_id t) d = Some t0"
  shows "\<exists>d'. update_stats (Some n) (Some 0) (Some 0) (Some 0) t d =
      Return (d', t0\<lparr>st_systems_count := n, st_systems_scanned := 0, st_systems_failed := 0, st_systems_unreachable := 0\<rparr>)
    \<and> get_task (st_id t) d' = Some (t0\<lparr>st_systems_count := n, st_systems_scanned := 0, st_systems_failed := 0, st_systems_unreachable := 0\<rparr>)
    \<and> system_connection_results d' = system_connection_results d \<and> scanjobs d' = scanjobs d"
proof -
  have "st_id t0 = st_id t" using assms by (rule tasks.get_key)
  then show ?thesis using assms
    by (auto simp: update_stats_def set_if_new_def Let_def get_task_save_task) (simp_all add: save_task_def)
qed

lemma init_store_ok:
  assumes "get_task (st_id t) d = Some t0" and "st_connection_result t0 = Some c" and "conn_rows c d = []"
    and "init_store a src t d = Return s"
  shows "connect_ok (set (wanted_hosts a src)) c s \<and> conn_rows c (cs_db s) = [] \<and> cs_remaining s = wanted_hosts a src"
proof -
  let ?hosts = "wanted_hosts a src"
  let ?t = "t0\<lparr>st_systems_count := length ?hosts, st_systems_scanned := 0, st_systems_failed := 0, st_systems_unreachable := 0\<rparr>"
  from update_stats_all [OF assms(1), of "length ?hosts"] obtain d' where
    u: "update_stats (Some (length ?hosts)) (Some 0) (Some 0) (Some 0) t d = Return (d', ?t)"
    and g: "get_task (st_id t) d' = Some ?t" and r: "system_connection_results d' = system_connection_results d"
    by (elim exE conjE) (rule that)
  have i: "st_id t0 = st_id t" using assms(1) by (rule tasks.get_key)
  from r assms(3) have rows: "conn_rows c d' = []" by (simp add: conn_rows_def)
  from u assms(4) have "s = \<lparr>cs_db = d', cs_task = ?t, cs_remaining = ?hosts\<rparr>" by (simp add: init_store_def Let_def)
  then show ?thesis
    using g i rows assms(2) distinct_card [OF distinct_wanted_hosts [of a src]] distinct_wanted_hosts [of a src]
    by (simp add: connect_ok_def with_status_def)
qed

section \<open>Properties\<close>

text \<open>
  C11. If the connection phase of a network scan completes, every host of the source has exactly one
  connection result: the hosts are those the patterns expand to without the excluded ones, no host is
  recorded twice or forgotten, whatever events Ansible delivered in whatever order, and the counters of
  the task add up to the number of hosts.
\<close>

theorem every_host_has_one_result:
  assumes "get_task (st_id t) d = Some t0" and "st_connection_result t0 = Some c" and "conn_rows c d = []"
    and "st_source t = Some i" and "get_source i d = Some src"
    and "check_connection a forks t d = (d', t', Done m COMPLETED)"
  shows "distinct (map scr_name (conn_rows c d')) \<and> set (map scr_name (conn_rows c d')) = set (wanted_hosts a src) \<and>
    st_systems_count t' = card (set (wanted_hosts a src)) \<and>
    st_systems_scanned t' + st_systems_failed t' + st_systems_unreachable t' = st_systems_count t' \<and>
    get_task (st_id t') d' = Some t'"
proof -
  let ?port = "case so_port src of Some p \<Rightarrow> PInt (int p) | None \<Rightarrow> PNone"
  from assms(4-6) obtain s s' where s: "init_store a src t d = Return s"
    and run: "run_with_result_store a forks ?port (so_credentials src) s = (s', Done m COMPLETED)"
    and eq: "d' = cs_db s'" "t' = cs_task s'"
    by (auto simp: check_connection_def split: res.splits prod.splits)
  from init_store_ok [OF assms(1-3) s] have "connect_ok (set (wanted_hosts a src)) c s" by blast
  from run_with_result_store_ok [OF this run]
  have ok: "connect_ok (set (wanted_hosts a src)) c s'" "cs_remaining s' = []" by blast+
  have total: "with_status SUCCESS rows + with_status CONN_FAILED rows + with_status UNREACHABLE rows = length rows" for rows
    by (induction rows) (auto simp: with_status_def split: if_splits, metis conn_status.exhaust)
  from ok have names: "distinct (map scr_name (conn_rows c d'))" "set (map scr_name (conn_rows c d')) = set (wanted_hosts a src)"
    by (simp_all add: connect_ok_def Let_def eq)
  from distinct_card [OF names(1)] names(2) have "length (conn_rows c d') = card (set (wanted_hosts a src))" by simp
  with names ok total [of "conn_rows c d'"] show ?thesis by (simp add: connect_ok_def Let_def eq)
qed

text \<open>
  C34. The first credential decides: a connection phase with hosts to connect to completes only if the
  first credential of the source connected to at least one of them. A source whose first credential fits
  no host fails without trying the others.
\<close>

theorem first_credential_must_connect:
  assumes "get_task (st_id t) d = Some t0" and "st_connection_result t0 = Some c" and "conn_rows c d = []"
    and "st_source t = Some i" and "get_source i d = Some src" and "so_credentials src = cr # crs"
    and "wanted_hosts a src \<noteq> []" and "check_connection a forks t d = (d', t', Done m COMPLETED)"
  shows "\<exists>r \<in> set (conn_rows c d'). scr_credential r = Some cr \<and> scr_status r = SUCCESS"
proof -
  let ?port = "case so_port src of Some p \<Rightarrow> PInt (int p) | None \<Rightarrow> PNone"
  from assms(4-8) obtain s s' where s: "init_store a src t d = Return s"
    and run: "run_with_result_store a forks ?port (cr # crs) s = (s', Done m COMPLETED)" and eq: "d' = cs_db s'"
    by (auto simp: check_connection_def split: res.splits prod.splits)
  from init_store_ok [OF assms(1-3) s] have ok: "connect_ok (set (wanted_hosts a src)) c s"
    "conn_rows c (cs_db s) = []" "cs_remaining s = wanted_hosts a src" by blast+
  from run_with_result_store_ok [OF ok(1) run] obtain s2 where
    s2: "try_credentials a forks ?port (cr # crs) s = (s2, None)" "extends c s2 s'" by blast
  with assms(7) ok(3) obtain s1 m1 where s1: "connect a forks ?port cr s = (s1, Done m1 COMPLETED)"
    "try_credentials a forks ?port crs s1 = (s2, None)"
    by (auto split: prod.splits connect_outcome.splits if_splits)
  from connect_step_ok [OF ok(1) s1(1)] have k: "connect_ok (set (wanted_hosts a src)) c s1" "grows (Some cr) c s s1"
    "st_systems_scanned (cs_task s1) \<ge> 1" by blast+
  then have "with_status SUCCESS (conn_rows c (cs_db s1)) \<ge> 1" by (simp add: connect_ok_def Let_def)
  then have "filter (\<lambda>r. scr_status r = SUCCESS) (conn_rows c (cs_db s1)) \<noteq> []" by (auto simp: with_status_def)
  then obtain r where r: "r \<in> set (conn_rows c (cs_db s1))" "scr_status r = SUCCESS"
    by (auto simp: filter_empty_conv)
  moreover have "scr_credential r = Some cr" using k(2) ok(2) r(1) by (auto simp: grows_def list_all_iff)
  moreover have "extends c s1 s'" using try_credentials_ok [OF k(1) s1(2)] s2(2) by (auto intro: extends_trans)
  then have "r \<in> set (conn_rows c d')" using r(1) by (auto simp: extends_def eq)
  ultimately show ?thesis by blast
qed

definition sample_connect_task :: scantask where
  "sample_connect_task =
     (new_task 4 1 SCAN_TYPE_INSPECT 1 (Some 2) (Some 9) [])\<lparr>st_status := RUNNING\<rparr>"

definition sample_source :: source where
  "sample_source =
     \<lparr>so_id = 2, so_name = ''lab'', so_source_type = ''network'', so_port = Some 22, so_credentials = [5, 6],
      so_hosts = [''web'', ''db'', ''old''], so_exclude_hosts = [''old''], so_most_recent_connect_scan = None\<rparr>"

definition sample_connect_db :: db where
  "sample_connect_db = empty_db\<lparr>scantasks := [sample_connect_task], sources := [sample_source]\<rparr>"

text \<open>The first credential connects to one host and is refused by the other; the second is refused, too.\<close>

definition sample_ansible :: ansible where
  "sample_ansible =
     \<lparr>detect_range = (\<lambda>_. False), expand_hostname_range = (\<lambda>_. None), parse_address = Some,
      decrypt_data_as_unicode = id,
      ansible_run = (\<lambda>call d.
        Ran (if system_connection_results d = []
             then [[(''event'', PStr ''runner_on_ok''),
                    (''event_data'', PDict [(''host'', PStr ''web''), (''res'', PDict [(''rc'', PInt 0)])])],
                   [(''event'', PStr ''runner_on_unreachable''),
                    (''event_data'', PDict [(''host'', PStr ''db''), (''res'', PDict [(''msg'', PStr ''Permission denied'')])])]]
             else []) ''failed''),
      credential_name = show_nat, credential_data = (\<lambda>_. []), exn_text = (\<lambda>_. [])\<rparr>"

definition sample_connected :: "db \<times> scantask \<times> connect_outcome" where
  "sample_connected = check_connection sample_ansible 50 sample_connect_task sample_connect_db"

lemma sample_connected_done: "snd (snd sample_connected) = Done None COMPLETED"
  by code_simp

lemma sample_connected_db: "map (\<lambda>r. (scr_name r, scr_status r)) (conn_rows 9 (fst sample_connected)) = [(''web'', SUCCESS), (''db'', CONN_FAILED)]"
  by code_simp

lemma sample_connect_rows:
  "get_task (st_id sample_connect_task) sample_connect_db = Some sample_connect_task"
  "st_connection_result sample_connect_task = Some 9" "conn_rows 9 sample_connect_db = []"
  "st_source sample_connect_task = Some 2" "get_source 2 sample_connect_db = Some sample_source"
  "set (wanted_hosts sample_ansible sample_source) = {''web'', ''db''}"
  by code_simp+

lemma sample_connected_eq:
  "check_connection sample_ansible 50 sample_connect_task sample_connect_db =
     (fst sample_connected, fst (snd sample_connected), Done None COMPLETED)"
  using sample_connected_done by (cases sample_connected) (auto simp: sample_connected_def)

theorem every_host_has_one_result_witness:
  "distinct (map scr_name (conn_rows 9 (fst sample_connected))) \<and>
   set (map scr_name (conn_rows 9 (fst sample_connected))) = {''web'', ''db''} \<and>
   st_systems_scanned (fst (snd sample_connected)) + st_systems_failed (fst (snd sample_connected)) +
     st_systems_unreachable (fst (snd sample_connected)) = 2"
  using every_host_has_one_result [OF sample_connect_rows(1-5) sample_connected_eq] sample_connect_rows(6) by simp

theorem first_credential_must_connect_witness:
  "list_ex (\<lambda>r. scr_credential r = Some 5 \<and> scr_status r = SUCCESS) (conn_rows 9 (fst sample_connected))"
proof -
  have cr: "so_credentials sample_source = 5 # [6]" by (simp add: sample_source_def)
  have hosts: "wanted_hosts sample_ansible sample_source \<noteq> []"
  proof
    assume "wanted_hosts sample_ansible sample_source = []"
    with sample_connect_rows(6) show False by (metis insert_not_empty list.set(1))
  qed
  note first_credential_must_connect [OF sample_connect_rows(1-5) cr hosts sample_connected_eq]
  then show ?thesis by (simp only: list_ex_iff)
qed

section \<open>Inventories\<close>

lemma chunks_concat: "n \<noteq> 0 \<Longrightarrow> concat (chunks n xs) = xs"
proof (induction n xs rule: chunks.induct)
  case (1 n xs)
  then show ?case by (subst chunks.simps) simp
qed

lemma chunks_size: "g \<in> set (chunks n xs) \<Longrightarrow> g \<noteq> [] \<and> length g \<le> n"
proof (induction n xs rule: chunks.induct)
  case (1 n xs)
  then show ?case by (subst (asm) chunks.simps) (auto split: if_splits)
qed

lemma group_name_inject: "group_name i = group_name j \<Longrightarrow> i = j"
proof -
  assume "group_name i = group_name j"
  then have "parse_nat (show_nat i) = parse_nat (show_nat j)" by (simp only: group_name_def same_append_eq)
  then show ?thesis by simp
qed

lemma host_vars_name [simp]: "fst (get_host_vars a h) = host_name h"
  by (cases h) simp_all

lemma hosts_dict_keys:
  "distinct (map fst d @ map host_name hs) \<Longrightarrow>
     map fst (fold (\<lambda>host d. case get_host_vars a host of (h, v) \<Rightarrow> AList.update h (PDict v) d) hs d) = map fst d @ map host_name hs"
proof (induction hs arbitrary: d)
  case Nil
  then show ?case by simp
next
  case (Cons h hs)
  obtain v where v: "get_host_vars a h = (host_name h, v)" by (metis host_vars_name prod.collapse)
  have "map fst (AList.update (host_name h) (PDict v) d) = map fst d @ [host_name h]"
    using Cons.prems by (simp add: update_keys)
  with Cons.IH [of "AList.update (host_name h) (PDict v) d"] Cons.prems v show ?case by simp
qed

lemma distinct_part: "distinct (concat xss) \<Longrightarrow> xs \<in> set xss \<Longrightarrow> distinct xs"
  by (induction xss) auto

text \<open>The names of the hosts of each group of an inventory.\<close>

definition inventory_hosts :: "pyval \<Rightarrow> string list list res" where
  "inventory_hosts inventory =
     bind_res (vitem inventory ''all'') (\<lambda>al.
     bind_res (vitem al ''children'') (\<lambda>children.
     bind_res (vvalues children) (\<lambda>groups.
       map_res (\<lambda>g. bind_res (vitem g ''hosts'') (\<lambda>hosts. case hosts of PDict d \<Rightarrow> Return (map fst d) | _ \<Rightarrow> Raise TypeError)) groups)))"

text \<open>
  C16. An inventory covers the hosts exactly: its groups, each with a name of its own, at least one host and
  no more hosts than may be handled at once, list every host once and in the given order.
\<close>

theorem inventory_partitions_hosts:
  assumes "distinct (map host_name hosts)" and "n \<noteq> 0"
  shows "\<exists>names inventory groups. construct_inventory a hosts port n credential None = Return (names, inventory) \<and>
    inventory_hosts inventory = Return groups \<and> concat groups = map host_name hosts \<and>
    list_all (\<lambda>g. g \<noteq> [] \<and> length g \<le> n) groups \<and> length names = length groups \<and> distinct names"
proof -
  let ?gs = "chunks n hosts"
  let ?child = "\<lambda>(index, g). (group_name index, PDict [(''hosts'', PDict (format_hosts_dict a g))])"
  let ?children = "map ?child (enumerate 0 ?gs)"
  let ?inventory = "PDict [(''all'', PDict [(''children'', PDict ?children), (''vars'', PDict (construct_vars a port credential))])]"
  have inv: "construct_inventory a hosts port n credential None = Return (map fst ?children, ?inventory)"
    using assms(2) by (simp add: construct_inventory_def exclude_from_def Let_def)
  have whole: "concat (map (map host_name) ?gs) = map host_name hosts"
    using chunks_concat [OF assms(2), of hosts] by (metis map_concat)
  have "distinct (map host_name g)" if "g \<in> set ?gs" for g
    by (rule distinct_part [of "map (map host_name) ?gs"]) (use that assms(1) whole in auto)
  then have keys: "map fst (format_hosts_dict a g) = map host_name g" if "g \<in> set ?gs" for g
    using that hosts_dict_keys [of "[]" g a] by (simp add: format_hosts_dict_def)
  have "inventory_hosts ?inventory = Return (map (map host_name) ?gs)"
  proof -
    have "map_res (\<lambda>g. bind_res (vitem g ''hosts'') (\<lambda>hosts. case hosts of PDict d \<Rightarrow> Return (map fst d) | _ \<Rightarrow> Raise TypeError))
        (map snd (map ?child (enumerate k gs))) = Return (map (map host_name) gs)" if "set gs \<subseteq> set ?gs" for k gs
      using that by (induction gs arbitrary: k) (simp_all add: ditem_def keys)
    then show ?thesis by (simp add: inventory_hosts_def ditem_def)
  qed
  moreover note whole
  moreover have "list_all (\<lambda>g. g \<noteq> [] \<and> length g \<le> n) (map (map host_name) ?gs)"
    using chunks_size [of _ n hosts] by (auto simp: list_all_iff)
  moreover have names: "map fst ?children = map group_name [0..<length ?gs]"
    by (rule nth_equalityI) (simp_all add: nth_enumerate_eq)
  have "distinct (map fst ?children)" unfolding names
    by (simp add: distinct_map inj_on_def group_name_inject)
  moreover have "length (map fst ?children) = length (map (map host_name) ?gs)" by simp
  ultimately show ?thesis using inv by blast
qed

section \<open>Networks\<close>

lemma network_base_bound: "p \<le> 32 \<Longrightarrow> n < 2 ^ 32 \<Longrightarrow> network_base 32 p n + 2 ^ (32 - p) \<le> 2 ^ 32"
proof -
  assume p: "p \<le> 32" and n: "n < 2 ^ 32"
  let ?k = "2 ^ (32 - p) :: nat"
  have e: "(2::nat) ^ 32 = 2 ^ p * ?k" using p by (simp flip: power_add)
  have "n div ?k < 2 ^ p" using n unfolding e by (simp add: div_less_iff_less_mult)
  then have "(n div ?k + 1) * ?k \<le> 2 ^ p * ?k" by (intro mult_le_mono1) simp
  moreover have "network_base 32 p n = n div ?k * ?k" by (simp add: network_base_def minus_mod_eq_div_mult)
  ultimately show ?thesis unfolding e by simp
qed

lemma make_netmask4_prefix: "p \<le> 32 \<Longrightarrow> make_netmask4 (show_nat p) = Some p"
proof -
  assume p: "p \<le> 32"
  have "\<not> list_ex (\<lambda>c. digit_val c = None) (show_nat p)"
    using show_nat_digits [of _ p] by (fastforce simp: list_ex_iff)
  with p show ?thesis by (simp add: make_netmask4_def prefix_from_prefix_string_def digits_acc_show_nat)
qed

lemma ipv4_slash: "CHR ''/'' \<notin> set (ipv4_text n)"
  using show_nat_no_dot(2) by (auto simp: ipv4_text_def)

lemma network_hosts_ipv4:
  assumes "n < 2 ^ 32" and "p \<le> 32"
  shows "network_hosts (ipv4_text n @ ''/'' @ show_nat p) = Some (hosts4 p n)"
proof -
  have "split_on ''/'' (ipv4_text n @ CHR ''/'' # show_nat p) = [ipv4_text n, show_nat p]"
    using split_on_first [OF ipv4_slash [of n], of "show_nat p"] split_on_absent [OF show_nat_no_dot(2) [of p]] by simp
  then show ?thesis
    using assms by (simp add: network_hosts_def IPv4Address_def ipv4_no_slash ipv4_int_text make_netmask4_prefix)
qed



theorem inventory_partitions_hosts_witness:
  "\<exists>names inventory groups.
     construct_inventory sample_ansible (map Host [''a'', ''b'', ''c'']) (PInt 22) 2 None None = Return (names, inventory) \<and>
     inventory_hosts inventory = Return groups \<and> concat groups = [''a'', ''b'', ''c''] \<and>
     list_all (\<lambda>g. g \<noteq> [] \<and> length g \<le> 2) groups \<and> distinct names"
proof -
  have d: "distinct (map host_name (map Host [''a'', ''b'', ''c'']))" by simp
  have n: "(2::nat) \<noteq> 0" by simp
  from inventory_partitions_hosts [OF d n, of sample_ansible "PInt 22" None] obtain names inventory groups where
    1: "construct_inventory sample_ansible (map Host [''a'', ''b'', ''c'']) (PInt 22) 2 None None = Return (names, inventory)"
    and 2: "inventory_hosts inventory = Return groups" and 3: "concat groups = map host_name (map Host [''a'', ''b'', ''c''])"
    and 4: "list_all (\<lambda>g. g \<noteq> [] \<and> length g \<le> 2) groups" and 5: "distinct names"
    by (elim exE conjE) (rule that)
  from 3 have 3: "concat groups = [''a'', ''b'', ''c'']" by simp
  show ?thesis by (intro exI conjI) (rule 1, rule 2, rule 3, rule 4, rule 5)
qed

end
