(* ===== verification/Network_Inspect.thy ===== *)
theory Network_Inspect
  imports Network_Facts Network_Connect
begin

text \<open>
  The inspection of the hosts of a network source: the event handler of
  \<open>scanner/network/inspect_callback.py\<close> and \<open>InspectTaskRunner\<close> of \<open>scanner/network/inspect.py\<close>,
  from the events of a playbook to the stored facts and the result of the task.

  Every text of the model can be encoded, so sanitizing a fact does not change it. The names of the
  facts, which the code collects from the playbooks, the feature flag and the settings are parameters,
  as are the id and version of the server and the number of forks of a job. Writing the output of
  Ansible to log files is left out; the list of skipped tasks is a field of the state.
\<close>

section \<open>The event handler\<close>

record inspect_callback =
  ansible_facts :: "(string \<times> pydict) list"
  unreachable_hosts :: "string list"
  collect_skipped :: bool
  skipped_facts :: "(string \<times> string list) list"

definition new_callback :: "bool \<Rightarrow> inspect_callback" where
  "new_callback flag = \<lparr>ansible_facts = [], unreachable_hosts = [], collect_skipped = flag, skipped_facts = []\<rparr>"

definition process_task_facts :: "pydict \<Rightarrow> string \<Rightarrow> inspect_callback \<Rightarrow> inspect_callback" where
  "process_task_facts facts host s =
     fold (\<lambda>(fact_name, fact_value) s.
       s\<lparr>ansible_facts :=
           AList.update host (AList.update fact_name fact_value (dget (ansible_facts s) host [])) (ansible_facts s)\<rparr>) facts s"

text \<open>The dict a handler takes facts from, if there are any.\<close>

fun items_of :: "pyval \<Rightarrow> pydict res" where
  "items_of (PDict d) = Return d"
| "items_of v = (if truthy v then Raise AttributeError else Return [])"

definition event_host :: "pyval \<Rightarrow> string res" where
  "event_host event_data = bind_res (vget event_data ''host'' (PStr ''unknown_host'')) re_text"

text \<open>A handler computes its update of the state or raises before it changed anything.\<close>

definition inspect_on_ok :: "pyval \<Rightarrow> (inspect_callback \<Rightarrow> inspect_callback) res" where
  "inspect_on_ok event_data =
     bind_res (vget event_data ''res'' (PDict [])) (\<lambda>r.
     bind_res (vget r ''ansible_facts'' (PDict [])) (\<lambda>facts.
     bind_res (items_of facts) (\<lambda>items.
       if items = [] then Return id
       else bind_res (event_host event_data) (\<lambda>host. Return (process_task_facts items host)))))"

definition inspect_on_failed :: "pyval \<Rightarrow> (inspect_callback \<Rightarrow> inspect_callback) res" where
  "inspect_on_failed event_data =
     bind_res (event_host event_data) (\<lambda>host.
     bind_res (vget event_data ''res'' PNone) (\<lambda>result.
     bind_res (vget result ''ansible_facts'' PNone) (\<lambda>facts.
     bind_res (items_of facts) (\<lambda>items. Return (process_task_facts items host)))))"

definition inspect_on_unreachable :: "pyval \<Rightarrow> (inspect_callback \<Rightarrow> inspect_callback) res" where
  "inspect_on_unreachable event_data =
     bind_res (event_host event_data) (\<lambda>host.
     bind_res (vget event_data ''res'' (PDict [])) (\<lambda>result.
     bind_res (vget result ''msg'' PNone) (\<lambda>_.
       Return (\<lambda>s. s\<lparr>unreachable_hosts := List.insert host (unreachable_hosts s)\<rparr>))))"

definition inspect_on_skipped :: "pyval \<Rightarrow> (inspect_callback \<Rightarrow> inspect_callback) res" where
  "inspect_on_skipped event_data =
     bind_res (event_host event_data) (\<lambda>host.
     bind_res (vget event_data ''task_path'' (PStr ''unknown_task_path'')) (\<lambda>task_path.
     bind_res (vget event_data ''res'' (PDict [])) (\<lambda>result.
     bind_res (vget result ''ansible_loop_var'' (PStr [])) (\<lambda>loop_var_name.
     bind_res (case loop_var_name of PStr k \<Rightarrow> vget result k (PStr []) | _ \<Rightarrow> Return (PStr [])) (\<lambda>item_id.
       let task_id = py_str task_path @ (if truthy item_id then ''['' @ py_str item_id @ '']'' else [])
       in Return (\<lambda>s. s\<lparr>skipped_facts :=
            AList.update host (List.insert task_id (dget (skipped_facts s) host [])) (skipped_facts s)\<rparr>))))))"

definition inspect_event :: "pydict \<Rightarrow> inspect_callback \<Rightarrow> inspect_callback \<times> unit res" where
  "inspect_event event_dict s =
     (let event_data = dget event_dict ''event_data'' (PDict []);
          change =
            (case map_of event_dict ''event'' of
               Some (PStr event) \<Rightarrow>
                 if event \<in> {''runner_on_ok'', ''runner_item_on_ok''} then inspect_on_ok event_data
                 else if event \<in> {''runner_on_failed'', ''runner_item_on_failed''} then inspect_on_failed event_data
                 else if event = ''runner_on_unreachable'' then inspect_on_unreachable event_data
                 else if event \<in> {''runner_on_skipped'', ''runner_item_on_skipped''} \<and> collect_skipped s
                 then inspect_on_skipped event_data
                 else Return id
             | _ \<Rightarrow> Return id)
      in case change of Return f \<Rightarrow> (f s, Return ()) | Raise e \<Rightarrow> (s, Raise e))"

definition host_status :: "inspect_callback \<Rightarrow> string \<Rightarrow> pydict \<Rightarrow> conn_status" where
  "host_status s host facts =
     (if host \<in> set (unreachable_hosts s) then UNREACHABLE
      else if dget facts ''host_done'' (PBool False) = PBool True then SUCCESS
      else CONN_FAILED)"

definition iter_results :: "inspect_callback \<Rightarrow> (string \<times> conn_status \<times> pydict) list" where
  "iter_results s = map (\<lambda>(host, facts). (host, host_status s host facts, facts)) (ansible_facts s)"

section \<open>Post-processing and storing facts\<close>

record inspect_env =
  env_ansible :: ansible
  fact_names :: "string list"
  exclude_internal_facts :: bool
  report_skipped_tasks :: bool
  server_id :: string
  server_version :: string
  job_forks :: "scanjob \<Rightarrow> nat"

definition raw_facts_template :: "string list \<Rightarrow> pydict" where
  "raw_facts_template names = fold (\<lambda>n. AList.update n PNone) names []"

definition post_process_step :: "string \<times> pyval \<Rightarrow> pydict \<Rightarrow> pydict" where
  "post_process_step item facts =
     (case process_fact_value PROCESSORS facts (fst item) (snd item) of
        Raise _ \<Rightarrow> facts
      | Return v \<Rightarrow> AList.update (fst item) (if v = NO_DATA then PNone else v) facts)"

definition is_internal :: "string \<Rightarrow> bool" where
  "is_internal k = startswith k ''internal_''"

definition post_process_facts :: "inspect_env \<Rightarrow> pydict \<Rightarrow> pydict" where
  "post_process_facts env unprocessed =
     (let facts = fold post_process_step unprocessed [];
          kept = (if exclude_internal_facts env then filter (\<lambda>(k, _). \<not> is_internal k) facts else facts)
      in fold (\<lambda>(k, v). AList.update k v) kept (raw_facts_template (fact_names env)))"

text \<open>A run of the inspection: the database, the instance of the task, the inspect group of the task
  once it exists, and the file with skipped tasks.\<close>

record inspect_run =
  nr_db :: db
  nr_task :: scantask
  nr_group :: "nat option"
  nr_skipped :: "string list option"

definition get_inspect_group :: "inspect_env \<Rightarrow> source \<Rightarrow> inspect_run \<Rightarrow> inspect_run \<times> nat" where
  "get_inspect_group env src s =
     (case nr_group s of
        Some g \<Rightarrow> (s, g)
      | None \<Rightarrow>
          (let d = nr_db s; g = next_id d;
               row = \<lparr>ig_id = g, ig_source_type = so_source_type src, ig_source_name = so_name src,
                      ig_server_id = server_id env, ig_server_version = server_version env,
                      ig_tasks = [st_id (nr_task s)]\<rparr>
           in (s\<lparr>nr_db := d\<lparr>inspect_groups := inspect_groups d @ [row], next_id := g + 1\<rparr>, nr_group := Some g\<rparr>, g)))"

definition create_inspect_result ::
  "inspect_env \<Rightarrow> source \<Rightarrow> string \<Rightarrow> conn_status \<Rightarrow> pydict \<Rightarrow> inspect_run \<Rightarrow> inspect_run"
where
  "create_inspect_result env src host status facts s =
     (case get_inspect_group env src s of (s', g) \<Rightarrow>
        (let d = nr_db s';
             row = \<lparr>ir_id = next_id d, ir_name = host, ir_status = Some status, ir_inspect_group = g, ir_facts = facts\<rparr>
         in s'\<lparr>nr_db := d\<lparr>inspect_results := inspect_results d @ [row], next_id := next_id d + 1\<rparr>\<rparr>))"

text \<open>If the row of the task is gone the transaction is rolled back.\<close>

definition persist_results ::
  "inspect_env \<Rightarrow> source \<Rightarrow> string \<times> conn_status \<times> pydict \<Rightarrow> inspect_run \<Rightarrow> inspect_run \<times> unit res"
where
  "persist_results env src result s =
     (case result of (host, status, facts) \<Rightarrow>
        (let s' = create_inspect_result env src host status (post_process_facts env facts) s
         in case increment_stats False (status = SUCCESS) (status = CONN_FAILED) (status = UNREACHABLE)
                   (nr_task s') (nr_db s') of
              Return (d, t) \<Rightarrow> (s'\<lparr>nr_db := d, nr_task := t\<rparr>, Return ())
            | Raise e \<Rightarrow> (s, Raise e)))"

text \<open>\<open>set.intersection\<close> without an argument is an error.\<close>

definition persist_skipped_tasks :: "inspect_env \<Rightarrow> inspect_callback \<Rightarrow> inspect_run \<Rightarrow> inspect_run \<times> unit res" where
  "persist_skipped_tasks env call s =
     (if \<not> report_skipped_tasks env then (s, Return ())
      else
        (case map snd (skipped_facts call) of
           [] \<Rightarrow> (s, Raise TypeError)
         | xs # xss \<Rightarrow>
             (s\<lparr>nr_skipped := Some (sort (filter (\<lambda>x. list_all (\<lambda>ys. x \<in> set ys) xss) xs))\<rparr>, Return ())))"

section \<open>The inspection\<close>

text \<open>One group: a run that raises is skipped with all that was collected in it; otherwise its results
  are stored, and the final status of the run is returned.\<close>

definition inspect_one_group ::
  "inspect_env \<Rightarrow> source \<Rightarrow> nat \<Rightarrow> pyval \<Rightarrow> string \<Rightarrow> inspect_run \<Rightarrow> inspect_run \<times> string option res"
where
  "inspect_one_group env src forks inventory g s =
     (case run_playbook (env_ansible env)
             \<lparr>rc_playbook = ''inspect'', rc_group = g, rc_forks = forks, rc_inventory = inventory\<rparr>
             inspect_event (\<lambda>_. nr_db s) (new_callback (report_skipped_tasks env)) of
        (call, Inl _) \<Rightarrow> (s, Return None)
      | (call, Inr final_status) \<Rightarrow>
          (case deliver (persist_results env src) (iter_results call) s of
             (s1, Raise e) \<Rightarrow> (s1, Raise e)
           | (s1, Return _) \<Rightarrow>
               (case persist_skipped_tasks env call s1 of
                  (s2, Raise e) \<Rightarrow> (s2, Raise e)
                | (s2, Return _) \<Rightarrow> (s2, Return (Some final_status)))))"

text \<open>The message and the result so far, after a group.\<close>

definition after_group :: "string option \<Rightarrow> string option \<times> status \<Rightarrow> string option \<times> status" where
  "after_group final_status out =
     (case final_status of
        None \<Rightarrow> out
      | Some st \<Rightarrow> if st \<notin> set expected_statuses then (Some (playbook_error st), FAILED) else out)"

fun inspect_group_loop ::
  "inspect_env \<Rightarrow> source \<Rightarrow> nat \<Rightarrow> pyval \<Rightarrow> string list \<Rightarrow> string option \<times> status \<Rightarrow> inspect_run
     \<Rightarrow> inspect_run \<times> (string option \<times> status) res"
where
  "inspect_group_loop env src forks inventory [] out s = (s, Return out)"
| "inspect_group_loop env src forks inventory (g # gs) out s =
     (case inspect_one_group env src forks inventory g s of
        (s', Raise e) \<Rightarrow> (s', Raise e)
      | (s', Return final_status) \<Rightarrow> inspect_group_loop env src forks inventory gs (after_group final_status out) s')"

definition inspect_scan ::
  "inspect_env \<Rightarrow> source \<Rightarrow> nat \<Rightarrow> host_entry list \<Rightarrow> inspect_run \<Rightarrow> inspect_run \<times> (string option \<times> status) res"
where
  "inspect_scan env src forks hosts s =
     (case construct_inventory (env_ansible env) hosts
             (case so_port src of Some p \<Rightarrow> PInt (int p) | None \<Rightarrow> PNone) forks None None of
        Raise e \<Rightarrow> (s, Raise e)
      | Return (group_names, inventory) \<Rightarrow>
          inspect_group_loop env src forks inventory group_names (None, COMPLETED) s)"

definition connected_systems :: "scantask \<Rightarrow> db \<Rightarrow> (string \<times> nat option) list" where
  "connected_systems t d =
     map (\<lambda>r. (scr_name r, scr_credential r))
       (filter (\<lambda>r. Some (scr_task_connection_result r) = st_connection_result t \<and> scr_status r = SUCCESS)
          (system_connection_results d))"

definition results_with :: "conn_status \<Rightarrow> scantask \<Rightarrow> db \<Rightarrow> string list" where
  "results_with st t d = map ir_name (filter (\<lambda>r. ir_status r = Some st) (task_results t d))"

definition NETWORK_SCAN_IDENTITY_KEY :: string where
  "NETWORK_SCAN_IDENTITY_KEY = ''connection_host''"

definition add_unreachable_hosts :: "inspect_env \<Rightarrow> source \<Rightarrow> pydict list \<Rightarrow> inspect_run \<Rightarrow> inspect_run" where
  "add_unreachable_hosts env src systems_list s =
     (let connected_hosts = remdups (map fst (connected_systems (nr_task s) (nr_db s)));
          scanned_hosts = map (\<lambda>facts. dgetn facts NETWORK_SCAN_IDENTITY_KEY) systems_list
      in fold (\<lambda>host. create_inspect_result env src host UNREACHABLE [])
           (filter (\<lambda>h. PStr h \<notin> set scanned_hosts) connected_hosts) s)"

fun formatted_hosts :: "ansible \<Rightarrow> (string \<times> nat option) list \<Rightarrow> host_entry list res" where
  "formatted_hosts a [] = Return []"
| "formatted_hosts a ((h, c) # hs) =
     (case c of
        None \<Rightarrow> Raise AttributeError
      | Some i \<Rightarrow> bind_res (formatted_hosts a hs) (\<lambda>rest. Return (Host_with h (credential_data a i) # rest)))"

datatype inspect_outcome = Inspected "string option" status | Failed_scan string

definition no_facts_message :: string where
  "no_facts_message = ''SystemFacts set is empty. No results will be reported to fact endpoint.''"

definition inspect_summary :: "inspect_env \<Rightarrow> source \<Rightarrow> string option \<times> status \<Rightarrow> inspect_run \<Rightarrow> inspect_run \<times> inspect_outcome" where
  "inspect_summary env src out s =
     (let d = cleanup_facts NETWORK_SCAN_IDENTITY_KEY (nr_task s) (nr_db s);
          temp_facts = get_facts (nr_task s) d;
          s' = add_unreachable_hosts env src temp_facts (s\<lparr>nr_db := d\<rparr>);
          failed = st_systems_failed (nr_task s')
      in (s',
          if temp_facts = [] then Failed_scan no_facts_message
          else if failed > 0
          then Inspected (Some (show_nat failed @ '' systems could not be scanned.'')) COMPLETED
          else Inspected (fst out) (snd out)))"

definition inspect_remaining ::
  "inspect_env \<Rightarrow> source \<Rightarrow> nat \<Rightarrow> (string \<times> nat option) list \<Rightarrow> inspect_run \<Rightarrow> inspect_run \<times> inspect_outcome res"
where
  "inspect_remaining env src forks remaining s =
     (case formatted_hosts (env_ansible env) remaining of
        Raise e \<Rightarrow> (s, Raise e)
      | Return hosts \<Rightarrow>
          (case inspect_scan env src forks hosts s of
             (s1, Raise e) \<Rightarrow> (s1, Raise e)
           | (s1, Return out) \<Rightarrow> (case inspect_summary env src out s1 of (s2, r) \<Rightarrow> (s2, Return r))))"

definition inspect :: "inspect_env \<Rightarrow> nat \<Rightarrow> source \<Rightarrow> scantask \<Rightarrow> db \<Rightarrow> inspect_run \<times> inspect_outcome res" where
  "inspect env forks src t d =
     (let connected = connected_systems t d; completed = results_with SUCCESS t d;
          failed = results_with CONN_FAILED t d; unreachable = results_with UNREACHABLE t d;
          processed_hosts = failed @ completed;
          start = (\<lambda>d t. \<lparr>nr_db = d, nr_task = t, nr_group = None, nr_skipped = None\<rparr>)
      in if st_connection_result t = None then (start d t, Raise AttributeError)
         else if connected = [] \<and> processed_hosts = []
         then (start d t, Return (Failed_scan ''Scan task encountered error: Inventory provided no reachable hosts.''))
         else
           (case update_stats (Some (length connected)) (Some (length completed)) (Some (length failed))
                   (Some (length unreachable)) t d of
              Raise e \<Rightarrow> (start d t, Raise e)
            | Return (d', t') \<Rightarrow>
                inspect_remaining env src forks (filter (\<lambda>(h, _). h \<notin> set processed_hosts) connected) (start d' t')))"

text \<open>The task of the runner. A missing message is empty, which the runner replaces by its own.\<close>

definition text_of :: "string option \<Rightarrow> string" where
  "text_of m = (case m of Some s \<Rightarrow> s | None \<Rightarrow> [])"

definition network_execute :: "inspect_env \<Rightarrow> execute" where
  "network_execute env j t d =
     (let a = env_ansible env
      in case check_connection a (job_forks env j) t d of
           (d1, t1, Crashed e) \<Rightarrow> (d1, j, t1, Crash e (exn_text a e))
         | (d1, t1, Ansible_error m) \<Rightarrow> (d1, j, t1, Scan_failure m)
         | (d1, t1, Done m status) \<Rightarrow>
             if status \<noteq> COMPLETED then (d1, j, t1, Finished (text_of m) status)
             else
               (case Option.bind (st_source t1) (\<lambda>i. get_source i d1) of
                  None \<Rightarrow> (d1, j, t1, Crash AttributeError (exn_text a AttributeError))
                | Some src \<Rightarrow>
                    (case inspect env (job_forks env j) src t1 d1 of
                       (s, Raise e) \<Rightarrow> (nr_db s, j, nr_task s, Crash e (exn_text a e))
                     | (s, Return (Inspected m st)) \<Rightarrow> (nr_db s, j, nr_task s, Finished (text_of m) st)
                     | (s, Return (Failed_scan m)) \<Rightarrow> (nr_db s, j, nr_task s, Scan_failure m))))"

section \<open>Jobs are left alone\<close>

lemma deliver_unchanged:
  assumes "\<And>ev s s' r. handler ev s = (s', r) \<Longrightarrow> f s' = f s"
  shows "deliver handler evs s = (s', r) \<Longrightarrow> f s' = f s"
proof (induction evs arbitrary: s)
  case Nil
  then show ?case by simp
next
  case (Cons ev evs)
  obtain s1 r1 where s1: "handler ev s = (s1, r1)" by (cases "handler ev s")
  with Cons.prems have "deliver handler evs s1 = (s', r) \<or> s' = s1" by (cases r1) auto
  with Cons.IH [of s1] assms [OF s1] show ?case by auto
qed

lemma run_playbook_unchanged:
  assumes "\<And>ev s s' r. handler ev s = (s', r) \<Longrightarrow> f s' = f s"
    and "run_playbook a call handler db_of s = (s', r)"
  shows "f s' = f s"
proof -
  from assms(2) obtain evs r' where "deliver handler evs s = (s', r')"
    by (auto simp: run_playbook_def split: run_result.splits prod.splits res.splits)
  from deliver_unchanged [where f = f, OF assms(1) this] show ?thesis .
qed

lemma record_result_jobs: "record_result h c st s = (s', r) \<Longrightarrow> scanjobs (cs_db s') = scanjobs (cs_db s)"
  by (auto simp: record_result_def Let_def dest: increment_stats_frame split: option.splits res.splits if_splits prod.splits)

lemma connect_event_jobs: "connect_event cr ev s = (s', r) \<Longrightarrow> scanjobs (cs_db s') = scanjobs (cs_db s)"
  unfolding connect_event_def connect_on_ok_def connect_on_unreachable_def connect_on_failed_def Let_def
  by (auto dest: record_result_jobs split: if_splits pyval.splits res.splits prod.splits)

lemma connect_groups_jobs:
  "connect_groups a cr forks iv gs b s = (s', r) \<Longrightarrow> scanjobs (cs_db s') = scanjobs (cs_db s)"
proof (induction gs arbitrary: b s)
  case Nil
  then show ?case by auto
next
  case (Cons g gs)
  let ?call = "\<lparr>rc_playbook = ''connect'', rc_group = g, rc_forks = forks, rc_inventory = iv\<rparr>"
  obtain s1 r1 where r: "run_playbook a ?call (connect_event cr) cs_db s = (s1, r1)" by fastforce
  have "scanjobs (cs_db s1) = scanjobs (cs_db s)"
    using run_playbook_unchanged [where f = "\<lambda>s. scanjobs (cs_db s)", OF connect_event_jobs r] .
  with Cons r show ?case by (auto simp: Let_def split: sum.splits if_splits)
qed

lemma try_credentials_jobs:
  "try_credentials a forks port crs s = (s', r) \<Longrightarrow> scanjobs (cs_db s') = scanjobs (cs_db s)"
proof (induction crs arbitrary: s)
  case Nil
  then show ?case by simp
next
  case (Cons cr crs)
  obtain s1 r1 where c: "connect a forks port cr s = (s1, r1)" by fastforce
  then have "scanjobs (cs_db s1) = scanjobs (cs_db s)"
    by (auto simp: connect_def dest: connect_groups_jobs split: res.splits prod.splits)
  with Cons c show ?case by (auto split: connect_outcome.splits if_splits)
qed

lemma run_with_result_store_jobs:
  assumes "run_with_result_store a forks port crs s = (s', r)"
  shows "scanjobs (cs_db s') = scanjobs (cs_db s)"
proof -
  obtain s1 r1 where t: "try_credentials a forks port crs s = (s1, r1)" by fastforce
  obtain s2 r2 where f: "record_failures (cs_remaining s1) s1 = (s2, r2)" by fastforce
  have "scanjobs (cs_db s2) = scanjobs (cs_db s1)"
    using deliver_unchanged [where f = "\<lambda>s. scanjobs (cs_db s)", OF record_result_jobs] f by (simp add: record_failures_def)
  with try_credentials_jobs [OF t] t f assms show ?thesis
    by (auto simp: run_with_result_store_def split: option.splits res.splits)
qed

lemma update_stats_jobs: "update_stats c s f u t d = Return (d', t') \<Longrightarrow> scanjobs d' = scanjobs d"
  by (auto simp: update_stats_def Let_def split: option.splits if_splits)

lemma check_connection_jobs: "check_connection a forks t d = (d', t', r) \<Longrightarrow> scanjobs d' = scanjobs d"
  by (auto simp: check_connection_def init_store_def Let_def bind_res_eq_Return
      dest!: run_with_result_store_jobs update_stats_jobs split: option.splits res.splits prod.splits)

lemma create_result_frame:
  "scanjobs (nr_db (create_inspect_result env src h st fs s)) = scanjobs (nr_db s)"
  "scantasks (nr_db (create_inspect_result env src h st fs s)) = scantasks (nr_db s)"
  "system_connection_results (nr_db (create_inspect_result env src h st fs s)) = system_connection_results (nr_db s)"
  "nr_task (create_inspect_result env src h st fs s) = nr_task s"
  by (auto simp: create_inspect_result_def get_inspect_group_def Let_def split: option.split)

lemma persist_results_jobs: "persist_results env src r s = (s', x) \<Longrightarrow> scanjobs (nr_db s') = scanjobs (nr_db s)"
  by (auto simp: persist_results_def Let_def create_result_frame dest!: increment_stats_frame split: prod.splits res.splits)

lemma inspect_one_group_jobs:
  assumes "inspect_one_group env src forks iv g s = (s', x)"
  shows "scanjobs (nr_db s') = scanjobs (nr_db s)"
proof -
  obtain call r where run: "run_playbook (env_ansible env)
      \<lparr>rc_playbook = ''inspect'', rc_group = g, rc_forks = forks, rc_inventory = iv\<rparr>
      inspect_event (\<lambda>_. nr_db s) (new_callback (report_skipped_tasks env)) = (call, r)" by fastforce
  obtain s1 y where d: "deliver (persist_results env src) (iter_results call) s = (s1, y)" by fastforce
  have "scanjobs (nr_db s1) = scanjobs (nr_db s)"
    using deliver_unchanged [where f = "\<lambda>s. scanjobs (nr_db s)", OF persist_results_jobs d] .
  with assms run d show ?thesis
    by (auto simp: inspect_one_group_def persist_skipped_tasks_def split: sum.splits res.splits if_splits list.splits)
qed

lemma inspect_group_loop_jobs:
  "inspect_group_loop env src forks iv gs out s = (s', x) \<Longrightarrow> scanjobs (nr_db s') = scanjobs (nr_db s)"
proof (induction gs arbitrary: out s)
  case Nil
  then show ?case by simp
next
  case (Cons g gs)
  obtain s1 y where g: "inspect_one_group env src forks iv g s = (s1, y)" by fastforce
  from inspect_one_group_jobs [OF g] Cons g show ?case by (auto split: res.splits)
qed

lemma inspect_summary_jobs: "inspect_summary env src out s = (s', x) \<Longrightarrow> scanjobs (nr_db s') = scanjobs (nr_db s)"
proof -
  have "scanjobs (nr_db (fold (\<lambda>h. create_inspect_result env src h UNREACHABLE []) hs s)) = scanjobs (nr_db s)" for hs s
    by (induction hs arbitrary: s) (simp_all add: create_result_frame)
  moreover have "scanjobs (cleanup_facts k t d) = scanjobs d" for k t d
    by (simp add: cleanup_facts_def Let_def)
  ultimately show "inspect_summary env src out s = (s', x) \<Longrightarrow> scanjobs (nr_db s') = scanjobs (nr_db s)"
    by (auto simp: inspect_summary_def add_unreachable_hosts_def Let_def)
qed

lemma inspect_jobs: "inspect env forks src t d = (s', x) \<Longrightarrow> scanjobs (nr_db s') = scanjobs d"
  by (auto simp: inspect_def inspect_remaining_def inspect_scan_def Let_def
      dest!: inspect_group_loop_jobs inspect_summary_jobs update_stats_jobs split: res.splits prod.splits if_splits)

lemma network_execute_keeps_jobs:
  "network_execute env j t d = (d', j', t', out) \<Longrightarrow> scanjobs d' = scanjobs d \<and> j' = j"
  by (auto simp: network_execute_def Let_def dest!: check_connection_jobs inspect_jobs
      split: prod.splits connect_outcome.splits option.splits res.splits inspect_outcome.splits if_splits)

interpretation network: task_runner "network_execute env" for env
  by unfold_locales (rule network_execute_keeps_jobs)

section \<open>Post-processing\<close>

lemma map_of_fold_update:
  "map_of (fold (\<lambda>(k, v). AList.update k v) new old) x =
     (case map_of (rev new) x of Some v \<Rightarrow> Some v | None \<Rightarrow> map_of old x)"
  by (induction new arbitrary: old)
     (auto simp: dict_simps map_of_append map_add_def split: option.split)

lemma map_of_template:
  "map_of (raw_facts_template names) x = (if x \<in> set names then Some PNone else None)"
proof -
  have "map_of (fold (\<lambda>n. AList.update n PNone) names d) x =
          (if x \<in> set names then Some PNone else map_of d x)" for d :: pydict
    by (induction names arbitrary: d) (auto simp: dict_simps)
  then show ?thesis by (simp add: raw_facts_template_def)
qed

lemma post_process_step_other: "k \<noteq> fst item \<Longrightarrow> map_of (post_process_step item facts) k = map_of facts k"
  by (auto simp: post_process_step_def dict_simps split: res.split)

lemma fold_post_process_other:
  "k \<notin> set (map fst items) \<Longrightarrow> map_of (fold post_process_step items facts) k = map_of facts k"
  by (induction items arbitrary: facts) (auto simp: post_process_step_other)

lemma wf_fold_post_process: "wf_dict facts \<Longrightarrow> wf_dict (fold post_process_step items facts)"
proof (induction items arbitrary: facts)
  case (Cons item items)
  have "wf_dict (post_process_step item facts)"
    using Cons.prems by (auto simp: post_process_step_def split: res.split)
  with Cons.IH show ?case by simp
qed simp

text \<open>The value of one fact is decided by its own value and the facts before it.\<close>

lemma fold_post_process_at:
  assumes "wf_dict (pre @ (k, v) # post)"
  shows "map_of (fold post_process_step (pre @ (k, v) # post) []) k =
    (case process_fact_value PROCESSORS (fold post_process_step pre []) k v of
       Raise _ \<Rightarrow> None
     | Return w \<Rightarrow> Some (if w = NO_DATA then PNone else w))"
proof -
  from assms have "k \<notin> set (map fst pre)" "k \<notin> set (map fst post)" by (auto simp: wf_dict_def)
  then show ?thesis
    by (simp add: fold_post_process_other post_process_step_def dict_simps split: res.split)
qed

lemma map_of_rev_distinct:
  assumes "distinct (map fst d)"
  shows "map_of (rev d) k = map_of d k"
proof -
  have "map_of (rev d) = map_of d" using assms by (intro map_of_eqI) (auto simp: map_of_eq_Some_iff rev_map [symmetric])
  then show ?thesis by simp
qed

lemma map_of_filter_key: "map_of (filter (\<lambda>(x, _). P x) d) k = (if P k then map_of d k else None)"
  by (induction d) auto

lemma map_of_post_process:
  "map_of (post_process_facts env raw) k =
     (case (if exclude_internal_facts env \<and> is_internal k then None else map_of (fold post_process_step raw []) k) of
        Some v \<Rightarrow> Some v
      | None \<Rightarrow> if k \<in> set (fact_names env) then Some PNone else None)"
proof -
  let ?F = "fold post_process_step raw []"
  let ?K = "if exclude_internal_facts env then filter (\<lambda>(k, _). \<not> is_internal k) ?F else ?F"
  have "wf_dict ?K" using wf_fold_post_process [of "[]" raw] by (auto simp: wf_dict_def distinct_map_filter)
  then have "map_of (rev ?K) k = map_of ?K k" by (simp add: wf_dict_def map_of_rev_distinct)
  moreover have "map_of ?K k = (if exclude_internal_facts env \<and> is_internal k then None else map_of ?F k)"
    by (simp add: map_of_filter_key)
  ultimately show ?thesis
    by (simp add: post_process_facts_def Let_def map_of_fold_update map_of_template split: option.split)
qed

text \<open>C39. Facts keep their names. The stored facts of a host have every name of the template, whatever
  the host reported; a reported fact that has no processor, is no sudo error and is not withheld as
  internal is stored with the value that was reported, an empty value as None.\<close>

theorem plain_facts_are_stored:
  assumes "wf_dict (pre @ (k, v) # post)" and "map_of PROCESSORS k = None" and "\<not> is_sudo_error_value v"
    and "\<not> (exclude_internal_facts env \<and> is_internal k)"
  shows "map_of (post_process_facts env (pre @ (k, v) # post)) k = Some (if v = NO_DATA then PNone else v) \<and>
         list_all (has_key (post_process_facts env (pre @ (k, v) # post))) (fact_names env)"
proof -
  have "list_all (has_key (post_process_facts env raw)) (fact_names env)" for raw
    by (auto simp: list_all_iff has_key_map_of map_of_post_process split: option.split)
  moreover have "map_of (fold post_process_step (pre @ (k, v) # post) []) k = Some (if v = NO_DATA then PNone else v)"
    unfolding fold_post_process_at [OF assms(1)] using assms(2,3) by (simp add: process_fact_value_def)
  ultimately show ?thesis using assms(4) unfolding map_of_post_process by (auto simp del: fold_append fold_simps)
qed

text \<open>C40. The order of the facts matters. A fact whose processor requires another fact is stored as
  None when the other one was not reported before it, even if it was reported later.\<close>

theorem late_dependency_is_missing:
  assumes "wf_dict (pre @ (k, v) # post)" and "map_of PROCESSORS k = Some p" and "REQUIRE_DEPS p"
    and "dep \<in> set (DEPS p)" and "dep \<notin> set (map fst pre)"
    and "\<not> (exclude_internal_facts env \<and> is_internal k)"
  shows "map_of (post_process_facts env (pre @ (k, v) # post)) k = Some PNone"
proof -
  have "map_of (fold post_process_step pre []) dep = None" using assms(5) by (simp add: fold_post_process_other)
  then have "\<not> truthy (dgetn (fold post_process_step pre []) dep)" by simp
  then have "missing_dep p (fold post_process_step pre [])"
    using assms(3,4) unfolding missing_dep_def list_ex_iff by blast
  then have "process_fact_value PROCESSORS (fold post_process_step pre []) k v = Return NO_DATA"
    using assms(2) by (simp add: process_fact_value_def)
  then have "map_of (fold post_process_step (pre @ (k, v) # post) []) k = Some PNone"
    unfolding fold_post_process_at [OF assms(1)] by simp
  then show ?thesis using assms(6) by (simp add: map_of_post_process)
qed

section \<open>Results and counters\<close>

text \<open>The instance of the task is its row, the connection results are as they were, and the inspect
  group belongs to the task.\<close>

definition run_ok :: "system_connection_result list \<Rightarrow> nat option \<Rightarrow> nat \<Rightarrow> inspect_run \<Rightarrow> bool" where
  "run_ok S c i s \<longleftrightarrow>
     system_connection_results (nr_db s) = S \<and> st_connection_result (nr_task s) = c \<and> st_id (nr_task s) = i \<and>
     get_task i (nr_db s) = Some (nr_task s) \<and>
     (case nr_group s of None \<Rightarrow> True | Some g \<Rightarrow> g \<in> set (task_groups (nr_task s) (nr_db s)))"

definition results_of :: "conn_status \<Rightarrow> inspect_result list \<Rightarrow> nat" where
  "results_of st rows = length (filter (\<lambda>r. ir_status r = Some st) rows)"

text \<open>Results are only added, and each is counted under its status.\<close>

definition counted :: "inspect_run \<Rightarrow> inspect_run \<Rightarrow> bool" where
  "counted s s' \<longleftrightarrow>
     (\<exists>new. inspect_results (nr_db s') = inspect_results (nr_db s) @ new \<and>
        st_systems_count (nr_task s') = st_systems_count (nr_task s) \<and>
        st_systems_scanned (nr_task s') = st_systems_scanned (nr_task s) + results_of SUCCESS new \<and>
        st_systems_failed (nr_task s') = st_systems_failed (nr_task s) + results_of CONN_FAILED new \<and>
        st_systems_unreachable (nr_task s') = st_systems_unreachable (nr_task s) + results_of UNREACHABLE new)"

lemma counted_refl: "counted s s"
  by (auto simp: counted_def results_of_def)

lemma counted_trans:
  assumes "counted s s'" and "counted s' s''"
  shows "counted s s''"
proof -
  from assms obtain xs ys where "inspect_results (nr_db s'') = inspect_results (nr_db s) @ xs @ ys"
    and "st_systems_count (nr_task s'') = st_systems_count (nr_task s)"
    and "st_systems_scanned (nr_task s'') = st_systems_scanned (nr_task s) + results_of SUCCESS (xs @ ys)"
    and "st_systems_failed (nr_task s'') = st_systems_failed (nr_task s) + results_of CONN_FAILED (xs @ ys)"
    and "st_systems_unreachable (nr_task s'') = st_systems_unreachable (nr_task s) + results_of UNREACHABLE (xs @ ys)"
    unfolding counted_def results_of_def by (elim exE conjE) (simp add: add.assoc)
  then show ?thesis unfolding counted_def by blast
qed

lemma create_result_row:
  assumes "run_ok S c i s"
  obtains row where "run_ok S c i (create_inspect_result env src h st fs s)"
    and "inspect_results (nr_db (create_inspect_result env src h st fs s)) = inspect_results (nr_db s) @ [row]"
    and "ir_name row = h" and "ir_status row = Some st" and "ir_facts row = fs"
    and "ir_inspect_group row \<in> set (task_groups (nr_task s) (nr_db (create_inspect_result env src h st fs s)))"
proof (cases "nr_group s")
  case None
  with assms show thesis
    by (intro that) (auto simp: create_inspect_result_def get_inspect_group_def Let_def run_ok_def task_groups_def get_task_def)
next
  case (Some g)
  with assms show thesis
    by (intro that) (auto simp: create_inspect_result_def get_inspect_group_def Let_def run_ok_def task_groups_def get_task_def)
qed

lemma increment_stats_inspect_frame:
  "increment_stats c s f u t d = Return (d', t') \<Longrightarrow>
     inspect_results d' = inspect_results d \<and> inspect_groups d' = inspect_groups d"
  by (auto simp: increment_stats_def Let_def split: if_splits option.splits)

lemma persist_results_keeps:
  assumes ok: "run_ok S c i s" and p: "persist_results env src r s = (s', Return u)"
  shows "run_ok S c i s' \<and> counted s s'"
proof -
  obtain h st fs where r: "r = (h, st, fs)" by (cases r)
  let ?s = "create_inspect_result env src h st (post_process_facts env fs) s"
  obtain row where ok': "run_ok S c i ?s" and rows: "inspect_results (nr_db ?s) = inspect_results (nr_db s) @ [row]"
    and st: "ir_status row = Some st" using create_result_row [OF ok] by metis
  let ?b = "bump_row False (st = SUCCESS) (st = CONN_FAILED) (st = UNREACHABLE) (nr_task s)"
  from ok' have g: "get_task i (nr_db ?s) = Some (nr_task s)" and i: "st_id (nr_task s) = i"
    by (simp_all add: run_ok_def create_result_frame)
  from increment_stats_row [OF g [folded i], of False "st = SUCCESS" "st = CONN_FAILED" "st = UNREACHABLE" "st_id (nr_task s)"]
  obtain d' where d': "increment_stats False (st = SUCCESS) (st = CONN_FAILED) (st = UNREACHABLE) (nr_task s) (nr_db ?s) = Return (d', ?b)"
    and g': "get_task (st_id (nr_task s)) d' = Some ?b" by (cases st) auto
  from p r d' have s': "s' = ?s\<lparr>nr_db := d', nr_task := ?b\<rparr>"
    by (simp add: persist_results_def Let_def create_result_frame)
  note fr = increment_stats_frame [OF d'] increment_stats_inspect_frame [OF d']
  have "run_ok S c i s'"
    using ok' g' i fr by (auto simp: s' run_ok_def create_result_frame bump_row_def task_groups_def split: option.split)
  moreover have "counted s s'"
    unfolding counted_def
    by (intro exI [of _ "[row]"]) (use fr rows st in \<open>simp add: s' bump_row_def bump_def results_of_def\<close>)
  ultimately show ?thesis ..
qed

interpretation storing: step_handler "persist_results env src" "run_ok S c i" counted for env src S c i
  by unfold_locales (rule persist_results_keeps counted_refl counted_trans; assumption)+

lemma inspect_one_group_keeps:
  assumes ok: "run_ok S c i s" and p: "inspect_one_group env src forks iv g s = (s', Return u)"
  shows "run_ok S c i s' \<and> counted s s'"
proof -
  obtain call r where run: "run_playbook (env_ansible env)
      \<lparr>rc_playbook = ''inspect'', rc_group = g, rc_forks = forks, rc_inventory = iv\<rparr>
      inspect_event (\<lambda>_. nr_db s) (new_callback (report_skipped_tasks env)) = (call, r)" by fastforce
  show ?thesis
  proof (cases r)
    case Inl
    with run p ok show ?thesis by (simp add: inspect_one_group_def counted_refl)
  next
    case (Inr fin)
    with run p obtain s1 w where d: "deliver (persist_results env src) (iter_results call) s = (s1, Return w)"
      and s': "nr_db s' = nr_db s1" "nr_task s' = nr_task s1" "nr_group s' = nr_group s1"
      by (auto simp: inspect_one_group_def persist_skipped_tasks_def split: prod.splits res.splits if_splits list.splits)
    from storing.deliver_keeps [OF ok d] s' show ?thesis by (simp add: run_ok_def counted_def cong: option.case_cong)
  qed
qed

lemma inspect_group_loop_keeps:
  "run_ok S c i s \<Longrightarrow> inspect_group_loop env src forks iv gs out s = (s', Return u) \<Longrightarrow> run_ok S c i s' \<and> counted s s'"
proof (induction gs arbitrary: out s)
  case Nil
  then show ?case by (simp add: counted_refl)
next
  case (Cons g gs)
  obtain s1 y where g: "inspect_one_group env src forks iv g s = (s1, y)" by fastforce
  with Cons.prems(2) obtain f where y: "y = Return f" by (cases y) auto
  note k = inspect_one_group_keeps [OF Cons.prems(1) g [unfolded y]]
  with Cons.IH [of s1 "after_group f out"] Cons.prems(2) g y show ?case by (auto intro: counted_trans)
qed


section \<open>No host is lost\<close>

definition host_reported :: "scantask \<Rightarrow> db \<Rightarrow> string \<Rightarrow> bool" where
  "host_reported t d h \<longleftrightarrow>
     list_ex (\<lambda>r. dgetn (facts_dict (ir_facts r)) NETWORK_SCAN_IDENTITY_KEY = PStr h \<or>
                  ir_name r = h \<and> ir_status r = Some UNREACHABLE) (task_results t d)"

lemma create_result_grows:
  assumes "run_ok S c i s"
  shows "set (task_results (nr_task s) (nr_db s)) \<subseteq>
    set (task_results (nr_task s) (nr_db (create_inspect_result env src h st fs s)))"
  by (auto simp: create_inspect_result_def get_inspect_group_def Let_def task_results_def task_groups_def split: option.split)

lemma add_results_reported:
  assumes "run_ok S c i s" and "s' = fold (\<lambda>h. create_inspect_result env src h UNREACHABLE []) hs s"
  shows "run_ok S c i s' \<and> nr_task s' = nr_task s \<and>
    set (task_results (nr_task s) (nr_db s)) \<subseteq> set (task_results (nr_task s) (nr_db s')) \<and>
    list_all (host_reported (nr_task s) (nr_db s')) hs"
  unfolding assms(2) using assms(1)
proof (induction hs arbitrary: s)
  case Nil
  then show ?case by simp
next
  case (Cons h hs)
  let ?s = "create_inspect_result env src h UNREACHABLE [] s"
  obtain row where ok: "run_ok S c i ?s" and rows: "inspect_results (nr_db ?s) = inspect_results (nr_db s) @ [row]"
    and row: "ir_name row = h" "ir_status row = Some UNREACHABLE"
    and g: "ir_inspect_group row \<in> set (task_groups (nr_task s) (nr_db ?s))"
    using create_result_row [OF Cons.prems] by metis
  have "row \<in> set (task_results (nr_task s) (nr_db ?s))" using rows g by (simp add: task_results_def)
  with Cons.IH [OF ok] row create_result_grows [OF Cons.prems, of env src h UNREACHABLE "[]"] show ?case
    by (auto simp: create_result_frame host_reported_def list_ex_iff)
qed

lemma cleanup_facts_frame:
  "scantasks (cleanup_facts k t d) = scantasks d"
  "inspect_groups (cleanup_facts k t d) = inspect_groups d"
  "system_connection_results (cleanup_facts k t d) = system_connection_results d"
  by (simp_all add: cleanup_facts_def Let_def)

lemma inspect_summary_reports:
  assumes ok: "run_ok S c i s" and sum: "inspect_summary env src out s = (s', r)"
    and h: "h \<in> set (map fst (connected_systems (nr_task s) (nr_db s)))"
  shows "host_reported (nr_task s') (nr_db s') h"
proof -
  let ?d = "cleanup_facts NETWORK_SCAN_IDENTITY_KEY (nr_task s) (nr_db s)"
  let ?s = "s\<lparr>nr_db := ?d\<rparr>"
  let ?seen = "map (\<lambda>facts. dgetn facts NETWORK_SCAN_IDENTITY_KEY) (get_facts (nr_task s) ?d)"
  let ?hs = "filter (\<lambda>h. PStr h \<notin> set ?seen) (remdups (map fst (connected_systems (nr_task s) ?d)))"
  have ok': "run_ok S c i ?s"
    using ok by (auto simp: run_ok_def get_task_def task_groups_def cleanup_facts_frame split: option.splits)
  have s': "s' = fold (\<lambda>h. create_inspect_result env src h UNREACHABLE []) ?hs ?s"
    using sum by (simp add: inspect_summary_def add_unreachable_hosts_def Let_def)
  from add_results_reported [OF ok' s']
  have t: "nr_task s' = nr_task s" and keep: "set (task_results (nr_task s) ?d) \<subseteq> set (task_results (nr_task s) (nr_db s'))"
    and all: "list_all (host_reported (nr_task s) (nr_db s')) ?hs" by simp_all
  show ?thesis
  proof (cases "PStr h \<in> set ?seen")
    case True
    then have "\<exists>r\<in>set (task_results (nr_task s) ?d). dgetn (facts_dict (ir_facts r)) NETWORK_SCAN_IDENTITY_KEY = PStr h"
      by (auto simp: get_facts_def split: if_splits)
    with keep show ?thesis unfolding t host_reported_def list_ex_iff by blast
  next
    case False
    with h have "h \<in> set ?hs" by (simp add: connected_systems_def cleanup_facts_frame)
    with all show ?thesis unfolding t list_all_iff by blast
  qed
qed

lemma update_stats_inspect:
  assumes "get_task (st_id t) d = Some t" and "update_stats a b c e t d = Return (d', t')"
  shows "run_ok (system_connection_results d) (st_connection_result t) (st_id t)
           \<lparr>nr_db = d', nr_task = t', nr_group = None, nr_skipped = None\<rparr>"
proof -
  have "system_connection_results (save_task x d) = system_connection_results d" for x by (simp add: save_task_def)
  with assms show ?thesis by (auto simp: run_ok_def update_stats_def Let_def get_task_save_task split: if_splits)
qed

text \<open>C12. No connected host is lost. If the instance of the task is its row, then after an inspection
  that gets to its end, with a result or because there are no facts, every host that could be connected
  to is reported: a result of the task has it as its connection host, or it has a result of its own that
  says it was unreachable.\<close>

theorem connected_hosts_are_reported:
  assumes "get_task (st_id t) d = Some t" and "inspect env forks src t d = (s', Return out)"
    and "h \<in> set (map fst (connected_systems t d))"
  shows "host_reported (nr_task s') (nr_db s') h"
proof -
  from assms(3) have "connected_systems t d \<noteq> []" by auto
  with assms(2) obtain d1 t1 rem a b c e where
    u: "update_stats a b c e t d = Return (d1, t1)" and
    r: "inspect_remaining env src forks rem \<lparr>nr_db = d1, nr_task = t1, nr_group = None, nr_skipped = None\<rparr> = (s', Return out)"
    unfolding inspect_def Let_def by (auto split: if_splits res.splits prod.splits)
  note ok = update_stats_inspect [OF assms(1) u]
  from r obtain s1 o1 gs iv where
    l: "inspect_group_loop env src forks iv gs (None, COMPLETED)
          \<lparr>nr_db = d1, nr_task = t1, nr_group = None, nr_skipped = None\<rparr> = (s1, Return o1)" and
    s: "inspect_summary env src o1 s1 = (s', out)"
    by (auto simp: inspect_remaining_def inspect_scan_def split: res.splits prod.splits)
  have ok1: "run_ok (system_connection_results d) (st_connection_result t) (st_id t) s1"
    using inspect_group_loop_keeps [OF ok l] ..
  then have "connected_systems (nr_task s1) (nr_db s1) = connected_systems t d"
    by (simp add: run_ok_def connected_systems_def)
  with inspect_summary_reports [OF ok1 s] assms(3) show ?thesis by simp
qed

section \<open>A sample inspection\<close>

text \<open>Two hosts were connected to; the playbook collects the facts of one and nothing of the other.\<close>

definition sample_inspect_env :: inspect_env where
  "sample_inspect_env =
     \<lparr>env_ansible = sample_ansible\<lparr>ansible_run := (\<lambda>call d.
        Ran [[(''event'', PStr ''runner_on_ok''),
              (''event_data'', PDict [(''host'', PStr ''web''),
                 (''res'', PDict [(''ansible_facts'',
                    PDict [(''connection_host'', PStr ''web''), (''host_done'', PBool True)])])])]] ''successful'')\<rparr>,
      fact_names = [''connection_host'', ''cpu_count''], exclude_internal_facts = True, report_skipped_tasks = False,
      server_id = ''s1'', server_version = ''2'', job_forks = (\<lambda>_. 50)\<rparr>"

definition sample_inspect_db :: db where
  "sample_inspect_db = sample_connect_db\<lparr>system_connection_results :=
     map (\<lambda>h. \<lparr>scr_name = h, scr_credential = Some 5, scr_source = Some 2, scr_status = SUCCESS,
                scr_task_connection_result = 9\<rparr>) [''web'', ''db'']\<rparr>"

definition sample_start :: inspect_run where
  "sample_start = \<lparr>nr_db = sample_inspect_db, nr_task = sample_connect_task, nr_group = None, nr_skipped = None\<rparr>"

definition sample_hosts :: "host_entry list" where
  "sample_hosts = [Host_with ''web'' [], Host_with ''db'' []]"

definition sample_scan :: "inspect_run \<times> (string option \<times> status) res" where
  "sample_scan = inspect_scan sample_inspect_env sample_source 50 sample_hosts sample_start"

definition sample_inspection :: "inspect_run \<times> inspect_outcome res" where
  "sample_inspection = inspect sample_inspect_env 50 sample_source sample_connect_task sample_inspect_db"

lemma sample_inspect_row: "get_task (st_id sample_connect_task) sample_inspect_db = Some sample_connect_task"
  by code_simp

lemma sample_scan_done: "snd sample_scan = Return (None, COMPLETED)"
  by code_simp

lemma sample_inspection_done: "snd sample_inspection = Return (Inspected None COMPLETED)"
  by code_simp

theorem plain_facts_are_stored_witness:
  "map_of (post_process_facts sample_inspect_env [(''connection_host'', PStr ''web''), (''host_done'', PBool True)])
     ''host_done'' = Some (PBool True)"
  using plain_facts_are_stored [of "[(''connection_host'', PStr ''web'')]" "''host_done''" "PBool True" "[]" sample_inspect_env]
  by (simp add: wf_dict_def PROCESSORS_def is_internal_def startswith_def NO_DATA_def)

theorem late_dependency_is_missing_witness:
  "map_of (post_process_facts sample_inspect_env
     [(''jboss_eap_locate_jboss_modules_jar'', PDict [(''rc'', PInt 0), (''stdout_lines'', PList [PStr ''/opt/eap''])]),
      (''internal_have_locate'', PBool True)]) ''jboss_eap_locate_jboss_modules_jar'' = Some PNone"
  using late_dependency_is_missing [of "[]" "''jboss_eap_locate_jboss_modules_jar''"
      "PDict [(''rc'', PInt 0), (''stdout_lines'', PList [PStr ''/opt/eap''])]" "[(''internal_have_locate'', PBool True)]"
      ProcessJbossEapLocate "''internal_have_locate''" sample_inspect_env]
  by (simp add: wf_dict_def PROCESSORS_def is_internal_def startswith_def ProcessJbossEapLocate_def plain_def)


theorem connected_hosts_are_reported_witness:
  "host_reported (nr_task (fst sample_inspection)) (nr_db (fst sample_inspection)) ''db''"
proof -
  have "inspect sample_inspect_env 50 sample_source sample_connect_task sample_inspect_db =
      (fst sample_inspection, Return (Inspected None COMPLETED))"
    using sample_inspection_done by (cases sample_inspection) (simp add: sample_inspection_def)
  moreover have "''db'' \<in> set (map fst (connected_systems sample_connect_task sample_inspect_db))" by code_simp
  ultimately show ?thesis using connected_hosts_are_reported [OF sample_inspect_row] by blast
qed

end
