(* ===== verification/Spec2Isabelle.thy ===== *)
theory Spec2Isabelle
  imports Fingerprint_Runner Network_Inspect
begin

text \<open>
  Verification of quipucords, a Django service that scans networks, vCenter, Satellite, OpenShift,
  Ansible and RHACS servers, and turns the raw facts it collects into one fingerprint per system
  and into reports. File names below are relative to \<open>src/quipucords\<close>.

  \<^bold>\<open>The parts and how they interact.\<close> A scan job has one inspection task per source and one
  fingerprint task. Celery runs the inspection tasks of a job in any order, then the fingerprint
  task, then a final step that sets the status of the job; a user can cancel at any moment. An
  inspection stores raw facts. The fingerprint task reads the raw facts of the report, makes one
  fingerprint per system and source, merges the fingerprints of the same system, stores them, and
  computes an aggregate report from them.

  \<^bold>\<open>The prelude.\<close>
  \<^item> \<open>Py_Prelude\<close>: Python values (\<open>pyval\<close>), exceptions as values (\<open>res\<close>), dicts in insertion order,
    partial and total correctness of operations that may raise (\<open>if_returns\<close>, \<open>returns\<close>).
  \<^item> \<open>Py_Text\<close>, \<open>Py_Convert\<close>: the methods of \<open>str\<close>, conversions between text and numbers, \<open>strptime\<close>.
  \<^item> \<open>Ip_Text\<close>, \<open>Json_Text\<close>: the parts of \<open>ipaddress\<close> and \<open>json.loads\<close> the scanner uses, with round trips
    of IPv4 addresses.

  \<^bold>\<open>The life cycle of a scan.\<close>
  \<^item> \<open>Scan_Store\<close>, \<open>Report_Rows\<close>: the tables, one record per model class, in a record \<open>db\<close>; the locale
    \<open>table\<close> is what the rest relies on of loading and saving rows.
  \<^item> \<open>Scan_Task\<close>: the methods of \<open>ScanTask\<close> (\<open>api/scantask/model.py\<close>). Increments of counters through
    stale instances are not lost; \<open>cleanup_facts\<close> deletes exactly what it should.
  \<^item> \<open>Scan_Job\<close>: the methods of \<open>ScanJob\<close> (\<open>api/scanjob/model.py\<close>). They implement an abstract life
    cycle (locale \<open>status_machine\<close>), in which a finished job never changes again.
  \<^item> \<open>Scan_Runner\<close>: \<open>scanner/job.py\<close>, \<open>scanner/tasks.py\<close>, \<open>scanner/manager.py\<close>,
    \<open>api/signal/scanjob_signal.py\<close>. The executions of a job are a step relation that interleaves
    Celery tasks and cancel requests. A started job can always finish and ends in a final status; a
    canceled one stays canceled, but for the race \<open>fingerprint_overwrites_cancel\<close> shows. What a task
    does is a parameter under the contract \<open>task_runner\<close>.

  \<^bold>\<open>Fingerprints.\<close>
  \<^item> \<open>Fact_Utils\<close>, \<open>JBoss_Products\<close>: lookups in nested facts and conversions (\<open>utils\<close>,
    \<open>fingerprinter/formatters.py\<close>, \<open>fingerprinter/utils.py\<close>), and the detection of JBoss products.
  \<^item> \<open>Fingerprint_Facts\<close>: the processors of one system, for the six kinds of sources.
  \<^item> \<open>Fingerprint_Merge\<close>: \<open>_merge_fingerprint\<close> and its specification.
  \<^item> \<open>Fingerprint_Dedup\<close>: de-duplication of a list and merging of two lists, proved for every merge
    that satisfies the locale \<open>fingerprint_merger\<close>, which the model's own merge does.
  \<^item> \<open>Fingerprint_Engine\<close>: \<open>_process_sources\<close>. Once the facts of all sources are processed, the engine
    cannot fail.
  \<^item> \<open>Fingerprint_Runner\<close>: \<open>execute_task\<close>, which satisfies \<open>task_runner\<close>. A report can be downloaded
    exactly if its fingerprint task completed.

  \<^bold>\<open>Reports.\<close>
  \<^item> \<open>Report_Sources\<close>: what a report reads from the database (\<open>api/report/model.py\<close>).
  \<^item> \<open>Aggregate_Report\<close>: \<open>api/aggregate_report/model.py\<close>. Every system and result is counted once.

  \<^bold>\<open>Network scans.\<close>
  \<^item> \<open>Network_Process\<close>, \<open>Network_Facts\<close>: \<open>scanner/network/processing\<close>, the framework and its 77 processors
    of command output. Processing a fact raises nothing but one \<open>KeyError\<close>, and the parsers of repository
    lists, installed products and addresses lose nothing they should keep.
  \<^item> \<open>Network_Connect\<close>: host patterns and inventories (\<open>scanner/network/utils.py\<close>), the event handler
    (\<open>scanner/network/connect_callback.py\<close>) and \<open>run_with_result_store\<close> (\<open>scanner/network/inspect.py\<close>). If the
    connection phase completes, every host has one result and the counters add up. The locales
    \<open>step_handler\<close> and \<open>event_handler\<close> lift what one step keeps to a run of a playbook.
  \<^item> \<open>Network_Inspect\<close>: \<open>scanner/network/inspect_callback.py\<close> and \<open>InspectTaskRunner\<close>. Results are counted
    under their status, no connected host is lost, and a fact is processed with the facts before it
    only. Storing results is a \<open>step_handler\<close>, the whole task a \<open>task_runner\<close>.

  \<^bold>\<open>Bounds and fuel.\<close> Only the parser of JSON texts has fuel: one more than the length of the text, which
  \<open>json_loads_complete\<close> proves to be enough. Other loops over lists are structural or folds, and the
  splitting of text and of host lists terminates by the length of the rest.

  \<^bold>\<open>Conventions.\<close> Characters are the first 256 code points. Finite floats are exact rationals. Log
  messages are left out unless building one can raise. Sets are lists without duplicates where
  their order does not matter.

  \<^bold>\<open>Parameters.\<close> Code outside \<open>src\<close> is an argument: the serializers of Django REST framework (\<open>fp_env\<close>),
  UUIDs, the clock, the content of Celery and Redis (\<open>celery\<close>), and Ansible (\<open>ansible\<close>: host ranges,
  decryption, runs of playbooks as lists of events with a final status, the data of credentials). Settings,
  feature flags and the names of the facts of the playbooks are in \<open>inspect_env\<close>. What a task does is the
  argument \<open>execute\<close> of the runners, under the contract \<open>task_runner\<close>, which the models of the fingerprint
  task and of the network inspection satisfy.

  \<^bold>\<open>Not modelled.\<close> REST views and serializers, the inspection of vCenter, Satellite, OpenShift, Ansible
  and RHACS servers (network I/O through third-party clients), the playbooks, ssh keys and log files of
  network scans, the rendering of reports into files, uploads, authentication, the vault, settings and
  migrations. They are listed with reasons in the component list.
\<close>

end
